(* ===== verification/Prelude.thy ===== *)
theory Prelude
  imports Main "HOL-Library.Word" "HOL-Library.Sublist"
begin

text \<open>
  Shared vocabulary of the development: bytes and byte strings, the crate's error type
  (\<^verbatim>\<open>core/src/error.rs\<close>), results, big- and little-endian integers as \<^verbatim>\<open>bytes::BufMut\<close>
  and \<^verbatim>\<open>bytes::Buf\<close> write and read them, UTF-8 validation as \<^verbatim>\<open>std::str::from_utf8\<close>
  performs it, and the generic lemmas that the component theories rely on.

  Diagnostic texts of errors (the \<^verbatim>\<open>String\<close> built by \<^verbatim>\<open>format!\<close> inside a variant) are not part of
  the model; option numbers and endpoint strings, which callers can act upon, are.
\<close>

unbundle bit_operations_syntax

named_theorems wire_simps
named_theorems wire_eval


section \<open>Bytes and strings\<close>

type_synonym byte = "8 word"
type_synonym bytes = "byte list"

text \<open>A Rust string literal as its UTF-8 bytes (every literal of the sources is ASCII).\<close>

definition str :: "string \<Rightarrow> bytes" where
  "str s = map (\<lambda>c. of_nat (of_char c)) s"

lemma str_Nil [simp]: "str [] = []"
  by (simp add: str_def)

lemma str_Cons [wire_eval]: "str (c # cs) = of_nat (of_char c) # str cs"
  by (simp add: str_def)

lemma length_str [simp]: "length (str s) = length s"
  by (simp add: str_def)


section \<open>Errors and results\<close>

datatype ZmqError =
    IoError
  | InvalidArgument
  | Timeout
  | AddrInUse string
  | AddrNotAvailable string
  | ConnectionRefused string
  | HostUnreachable
  | NetworkUnreachable
  | ConnectionClosed
  | PermissionDenied
  | InvalidEndpoint string
  | EndpointResolutionFailed
  | DnsResolutionFailed
  | InvalidOption int
  | InvalidOptionValue int
  | InvalidSocketType
  | InvalidState
  | ProtocolViolation
  | InvalidMessage
  | SecurityError
  | InvalidCurveKey
  | AuthenticationFailure
  | EncryptionError
  | ResourceLimitReached
  | UnsupportedTransport string
  | UnsupportedOption int
  | UnsupportedFeature
  | Internal

type_synonym 'a res = "ZmqError + 'a"

text \<open>A \<^verbatim>\<open>Duration\<close>, in milliseconds.\<close>

type_synonym duration = nat

definition and_then :: "'e + 'a \<Rightarrow> ('a \<Rightarrow> 'e + 'b) \<Rightarrow> 'e + 'b" where
  "and_then r f = (case r of Inl e \<Rightarrow> Inl e | Inr a \<Rightarrow> f a)"

lemma and_then_simps [simp]:
  "and_then (Inl e) f = Inl e"
  "and_then (Inr a) f = f a"
  by (simp_all add: and_then_def)

lemma and_then_Inr_iff: "and_then r f = Inr b \<longleftrightarrow> (\<exists>a. r = Inr a \<and> f a = Inr b)"
  by (cases r) auto

definition is_ok :: "'e + 'a \<Rightarrow> bool" where
  "is_ok r = (case r of Inl _ \<Rightarrow> False | Inr _ \<Rightarrow> True)"

lemma is_ok_simps [simp]: "is_ok (Inr a)" "\<not> is_ok (Inl e)"
  by (simp_all add: is_ok_def)

definition ok_or :: "'e \<Rightarrow> 'a option \<Rightarrow> 'e + 'a" where
  "ok_or e x = (case x of None \<Rightarrow> Inl e | Some a \<Rightarrow> Inr a)"

lemma ok_or_simps [simp]: "ok_or e None = Inl e" "ok_or e (Some a) = Inr a"
  by (simp_all add: ok_or_def)


section \<open>Integers on the wire\<close>

text \<open>
  \<^term>\<open>be_bytes k n\<close> is what \<^verbatim>\<open>put_u8\<close>, \<^verbatim>\<open>put_u16\<close>, \<^verbatim>\<open>put_u32\<close> and \<^verbatim>\<open>put_u64\<close> write for \<open>k = 1, 2, 4, 8\<close>
  after an \<^verbatim>\<open>as\<close> cast to that width, so the value wraps modulo \<open>256 ^ k\<close>; \<^term>\<open>be_nat\<close> is the value the
  matching \<^verbatim>\<open>get\<close> reads.
\<close>

fun be_bytes :: "nat \<Rightarrow> nat \<Rightarrow> bytes" where
  "be_bytes 0 n = []"
| "be_bytes (Suc k) n = be_bytes k (n div 256) @ [of_nat n]"

definition be_nat :: "bytes \<Rightarrow> nat" where
  "be_nat bs = foldl (\<lambda>a b. 256 * a + unat b) 0 bs"

definition le_bytes :: "nat \<Rightarrow> nat \<Rightarrow> bytes" where
  "le_bytes k n = rev (be_bytes k n)"

definition le_nat :: "bytes \<Rightarrow> nat" where
  "le_nat bs = be_nat (rev bs)"

lemma be_bytes_numeral [wire_eval]:
  "be_bytes (numeral k) n = be_bytes (pred_numeral k) (n div 256) @ [of_nat n]"
  by (simp only: numeral_eq_Suc [of k] be_bytes.simps)

lemma length_be_bytes [simp]: "length (be_bytes k n) = k"
  by (induction k arbitrary: n) auto

lemma length_le_bytes [simp]: "length (le_bytes k n) = k"
  by (simp add: le_bytes_def)

lemma be_nat_Nil [simp]: "be_nat [] = 0"
  by (simp add: be_nat_def)

lemma be_nat_snoc [simp]: "be_nat (bs @ [b]) = 256 * be_nat bs + unat b"
  by (simp add: be_nat_def)

lemma be_nat_single [simp]: "be_nat [b] = unat b"
  by (simp add: be_nat_def)

lemma unat_byte_of_nat: "unat (of_nat n :: byte) = n mod 256"
  by (simp add: unat_of_nat)

lemma unat_byte_less [simp]: "unat (b :: byte) < 256"
  using unsigned_less [of b] by simp

lemma be_nat_be_bytes [wire_simps]: "be_nat (be_bytes k n) = n mod 256 ^ k"
proof (induction k arbitrary: n)
  case 0
  show ?case by simp
next
  case (Suc k)
  have "n mod (256 * 256 ^ k) = 256 * (n div 256 mod 256 ^ k) + n mod 256"
    by (rule mod_mult2_eq)
  then show ?case by (simp add: Suc unat_byte_of_nat)
qed

lemma be_nat_bound: "be_nat bs < 256 ^ length bs"
proof (induction bs rule: rev_induct)
  case Nil
  show ?case by simp
next
  case (snoc b bs)
  have "256 * be_nat bs + unat b < 256 * be_nat bs + 256" by simp
  also have "\<dots> = 256 * Suc (be_nat bs)" by simp
  also have "\<dots> \<le> 256 * 256 ^ length bs" using snoc by (intro mult_le_mono2) simp
  finally show ?case by simp
qed

lemma unat_eq_of_nat_mod: "m mod 256 = n mod 256 \<Longrightarrow> (of_nat m :: byte) = of_nat n"
  by (simp add: word_of_nat_eq_iff take_bit_eq_mod)

lemma be_bytes_be_nat [wire_simps]: "be_bytes (length bs) (be_nat bs) = bs"
proof (induction bs rule: rev_induct)
  case Nil
  show ?case by simp
next
  case (snoc b bs)
  have "(of_nat (256 * be_nat bs + unat b) :: byte) = of_nat (unat b)"
    by (rule unat_eq_of_nat_mod) simp
  moreover have "(256 * be_nat bs + unat b) div 256 = be_nat bs"
    by simp
  ultimately show ?case using snoc by simp
qed

lemma le_nat_le_bytes [wire_simps]: "le_nat (le_bytes k n) = n mod 256 ^ k"
  by (simp add: le_nat_def le_bytes_def be_nat_be_bytes)

lemma be_bytes_inj:
  assumes "be_bytes k m = be_bytes k n" "m < 256 ^ k" "n < 256 ^ k"
  shows "m = n"
  using arg_cong [OF assms(1), of be_nat] assms(2,3) by (simp add: be_nat_be_bytes)

lemma le_bytes_inj:
  assumes "le_bytes k m = le_bytes k n" "m < 256 ^ k" "n < 256 ^ k"
  shows "m = n"
  using assms by (intro be_bytes_inj [of k]) (simp_all add: le_bytes_def)

text \<open>Reading a big-endian integer off the front of a buffer.\<close>

lemma take_be_bytes [wire_simps]: "take k (be_bytes k n @ bs) = be_bytes k n"
  by simp

lemma drop_be_bytes [wire_simps]: "drop k (be_bytes k n @ bs) = bs"
  by simp


section \<open>UTF-8\<close>

definition utf8_cont :: "byte \<Rightarrow> bool" where
  "utf8_cont b = (0x80 \<le> b \<and> b \<le> 0xBF)"

text \<open>The accepted sequences of \<^verbatim>\<open>std::str::from_utf8\<close>: no overlong forms, no surrogates, at most U+10FFFF.\<close>

fun utf8_valid :: "bytes \<Rightarrow> bool" where
  "utf8_valid [] = True"
| "utf8_valid (a # rest) =
    (if a < 0x80 then utf8_valid rest
     else if 0xC2 \<le> a \<and> a \<le> 0xDF then
       (case rest of b # r \<Rightarrow> utf8_cont b \<and> utf8_valid r | _ \<Rightarrow> False)
     else if 0xE0 \<le> a \<and> a \<le> 0xEF then
       (case rest of
          b # c # r \<Rightarrow>
            utf8_cont b \<and> (a = 0xE0 \<longrightarrow> 0xA0 \<le> b) \<and> (a = 0xED \<longrightarrow> b \<le> 0x9F) \<and>
            utf8_cont c \<and> utf8_valid r
        | _ \<Rightarrow> False)
     else if 0xF0 \<le> a \<and> a \<le> 0xF4 then
       (case rest of
          b # c # d # r \<Rightarrow>
            utf8_cont b \<and> (a = 0xF0 \<longrightarrow> 0x90 \<le> b) \<and> (a = 0xF4 \<longrightarrow> b \<le> 0x8F) \<and>
            utf8_cont c \<and> utf8_cont d \<and> utf8_valid r
        | _ \<Rightarrow> False)
     else False)"

lemma utf8_valid_ascii: "\<forall>b \<in> set bs. b < 0x80 \<Longrightarrow> utf8_valid bs"
  by (induction bs) auto


section \<open>Association lists as ordered maps\<close>

text \<open>
  Rust's \<^verbatim>\<open>HashMap::insert\<close>, \<^verbatim>\<open>get\<close> and \<^verbatim>\<open>remove\<close> on a map kept as an association list with
  distinct keys.  Iteration order of a \<^verbatim>\<open>HashMap\<close> is unspecified, so no property may depend on it.
\<close>

fun alist_put :: "'k \<Rightarrow> 'v \<Rightarrow> ('k \<times> 'v) list \<Rightarrow> ('k \<times> 'v) list" where
  "alist_put k v [] = [(k, v)]"
| "alist_put k v ((k', v') # m) = (if k = k' then (k, v) # m else (k', v') # alist_put k v m)"

definition alist_del :: "'k \<Rightarrow> ('k \<times> 'v) list \<Rightarrow> ('k \<times> 'v) list" where
  "alist_del k m = filter (\<lambda>p. fst p \<noteq> k) m"

lemma map_of_alist_put [simp]: "map_of (alist_put k v m) = (map_of m)(k \<mapsto> v)"
  by (induction k v m rule: alist_put.induct) auto

lemma map_of_alist_del [simp]: "map_of (alist_del k m) = (map_of m)(k := None)"
  by (induction m) (auto simp: alist_del_def)

lemma keys_alist_put [simp]: "fst ` set (alist_put k v m) = insert k (fst ` set m)"
  by (induction k v m rule: alist_put.induct) auto

lemma distinct_alist_put [simp]:
  "distinct (map fst m) \<Longrightarrow> distinct (map fst (alist_put k v m))"
  by (induction k v m rule: alist_put.induct) simp_all

lemma keys_alist_del [simp]: "fst ` set (alist_del k m) = fst ` set m - {k}"
  by (auto simp: alist_del_def)

lemma distinct_alist_del [simp]:
  "distinct (map fst m) \<Longrightarrow> distinct (map fst (alist_del k m))"
  by (simp add: alist_del_def distinct_map_filter)

end
