(* ===== verification/Trie.thy ===== *)
theory Trie
  imports Prelude "HOL-Library.Multiset"
begin

text \<open>
  The subscription trie of SUB sockets (\<^verbatim>\<open>core/src/socket/patterns/trie.rs\<close>).  A node's child map is an
  association list in the map's iteration order; its subscription count is the 64-bit atomic counter, so
  \<^verbatim>\<open>fetch_add\<close> and \<^verbatim>\<open>fetch_sub\<close> wrap.  Every operation of the source takes the locks node by node and is
  modelled as one step.
\<close>

section \<open>Definitions\<close>

datatype TrieNode = TrieNode (children: "(byte \<times> TrieNode) list") (node_count: "64 word")

definition trie_new :: TrieNode where
  "trie_new = TrieNode [] 0"

fun subscribe :: "bytes \<Rightarrow> TrieNode \<Rightarrow> TrieNode" where
  "subscribe [] (TrieNode cs n) = TrieNode cs (n + 1)"
| "subscribe (b # bs) (TrieNode cs n) =
    TrieNode (alist_put b (subscribe bs (case map_of cs b of None \<Rightarrow> TrieNode [] 0 | Some t \<Rightarrow> t)) cs) n"

fun unsubscribe :: "bytes \<Rightarrow> TrieNode \<Rightarrow> TrieNode \<times> bool" where
  "unsubscribe [] (TrieNode cs n) =
    (let old_count = n; n = n - 1
     in if old_count > 0 then (TrieNode cs n, old_count = 1) else (TrieNode cs (n + 1), False))"
| "unsubscribe (b # bs) (TrieNode cs n) =
    (case map_of cs b of
       None \<Rightarrow> (TrieNode cs n, False)
     | Some t \<Rightarrow> (case unsubscribe bs t of (t', r) \<Rightarrow> (TrieNode (alist_put b t' cs) n, r)))"

fun matches_loop :: "TrieNode \<Rightarrow> bytes \<Rightarrow> bool" where
  "matches_loop (TrieNode cs n) [] = (n > 0)"
| "matches_loop (TrieNode cs n) (b # bs) =
    (if n > 0 then True
     else case map_of cs b of None \<Rightarrow> False | Some t \<Rightarrow> matches_loop t bs)"

definition matches :: "TrieNode \<Rightarrow> bytes \<Rightarrow> bool" where
  "matches root message_topic = (if node_count root > 0 then True else matches_loop root message_topic)"

fun collect_topics_recursive :: "TrieNode \<Rightarrow> bytes \<Rightarrow> bytes list \<Rightarrow> bytes list"
  and collect_children :: "(byte \<times> TrieNode) list \<Rightarrow> bytes \<Rightarrow> bytes list \<Rightarrow> bytes list" where
  "collect_topics_recursive (TrieNode cs n) current_prefix all_topics =
    collect_children cs current_prefix (if n > 0 then all_topics @ [current_prefix] else all_topics)"
| "collect_children [] current_prefix all_topics = all_topics"
| "collect_children ((b, t) # cs) current_prefix all_topics =
    collect_children cs current_prefix (collect_topics_recursive t (current_prefix @ [b]) all_topics)"

definition get_all_topics :: "TrieNode \<Rightarrow> bytes list" where
  "get_all_topics root = collect_topics_recursive root [] []"


section \<open>The contract of a subscription table\<close>

text \<open>
  What SUB relies on: a table of topic counts, a prefix test and an enumeration of the active topics.
  Counts are exact below the counter's capacity.
\<close>

datatype sub_op = Subscribe bytes | Unsubscribe bytes

fun spec_op :: "sub_op \<Rightarrow> bytes multiset \<Rightarrow> bytes multiset" where
  "spec_op (Subscribe p) M = add_mset p M"
| "spec_op (Unsubscribe p) M = M - {#p#}"

locale subscription_table =
  fixes empty :: 't
    and sub :: "bytes \<Rightarrow> 't \<Rightarrow> 't"
    and unsub :: "bytes \<Rightarrow> 't \<Rightarrow> 't \<times> bool"
    and matched :: "'t \<Rightarrow> bytes \<Rightarrow> bool"
    and topics :: "'t \<Rightarrow> bytes list"
    and cnt :: "'t \<Rightarrow> bytes \<Rightarrow> nat"
    and wf :: "'t \<Rightarrow> bool"
    and cap :: nat
  assumes wf_empty: "wf empty"
    and wf_sub: "wf t \<Longrightarrow> wf (sub p t)"
    and wf_unsub: "wf t \<Longrightarrow> wf (fst (unsub p t))"
    and cnt_empty: "cnt empty p = 0"
    and cnt_sub: "wf t \<Longrightarrow> Suc (cnt t p) < cap \<Longrightarrow> cnt (sub p t) q = (if q = p then Suc (cnt t q) else cnt t q)"
    and cnt_unsub: "wf t \<Longrightarrow> cnt (fst (unsub p t)) q = (if q = p then cnt t q - 1 else cnt t q)"
    and unsub_result: "wf t \<Longrightarrow> snd (unsub p t) = (cnt t p = 1)"
    and matched_iff: "wf t \<Longrightarrow> matched t m \<longleftrightarrow> (\<exists>p. prefix p m \<and> cnt t p > 0)"
    and topics_set: "wf t \<Longrightarrow> set (topics t) = {p. cnt t p > 0}"
    and topics_distinct: "wf t \<Longrightarrow> distinct (topics t)"
begin

lemma refines_multiset:
  assumes "length ops < cap - 1"
  defines "t \<equiv> fold (\<lambda>x t. case x of Subscribe p \<Rightarrow> sub p t | Unsubscribe p \<Rightarrow> fst (unsub p t)) ops empty"
  defines "M \<equiv> fold spec_op ops {#}"
  shows "wf t \<and> (\<forall>p. cnt t p = count M p) \<and> size M \<le> length ops"
  using assms(1) unfolding t_def M_def
proof (induction ops rule: rev_induct)
  case Nil
  show ?case by (simp add: wf_empty cnt_empty)
next
  case (snoc x xs)
  let ?t = "fold (\<lambda>x t. case x of Subscribe p \<Rightarrow> sub p t | Unsubscribe p \<Rightarrow> fst (unsub p t)) xs empty"
    and ?M = "fold spec_op xs {#}"
  from snoc have IH: "wf ?t" "\<And>p. cnt ?t p = count ?M p" "size ?M \<le> length xs" by auto
  have cap: "Suc (cnt ?t p) < cap" for p
  proof -
    have "cnt ?t p \<le> length xs" using IH(2,3) count_le_size [of ?M p] by simp
    with snoc.prems show ?thesis by simp
  qed
  show ?case
  proof (cases x)
    case (Subscribe p)
    with IH cap show ?thesis by (auto simp: wf_sub cnt_sub)
  next
    case (Unsubscribe p)
    have "size (?M - {#p#}) \<le> size ?M" by (rule size_mset_mono) simp
    with Unsubscribe IH show ?thesis by (auto simp: wf_unsub cnt_unsub)
  qed
qed

lemma subscribe_unsubscribe:
  assumes "wf t" "Suc (cnt t p) < cap"
  shows "matched (fst (unsub p (sub p t))) m = matched t m"
proof -
  have "cnt (fst (unsub p (sub p t))) q = cnt t q" for q
    using assms by (simp add: wf_sub cnt_sub cnt_unsub)
  then show ?thesis using assms by (simp add: matched_iff wf_sub wf_unsub)
qed

end


section \<open>The trie implements it\<close>

fun trie_wf :: "TrieNode \<Rightarrow> bool" where
  "trie_wf (TrieNode cs n) = (distinct (map fst cs) \<and> (\<forall>t \<in> set (map snd cs). trie_wf t))"

fun count_at :: "TrieNode \<Rightarrow> bytes \<Rightarrow> 64 word" where
  "count_at (TrieNode cs n) [] = n"
| "count_at (TrieNode cs n) (b # bs) = (case map_of cs b of None \<Rightarrow> 0 | Some t \<Rightarrow> count_at t bs)"

definition topic_count :: "TrieNode \<Rightarrow> bytes \<Rightarrow> nat" where
  "topic_count t p = unat (count_at t p)"

lemma snd_alist_put: "snd ` set (alist_put k v m) \<subseteq> insert v (snd ` set m)"
  by (induction k v m rule: alist_put.induct) auto

lemma trie_wf_child: "trie_wf (TrieNode cs n) \<Longrightarrow> map_of cs b = Some t \<Longrightarrow> trie_wf t"
  by (auto dest!: map_of_SomeD simp: image_iff)

lemma trie_wf_put:
  "trie_wf (TrieNode cs n) \<Longrightarrow> trie_wf t \<Longrightarrow> trie_wf (TrieNode (alist_put b t cs) n')"
proof -
  assume wf: "trie_wf (TrieNode cs n)" "trie_wf t"
  have "\<forall>x \<in> insert t (snd ` set cs). trie_wf x" using wf by auto
  with snd_alist_put [of b t cs] have "\<forall>x \<in> snd ` set (alist_put b t cs). trie_wf x" by blast
  with wf show ?thesis by simp
qed

lemma trie_wf_subscribe: "trie_wf t \<Longrightarrow> trie_wf (subscribe p t)"
proof (induction p t rule: subscribe.induct)
  case (2 b bs cs n)
  have "trie_wf (case map_of cs b of None \<Rightarrow> TrieNode [] 0 | Some t \<Rightarrow> t)"
    using trie_wf_child [OF 2(2)] by (cases "map_of cs b") simp_all
  from trie_wf_put [OF 2(2) 2(1) [OF this]] show ?case by simp
qed simp

lemma trie_wf_unsubscribe: "trie_wf t \<Longrightarrow> trie_wf (fst (unsubscribe p t))"
proof (induction p t rule: unsubscribe.induct)
  case (2 b bs cs n)
  show ?case
  proof (cases "map_of cs b")
    case (Some t)
    have "trie_wf (fst (unsubscribe bs t))" by (rule 2(1) [OF Some trie_wf_child [OF 2(2) Some]])
    from trie_wf_put [OF 2(2) this] Some show ?thesis by (cases "unsubscribe bs t") simp
  qed (use 2 in simp)
qed (simp add: Let_def)

lemma count_at_leaf [simp]: "count_at (TrieNode [] 0) p = 0"
  by (cases p) simp_all

lemma count_at_subscribe:
  "count_at (subscribe p t) q = (if q = p then count_at t q + 1 else count_at t q)"
proof (induction p t arbitrary: q rule: subscribe.induct)
  case (1 cs n)
  show ?case by (cases q) simp_all
next
  case (2 b bs cs n)
  show ?case by (cases q) (auto simp: 2 split: option.split)
qed

lemma count_at_unsubscribe:
  "count_at (fst (unsubscribe p t)) q = (if q = p \<and> count_at t q > 0 then count_at t q - 1 else count_at t q)"
proof (induction p t arbitrary: q rule: unsubscribe.induct)
  case (1 cs n)
  show ?case by (cases q) (simp_all add: Let_def)
next
  case (2 b bs cs n)
  show ?case
  proof (cases "map_of cs b")
    case None
    then show ?thesis by (cases q) auto
  next
    case (Some t)
    with 2 [OF Some] show ?thesis by (cases q) (auto split: prod.split)
  qed
qed

lemma unsubscribe_result: "snd (unsubscribe p t) = (count_at t p = 1)"
proof (induction p t rule: unsubscribe.induct)
  case (1 cs n)
  show ?case by (auto simp: Let_def word_gt_0)
qed (auto split: option.split prod.split)

lemma matches_loop_iff: "matches_loop t m \<longleftrightarrow> (\<exists>p. prefix p m \<and> count_at t p > 0)"
proof (induction t m rule: matches_loop.induct)
  case (1 cs n)
  show ?case by simp
next
  case (2 cs n b bs)
  show ?case
  proof (cases "n > 0")
    case True
    then have "\<exists>p. prefix p (b # bs) \<and> count_at (TrieNode cs n) p > 0" by (intro exI [of _ "[]"]) simp
    with True show ?thesis by simp
  next
    case False
    have "(\<exists>p. prefix p (b # bs) \<and> count_at (TrieNode cs n) p > 0) \<longleftrightarrow>
        (\<exists>p. prefix p bs \<and> count_at (TrieNode cs n) (b # p) > 0)"
      using False by (auto simp: prefix_Cons)
    with 2 [OF False] False show ?thesis by (auto split: option.splits)
  qed
qed

lemma matches_iff: "matches t m \<longleftrightarrow> (\<exists>p. prefix p m \<and> count_at t p > 0)"
proof -
  have "matches_loop t m" if "node_count t > 0" using that by (cases t; cases m) auto
  then show ?thesis by (auto simp: matches_def simp flip: matches_loop_iff)
qed

text \<open>The enumeration without its accumulators.\<close>

fun topics_of :: "TrieNode \<Rightarrow> bytes list"
  and topics_of_children :: "(byte \<times> TrieNode) list \<Rightarrow> bytes list" where
  "topics_of (TrieNode cs n) = (if n > 0 then [[]] else []) @ topics_of_children cs"
| "topics_of_children [] = []"
| "topics_of_children ((b, t) # cs) = map ((#) b) (topics_of t) @ topics_of_children cs"

lemma collect_eq:
  "collect_topics_recursive t pre acc = acc @ map ((@) pre) (topics_of t)"
  "collect_children cs pre acc = acc @ map ((@) pre) (topics_of_children cs)"
  by (induction t pre acc and cs pre acc rule: collect_topics_recursive_collect_children.induct) auto

lemma get_all_topics_eq: "get_all_topics t = topics_of t"
  by (simp add: get_all_topics_def collect_eq map_idI)

lemma topics_of_spec:
  "trie_wf t \<Longrightarrow> set (topics_of t) = {p. count_at t p > 0} \<and> distinct (topics_of t)"
  "distinct (map fst cs) \<Longrightarrow> (\<forall>t \<in> set (map snd cs). trie_wf t) \<Longrightarrow>
    set (topics_of_children cs) = {b # p |b p t. map_of cs b = Some t \<and> count_at t p > 0} \<and>
    distinct (topics_of_children cs)"
proof (induction t and cs rule: topics_of_topics_of_children.induct)
  case (1 cs n)
  define C where "C = {b # p |b p t. map_of cs b = Some t \<and> count_at t p > 0}"
  have "(if n > 0 then {[]} else {}) \<union> C = {p. count_at (TrieNode cs n) p > 0}"
  proof (rule set_eqI)
    show "p \<in> (if n > 0 then {[]} else {}) \<union> C \<longleftrightarrow> p \<in> {p. count_at (TrieNode cs n) p > 0}" for p
      by (cases p) (auto simp: C_def split: option.split)
  qed
  moreover have "distinct (map fst cs)" "\<forall>t \<in> set (map snd cs). trie_wf t" using 1(2) by simp_all
  from 1(1) [OF this] have ch: "set (topics_of_children cs) = C" "distinct (topics_of_children cs)"
    by (simp_all only: C_def)
  moreover have "[] \<notin> C" by (simp add: C_def)
  ultimately show ?case by (cases "n > 0") simp_all
next
  case (3 b t cs)
  have wf: "trie_wf t" "distinct (map fst cs)" "\<forall>t \<in> set (map snd cs). trie_wf t"
    and "b \<notin> set (map fst cs)" using 3(3,4) by simp_all
  then have fresh: "map_of cs b = None" by (simp add: map_of_eq_None_iff)
  note t = 3(1) [OF wf(1)] and c = 3(2) [OF wf(2,3)]
  have "p \<in> set (topics_of_children ((b, t) # cs)) \<longleftrightarrow>
      p \<in> {b' # p |b' p t'. map_of ((b, t) # cs) b' = Some t' \<and> count_at t' p > 0}" for p
  proof (cases p)
    case (Cons x q)
    have "p \<in> set (topics_of_children ((b, t) # cs)) \<longleftrightarrow>
        (x = b \<and> count_at t q > 0) \<or> (\<exists>t'. map_of cs x = Some t' \<and> count_at t' q > 0)"
      using Cons t c by auto
    also have "\<dots> \<longleftrightarrow> (\<exists>t'. map_of ((b, t) # cs) x = Some t' \<and> count_at t' q > 0)"
      using fresh by auto
    finally show ?thesis using Cons by simp
  qed (use c in auto)
  moreover have "distinct (topics_of_children ((b, t) # cs))"
    using fresh t c by (auto simp: distinct_map)
  ultimately show ?case by blast
qed simp

interpretation trie: subscription_table trie_new subscribe unsubscribe matches get_all_topics topic_count trie_wf "2 ^ 64"
proof
  fix t :: TrieNode and p q m :: bytes
  show "trie_wf trie_new" by (simp add: trie_new_def)
  show "topic_count trie_new p = 0" by (simp add: trie_new_def topic_count_def)
  show "trie_wf t \<Longrightarrow> trie_wf (subscribe p t)" by (rule trie_wf_subscribe)
  show "trie_wf t \<Longrightarrow> trie_wf (fst (unsubscribe p t))" by (rule trie_wf_unsubscribe)
  show "topic_count (subscribe p t) q = (if q = p then Suc (topic_count t q) else topic_count t q)"
    if "Suc (topic_count t p) < 2 ^ 64"
    using that by (auto simp: topic_count_def count_at_subscribe unat_word_ariths)
  show "topic_count (fst (unsubscribe p t)) q = (if q = p then topic_count t q - 1 else topic_count t q)"
    by (auto simp: topic_count_def count_at_unsubscribe word_gt_0 unat_minus_one)
  show "snd (unsubscribe p t) = (topic_count t p = 1)"
    by (simp add: topic_count_def unsubscribe_result word_unat_eq_iff)
  show "matches t m \<longleftrightarrow> (\<exists>p. prefix p m \<and> topic_count t p > 0)"
    by (simp add: topic_count_def matches_iff word_less_nat_alt)
  show "trie_wf t \<Longrightarrow> set (get_all_topics t) = {p. topic_count t p > 0}"
    by (simp add: topic_count_def get_all_topics_eq topics_of_spec word_less_nat_alt)
  show "trie_wf t \<Longrightarrow> distinct (get_all_topics t)"
    by (simp add: get_all_topics_eq topics_of_spec)
qed

fun trie_op :: "sub_op \<Rightarrow> TrieNode \<Rightarrow> TrieNode" where
  "trie_op (Subscribe p) t = subscribe p t"
| "trie_op (Unsubscribe p) t = fst (unsubscribe p t)"

text \<open>
  C12. The trie implements a multiset of topics: after any sequence of fewer than \<open>2 ^ 64 - 1\<close> subscribe
  and unsubscribe calls, a message topic matches exactly if one of the topics still subscribed is a prefix
  of it, the topics sent to a new publisher are exactly those still subscribed, each once, and an
  unsubscribe reports the end of a subscription exactly when it removes the last one.
\<close>

theorem trie_refines_multiset:
  fixes ops defines "t \<equiv> fold trie_op ops trie_new" and "M \<equiv> fold spec_op ops {#}"
  assumes "length ops < 2 ^ 64 - 1"
  shows "(matches t m \<longleftrightarrow> (\<exists>p \<in># M. prefix p m)) \<and>
    set (get_all_topics t) = set_mset M \<and> distinct (get_all_topics t) \<and>
    (snd (unsubscribe p t) \<longleftrightarrow> count M p = 1)"
proof -
  have "trie_op = (\<lambda>x t. case x of Subscribe p \<Rightarrow> subscribe p t | Unsubscribe p \<Rightarrow> fst (unsubscribe p t))"
    by (intro ext) (auto split: sub_op.split)
  with trie.refines_multiset [OF assms(3)]
  have "trie_wf t" "\<And>p. topic_count t p = count M p" by (auto simp: t_def M_def)
  then show ?thesis
    by (auto simp: trie.matched_iff trie.topics_set trie.topics_distinct trie.unsub_result)
qed

theorem trie_refines_multiset_witness:
  "matches (fold trie_op [Subscribe [1], Subscribe [1], Unsubscribe [1]] trie_new) [1, 2] \<and>
    \<not> matches (fold trie_op [Subscribe [1], Unsubscribe [1]] trie_new) [1, 2]"
  using trie_refines_multiset [of "[Subscribe [1], Subscribe [1], Unsubscribe [1]]" "[1, 2]"]
    trie_refines_multiset [of "[Subscribe [1], Unsubscribe [1]]" "[1, 2]"] by simp

end
