(* ===== verification/Load_Balancer.thy ===== *)
theory Load_Balancer
  imports Prelude
begin

text \<open>
  The round-robin balancer of PUSH, DEALER and REQ sockets
  (\<^verbatim>\<open>core/src/socket/patterns/load_balancer.rs\<close>): a queue of connection URIs under a mutex.  Every
  operation holds the mutex from start to end and is one step of the model.  \<^verbatim>\<open>wait_for_connection\<close> returns as
  soon as \<^term>\<open>has_connections\<close> holds; the wake-ups of the \<^verbatim>\<open>Notify\<close> are not modelled.
\<close>

section \<open>Definitions\<close>

type_synonym uri = string

record LoadBalancer =
  connection_uris :: "uri list"

definition lb_new :: LoadBalancer where
  "lb_new = \<lparr>connection_uris = []\<rparr>"

definition add_connection :: "uri \<Rightarrow> LoadBalancer \<Rightarrow> LoadBalancer" where
  "add_connection u lb =
    (if u \<notin> set (connection_uris lb) then lb\<lparr>connection_uris := connection_uris lb @ [u]\<rparr> else lb)"

definition remove_connection :: "uri \<Rightarrow> LoadBalancer \<Rightarrow> LoadBalancer" where
  "remove_connection u lb =
    (if u \<in> set (connection_uris lb) then lb\<lparr>connection_uris := remove1 u (connection_uris lb)\<rparr> else lb)"

definition get_next_connection_uri :: "LoadBalancer \<Rightarrow> LoadBalancer \<times> uri option" where
  "get_next_connection_uri lb =
    (case connection_uris lb of
       [] \<Rightarrow> (lb, None)
     | u # us \<Rightarrow> (lb\<lparr>connection_uris := us @ [u]\<rparr>, Some u))"

definition has_connections :: "LoadBalancer \<Rightarrow> bool" where
  "has_connections lb = (connection_uris lb \<noteq> [])"

definition connection_count :: "LoadBalancer \<Rightarrow> nat" where
  "connection_count lb = length (connection_uris lb)"


section \<open>The contract of a balancer\<close>

text \<open>Repeated selection, as a client that sends \<open>k\<close> messages performs it.\<close>

fun take_turns :: "('b \<Rightarrow> 'b \<times> uri option) \<Rightarrow> nat \<Rightarrow> 'b \<Rightarrow> 'b \<times> uri option list" where
  "take_turns next 0 b = (b, [])"
| "take_turns next (Suc k) b =
    (case next b of (b', u) \<Rightarrow> (case take_turns next k b' of (b'', us) \<Rightarrow> (b'', u # us)))"

locale balancer =
  fixes add :: "uri \<Rightarrow> 'b \<Rightarrow> 'b"
    and remove :: "uri \<Rightarrow> 'b \<Rightarrow> 'b"
    and next_uri :: "'b \<Rightarrow> 'b \<times> uri option"
    and conns :: "'b \<Rightarrow> uri list"
  assumes conns_add: "conns (add u b) = (if u \<in> set (conns b) then conns b else conns b @ [u])"
    and conns_remove: "conns (remove u b) = remove1 u (conns b)"
    and next_empty: "conns b = [] \<Longrightarrow> next_uri b = (b, None)"
    and next_rotate: "conns b \<noteq> [] \<Longrightarrow>
      snd (next_uri b) = Some (hd (conns b)) \<and> conns (fst (next_uri b)) = rotate1 (conns b)"
begin

lemma conns_next: "conns (fst (next_uri b)) = rotate1 (conns b)"
  using next_empty next_rotate by (cases "conns b = []") auto

lemma distinct_step:
  "distinct (conns b) \<Longrightarrow> distinct (conns (add u b))"
  "distinct (conns b) \<Longrightarrow> distinct (conns (remove u b))"
  "distinct (conns b) \<Longrightarrow> distinct (conns (fst (next_uri b)))"
  by (simp_all add: conns_add conns_remove conns_next)

lemma removed_not_selected:
  assumes "distinct (conns b)"
  shows "snd (next_uri (remove u b)) \<noteq> Some u"
proof (cases "conns (remove u b) = []")
  case True
  then show ?thesis by (simp add: next_empty)
next
  case False
  from False have "hd (conns (remove u b)) \<in> set (conns (remove u b))" by simp
  also have "\<dots> = set (conns b) - {u}" using assms by (simp add: conns_remove)
  finally show ?thesis using next_rotate [OF False] by auto
qed

text \<open>Turn \<open>i\<close> goes to the connection at position \<open>i\<close> modulo the number of connections.\<close>

lemma turns:
  assumes "conns b \<noteq> []"
  shows "snd (take_turns next_uri k b) = map (\<lambda>i. Some (conns b ! (i mod length (conns b)))) [0..<k] \<and>
    conns (fst (take_turns next_uri k b)) = rotate k (conns b)"
  using assms
proof (induction k arbitrary: b)
  case 0
  show ?case by simp
next
  case (Suc k)
  let ?us = "conns b" and ?b' = "fst (next_uri b)"
  have ne: "conns ?b' \<noteq> []" using Suc.prems by (simp add: conns_next)
  have rot: "conns ?b' ! (i mod length (conns ?b')) = ?us ! (Suc i mod length ?us)" for i
    using Suc.prems by (simp add: conns_next nth_rotate1 mod_Suc_eq)
  have hd: "snd (next_uri b) = Some (?us ! 0)" using next_rotate [OF Suc.prems] Suc.prems
    by (simp add: hd_conv_nth)
  have "[0..<Suc k] = 0 # map Suc [0..<k]" by (simp add: upt_conv_Cons map_Suc_upt)
  then show ?case
    using Suc.IH [OF ne] rot hd conns_next [of b]
    by (cases "next_uri b"; cases "take_turns next_uri k (fst (next_uri b))")
      (simp add: rotate1_rotate_swap comp_def del: upt_Suc)
qed

lemma fair:
  assumes "conns b \<noteq> []" "distinct (conns b)" "u \<in> set (conns b)"
  shows "length (filter (\<lambda>x. x = Some u) (snd (take_turns next_uri (k * length (conns b)) b))) = k"
proof -
  let ?us = "conns b" and ?n = "length (conns b)"
  obtain j where j: "j < ?n" "?us ! j = u" using assms(3) by (auto simp: in_set_conv_nth)
  have "?us ! (i mod ?n) = u \<longleftrightarrow> i mod ?n = j" for i
    using assms(1,2) j nth_eq_iff_index_eq [of ?us "i mod ?n" j] by auto
  then have "length (filter (\<lambda>x. x = Some u) (snd (take_turns next_uri (k * ?n) b))) =
      card {i. i < k * ?n \<and> i mod ?n = j}"
    using turns [OF assms(1), of "k * ?n"] by (simp add: length_filter_conv_card cong: conj_cong)
  also have "{i. i < k * ?n \<and> i mod ?n = j} = (\<lambda>q. q * ?n + j) ` {..<k}"
  proof (intro set_eqI iffI)
    fix i assume "i \<in> {i. i < k * ?n \<and> i mod ?n = j}"
    then have "i div ?n < k" "i mod ?n = j" by (simp_all add: less_mult_imp_div_less)
    moreover from this have "i = i div ?n * ?n + j" using div_mult_mod_eq [of i ?n] by simp
    ultimately show "i \<in> (\<lambda>q. q * ?n + j) ` {..<k}" by blast
  next
    fix i assume "i \<in> (\<lambda>q. q * ?n + j) ` {..<k}"
    then obtain q where q: "q < k" "i = q * ?n + j" by auto
    then have "i < Suc q * ?n" using j by simp
    also have "\<dots> \<le> k * ?n" using q by (intro mult_le_mono1) simp
    finally show "i \<in> {i. i < k * ?n \<and> i mod ?n = j}" using q j by simp
  qed
  also have "card \<dots> = k"
    using assms(1) by (subst card_image) (auto simp: inj_on_def)
  finally show ?thesis .
qed

end


interpretation lb: balancer add_connection remove_connection get_next_connection_uri connection_uris
proof
  fix u and b :: LoadBalancer
  show "connection_uris (add_connection u b) =
      (if u \<in> set (connection_uris b) then connection_uris b else connection_uris b @ [u])"
    by (simp add: add_connection_def)
  show "connection_uris (remove_connection u b) = remove1 u (connection_uris b)"
    by (simp add: remove_connection_def remove1_idem)
  show "connection_uris b = [] \<Longrightarrow> get_next_connection_uri b = (b, None)"
    by (simp add: get_next_connection_uri_def)
  show "connection_uris b \<noteq> [] \<Longrightarrow>
      snd (get_next_connection_uri b) = Some (hd (connection_uris b)) \<and>
      connection_uris (fst (get_next_connection_uri b)) = rotate1 (connection_uris b)"
    by (cases "connection_uris b") (simp_all add: get_next_connection_uri_def)
qed

section \<open>Fairness\<close>

text \<open>The balancers that attach, detach and select calls can produce.\<close>

inductive lb_reachable :: "LoadBalancer \<Rightarrow> bool" where
  lb_init: "lb_reachable lb_new"
| lb_add: "lb_reachable lb \<Longrightarrow> lb_reachable (add_connection u lb)"
| lb_remove: "lb_reachable lb \<Longrightarrow> lb_reachable (remove_connection u lb)"
| lb_next: "lb_reachable lb \<Longrightarrow> lb_reachable (fst (get_next_connection_uri lb))"

lemma lb_reachable_distinct: "lb_reachable lb \<Longrightarrow> distinct (connection_uris lb)"
  by (induction rule: lb_reachable.induct) (auto simp: lb_new_def lb.distinct_step)

text \<open>
  C24. Round robin is fair: in every reachable balancer, over any run of consecutive selections whose length is a
  multiple of the number of connections each connection is chosen equally often, and a removed
  connection is not the next to be chosen.
\<close>

theorem load_balancer_fair:
  assumes "lb_reachable lb" "u \<in> set (connection_uris lb)"
  shows "length (filter (\<lambda>x. x = Some u)
      (snd (take_turns get_next_connection_uri (k * connection_count lb) lb))) = k \<and>
    snd (get_next_connection_uri (remove_connection u lb)) \<noteq> Some u"
proof
  have ne: "connection_uris lb \<noteq> []" using assms(2) by auto
  show "length (filter (\<lambda>x. x = Some u)
      (snd (take_turns get_next_connection_uri (k * connection_count lb) lb))) = k"
    using lb.fair [OF ne lb_reachable_distinct [OF assms(1)] assms(2)] by (simp add: connection_count_def)
  show "snd (get_next_connection_uri (remove_connection u lb)) \<noteq> Some u"
    by (rule lb.removed_not_selected [OF lb_reachable_distinct [OF assms(1)]])
qed

theorem load_balancer_fair_witness:
  "length (filter (\<lambda>x. x = Some ''a'')
    (snd (take_turns get_next_connection_uri 4 \<lparr>connection_uris = [''a'', ''b'']\<rparr>))) = 2"
proof -
  have "lb_reachable (add_connection ''b'' (add_connection ''a'' lb_new))"
    by (intro lb_reachable.intros)
  then have "lb_reachable \<lparr>connection_uris = [''a'', ''b'']\<rparr>"
    by (simp add: add_connection_def lb_new_def)
  from load_balancer_fair [OF this, of "''a''" 2] show ?thesis by (simp add: connection_count_def)
qed

end
