(* ===== verification/Message.thy ===== *)
theory Message
  imports Prelude
begin

text \<open>
  Message frames (\<^verbatim>\<open>core/src/message/msg.rs\<close>, \<^verbatim>\<open>flags.rs\<close>, \<^verbatim>\<open>blob.rs\<close>).  A frame has an optional payload and
  the two flags of \<^verbatim>\<open>MsgFlags\<close>.  The metadata map a frame may carry is never read by the modelled code
  and is left out.  A \<^verbatim>\<open>Blob\<close> is an immutable byte string and is represented by its bytes.
\<close>

record MsgFlags =
  MORE :: bool
  COMMAND :: bool

definition flags_empty :: MsgFlags where
  "flags_empty = \<lparr>MORE = False, COMMAND = False\<rparr>"

record Msg =
  msg_data :: "bytes option"
  msg_flags :: MsgFlags

type_synonym Blob = bytes

definition msg_new :: Msg where
  "msg_new = \<lparr>msg_data = None, msg_flags = flags_empty\<rparr>"

definition msg_from_vec :: "bytes \<Rightarrow> Msg" where
  "msg_from_vec d = \<lparr>msg_data = Some d, msg_flags = flags_empty\<rparr>"

definition msg_from_bytes :: "bytes \<Rightarrow> Msg" where
  "msg_from_bytes d = \<lparr>msg_data = Some d, msg_flags = flags_empty\<rparr>"

definition msg_size :: "Msg \<Rightarrow> nat" where
  "msg_size m = (case msg_data m of None \<Rightarrow> 0 | Some d \<Rightarrow> length d)"

definition set_flags :: "MsgFlags \<Rightarrow> Msg \<Rightarrow> Msg" where
  "set_flags f m = m\<lparr>msg_flags := f\<rparr>"

definition is_more :: "Msg \<Rightarrow> bool" where
  "is_more m = MORE (msg_flags m)"

definition is_command :: "Msg \<Rightarrow> bool" where
  "is_command m = COMMAND (msg_flags m)"

text \<open>The recurring idioms \<^verbatim>\<open>msg.data().unwrap_or(&[])\<close>, \<^verbatim>\<open>flags | MORE\<close> and \<^verbatim>\<open>flags & !MORE\<close>.\<close>

definition msg_payload :: "Msg \<Rightarrow> bytes" where
  "msg_payload m = (case msg_data m of None \<Rightarrow> [] | Some d \<Rightarrow> d)"

definition with_more :: "bool \<Rightarrow> Msg \<Rightarrow> Msg" where
  "with_more b m = m\<lparr>msg_flags := (msg_flags m)\<lparr>MORE := b\<rparr>\<rparr>"

lemmas msg_defs = flags_empty_def msg_new_def msg_from_vec_def msg_from_bytes_def msg_size_def
  set_flags_def is_more_def is_command_def msg_payload_def

lemma msg_size_payload: "msg_size m = length (msg_payload m)"
  by (simp add: msg_size_def msg_payload_def split: option.split)

lemma with_more_simps [simp]:
  "is_more (with_more b m) = b"
  "msg_data (with_more b m) = msg_data m"
  "is_command (with_more b m) = is_command m"
  "with_more b (with_more b' m) = with_more b m"
  "msg_payload (with_more b m) = msg_payload m"
  by (simp_all add: with_more_def msg_defs)

lemma with_more_same [simp]: "is_more m = b \<Longrightarrow> with_more b m = m"
  by (cases m) (auto simp: with_more_def is_more_def)

lemma msg_from_vec_simps [simp]:
  "msg_data (msg_from_vec d) = Some d"
  "msg_payload (msg_from_vec d) = d"
  "\<not> is_more (msg_from_vec d)"
  "\<not> is_command (msg_from_vec d)"
  by (simp_all add: msg_defs)

lemma msg_from_bytes_eq [simp]: "msg_from_bytes d = msg_from_vec d"
  by (simp add: msg_defs)

lemma msg_new_simps [simp]:
  "msg_data msg_new = None" "msg_payload msg_new = []" "\<not> is_more msg_new" "\<not> is_command msg_new"
  by (simp_all add: msg_defs)

text \<open>A message on the wire or at the API: frames with MORE on all but the last one.\<close>

fun well_framed :: "Msg list \<Rightarrow> bool" where
  "well_framed [] = True"
| "well_framed [f] = (\<not> is_more f)"
| "well_framed (f # g # fs) = (is_more f \<and> well_framed (g # fs))"

fun mark_more :: "Msg list \<Rightarrow> Msg list" where
  "mark_more [] = []"
| "mark_more [f] = [with_more False f]"
| "mark_more (f # g # fs) = with_more True f # mark_more (g # fs)"

lemma well_framed_Cons: "well_framed (f # fs) = (is_more f = (fs \<noteq> []) \<and> well_framed fs)"
  by (cases fs) auto

lemma length_mark_more [simp]: "length (mark_more fs) = length fs"
  by (induction fs rule: mark_more.induct) auto

lemma mark_more_Cons: "mark_more (f # fs) = with_more (fs \<noteq> []) f # mark_more fs"
  by (cases fs) auto

lemma mark_more_eq_Nil [simp]: "mark_more fs = [] \<longleftrightarrow> fs = []"
  by (cases fs) (auto simp: mark_more_Cons)

lemma well_framed_mark_more [simp]: "well_framed (mark_more fs)"
  by (induction fs) (auto simp: mark_more_Cons well_framed_Cons)

lemma mark_more_well_framed [simp]: "well_framed fs \<Longrightarrow> mark_more fs = fs"
  by (induction fs) (auto simp: mark_more_Cons well_framed_Cons)

lemma mark_more_payloads [simp]: "map msg_payload (mark_more fs) = map msg_payload fs"
  by (induction fs) (auto simp: mark_more_Cons)

end
