(* ===== verification/Orchestrator.thy ===== *)
theory Orchestrator
  imports Message
begin

text \<open>
  Incoming messages: the bounded fair queue (\<^verbatim>\<open>core/src/socket/patterns/fair_queue.rs\<close>) and the orchestrator
  that assembles frames per pipe and hands messages to the application
  (\<^verbatim>\<open>core/src/socket/patterns/incoming_orchestrator.rs\<close>).

  The channel under the queue is the \<^verbatim>\<open>fibre\<close> crate's bounded channel, a parameter of the model
  (\<open>chan_ops\<close>); \<open>fifo_channel\<close> states its documented behaviour.  An operation that awaits is evaluated at
  the moment it completes.  Where the awaited future is still pending then, a timer has elapsed; an
  operation without a timer has not returned, which is the value \<^const>\<open>None\<close>.  Durations are milliseconds.
\<close>

section \<open>The channel\<close>

datatype 'a try_send = Sent | Full 'a | Closed 'a
datatype 'a try_recv = Received 'a | Empty | Disconnected

record ('q, 'a) chan_ops =
  bounded_async :: "nat \<Rightarrow> 'q"
  try_send :: "'a \<Rightarrow> 'q \<Rightarrow> 'q \<times> 'a try_send"
  try_recv :: "'q \<Rightarrow> 'q \<times> 'a try_recv"
  chan_close :: "'q \<Rightarrow> 'q"

text \<open>A first-in first-out channel that refuses items at its capacity and after it was closed.\<close>

definition fifo_channel ::
  "('q, 'a) chan_ops \<Rightarrow> ('q \<Rightarrow> 'a list) \<Rightarrow> ('q \<Rightarrow> nat) \<Rightarrow> ('q \<Rightarrow> bool) \<Rightarrow> bool" where
  "fifo_channel ch items cap closed \<longleftrightarrow>
    (\<forall>n. items (bounded_async ch n) = [] \<and> cap (bounded_async ch n) = n \<and> \<not> closed (bounded_async ch n)) \<and>
    (\<forall>x q. case try_send ch x q of (q', r) \<Rightarrow> cap q' = cap q \<and> closed q' = closed q \<and>
       (if closed q then r = Closed x \<and> items q' = items q
        else if length (items q) < cap q then r = Sent \<and> items q' = items q @ [x]
        else r = Full x \<and> items q' = items q)) \<and>
    (\<forall>q. case try_recv ch q of (q', r) \<Rightarrow> cap q' = cap q \<and> closed q' = closed q \<and>
       (\<not> closed q \<longrightarrow>
         (case items q of
            [] \<Rightarrow> items q' = [] \<and> r = Empty
          | x # xs \<Rightarrow> items q' = xs \<and> r = Received x))) \<and>
    (\<forall>q. cap (chan_close ch q) = cap q \<and> closed (chan_close ch q))"


section \<open>The fair queue\<close>

record 'q FairQueue =
  fq_chan :: 'q
  hwm :: nat

datatype 'a PushError = PushFull 'a | PushClosed 'a

definition fq_new :: "('q, 'a) chan_ops \<Rightarrow> nat \<Rightarrow> 'q FairQueue" where
  "fq_new ch capacity = \<lparr>fq_chan = bounded_async ch (max capacity 1), hwm = max capacity 1\<rparr>"

definition push_item :: "('q, 'a) chan_ops \<Rightarrow> 'a \<Rightarrow> 'q FairQueue \<Rightarrow> ('q FairQueue \<times> unit res) option" where
  "push_item ch item q =
    (case try_send ch item (fq_chan q) of
       (c, Sent) \<Rightarrow> Some (q\<lparr>fq_chan := c\<rparr>, Inr ())
     | (c, Closed _) \<Rightarrow> Some (q\<lparr>fq_chan := c\<rparr>, Inl Internal)
     | (c, Full _) \<Rightarrow> None)"

definition pop_item :: "('q, 'a) chan_ops \<Rightarrow> 'q FairQueue \<Rightarrow> ('q FairQueue \<times> 'a option res) option" where
  "pop_item ch q =
    (case try_recv ch (fq_chan q) of
       (c, Received item) \<Rightarrow> Some (q\<lparr>fq_chan := c\<rparr>, Inr (Some item))
     | (c, Disconnected) \<Rightarrow> Some (q\<lparr>fq_chan := c\<rparr>, Inr None)
     | (c, Empty) \<Rightarrow> None)"

definition try_push_item :: "('q, 'a) chan_ops \<Rightarrow> 'a \<Rightarrow> 'q FairQueue \<Rightarrow> 'q FairQueue \<times> ('a PushError + unit)" where
  "try_push_item ch item q =
    (case try_send ch item (fq_chan q) of
       (c, Sent) \<Rightarrow> (q\<lparr>fq_chan := c\<rparr>, Inr ())
     | (c, Full x) \<Rightarrow> (q\<lparr>fq_chan := c\<rparr>, Inl (PushFull x))
     | (c, Closed x) \<Rightarrow> (q\<lparr>fq_chan := c\<rparr>, Inl (PushClosed x)))"

definition try_pop_item :: "('q, 'a) chan_ops \<Rightarrow> 'q FairQueue \<Rightarrow> 'q FairQueue \<times> 'a option res" where
  "try_pop_item ch q =
    (case try_recv ch (fq_chan q) of
       (c, Received item) \<Rightarrow> (q\<lparr>fq_chan := c\<rparr>, Inr (Some item))
     | (c, Empty) \<Rightarrow> (q\<lparr>fq_chan := c\<rparr>, Inr None)
     | (c, Disconnected) \<Rightarrow> (q\<lparr>fq_chan := c\<rparr>, Inl Internal))"

definition fq_close :: "('q, 'a) chan_ops \<Rightarrow> 'q FairQueue \<Rightarrow> 'q FairQueue" where
  "fq_close ch q = q\<lparr>fq_chan := chan_close ch (fq_chan q)\<rparr>"


section \<open>The orchestrator\<close>

record 'q IncomingMessageOrchestrator =
  socket_core_handle :: nat
  main_incoming_queue :: "'q FairQueue"
  queue_push_timeout :: "duration option"
  partial_pipe_messages :: "nat \<rightharpoonup> Msg list"
  current_recv_frames_buffer :: "Msg list"

definition orchestrator_new :: "('q, 'a) chan_ops \<Rightarrow> nat \<Rightarrow> nat \<Rightarrow> 'q IncomingMessageOrchestrator" where
  "orchestrator_new ch core_handle rcvhwm =
    \<lparr>socket_core_handle = core_handle,
     main_incoming_queue = fq_new ch (max rcvhwm 1), queue_push_timeout = Some 1000,
     partial_pipe_messages = Map.empty, current_recv_frames_buffer = []\<rparr>"

definition accumulate_pipe_frame ::
  "nat \<Rightarrow> Msg \<Rightarrow> 'q IncomingMessageOrchestrator \<Rightarrow> 'q IncomingMessageOrchestrator \<times> Msg list option res" where
  "accumulate_pipe_frame pipe_read_id frame orch =
    (if \<not> is_more frame then
       (let assembled = (case partial_pipe_messages orch pipe_read_id of None \<Rightarrow> [] | Some v \<Rightarrow> v)
        in (orch\<lparr>partial_pipe_messages := (partial_pipe_messages orch)(pipe_read_id := None)\<rparr>,
            Inr (Some (assembled @ [frame]))))
     else
       (let entry = (case partial_pipe_messages orch pipe_read_id of None \<Rightarrow> [] | Some v \<Rightarrow> v)
        in (orch\<lparr>partial_pipe_messages := (partial_pipe_messages orch)(pipe_read_id \<mapsto> entry @ [frame])\<rparr>,
            Inr None)))"

definition queue_item ::
  "('q, 'a) chan_ops \<Rightarrow> 'a \<Rightarrow> 'q IncomingMessageOrchestrator \<Rightarrow>
    ('q IncomingMessageOrchestrator \<times> unit res) option" where
  "queue_item ch item orch =
    (case queue_push_timeout orch of
       None \<Rightarrow>
         (case push_item ch item (main_incoming_queue orch) of
            None \<Rightarrow> None
          | Some (q, r) \<Rightarrow> Some (orch\<lparr>main_incoming_queue := q\<rparr>, r))
     | Some d \<Rightarrow>
         if d = 0 then
           (case try_push_item ch item (main_incoming_queue orch) of
              (q, Inr _) \<Rightarrow> Some (orch\<lparr>main_incoming_queue := q\<rparr>, Inr ())
            | (q, Inl (PushFull _)) \<Rightarrow> Some (orch\<lparr>main_incoming_queue := q\<rparr>, Inr ())
            | (q, Inl (PushClosed _)) \<Rightarrow> Some (orch\<lparr>main_incoming_queue := q\<rparr>, Inl Internal))
         else
           (case push_item ch item (main_incoming_queue orch) of
              Some (q, r) \<Rightarrow> Some (orch\<lparr>main_incoming_queue := q\<rparr>, r)
            | None \<Rightarrow> Some (orch, Inr ())))"

definition recv_item_from_main_queue ::
  "('q, 'a) chan_ops \<Rightarrow> duration option \<Rightarrow> 'q IncomingMessageOrchestrator \<Rightarrow>
    ('q IncomingMessageOrchestrator \<times> 'a res) option" where
  "recv_item_from_main_queue ch rcvtimeo orch =
    (case rcvtimeo of
       Some d \<Rightarrow>
         if d \<noteq> 0 then
           (case pop_item ch (main_incoming_queue orch) of
              Some (q, Inr (Some item)) \<Rightarrow> Some (orch\<lparr>main_incoming_queue := q\<rparr>, Inr item)
            | Some (q, Inr None) \<Rightarrow> Some (orch\<lparr>main_incoming_queue := q\<rparr>, Inl Internal)
            | Some (q, Inl e) \<Rightarrow> Some (orch\<lparr>main_incoming_queue := q\<rparr>, Inl e)
            | None \<Rightarrow> Some (orch, Inl Timeout))
         else
           (case try_pop_item ch (main_incoming_queue orch) of
              (q, Inr (Some item)) \<Rightarrow> Some (orch\<lparr>main_incoming_queue := q\<rparr>, Inr item)
            | (q, Inr None) \<Rightarrow> Some (orch\<lparr>main_incoming_queue := q\<rparr>, Inl ResourceLimitReached)
            | (q, Inl e) \<Rightarrow> Some (orch\<lparr>main_incoming_queue := q\<rparr>, Inl e))
     | None \<Rightarrow>
         (case pop_item ch (main_incoming_queue orch) of
            Some (q, Inr (Some item)) \<Rightarrow> Some (orch\<lparr>main_incoming_queue := q\<rparr>, Inr item)
          | Some (q, Inr None) \<Rightarrow> Some (orch\<lparr>main_incoming_queue := q\<rparr>, Inl Internal)
          | Some (q, Inl e) \<Rightarrow> Some (orch\<lparr>main_incoming_queue := q\<rparr>, Inl e)
          | None \<Rightarrow> None))"

definition recv_logical_message ::
  "('q, 'a) chan_ops \<Rightarrow> ('a \<Rightarrow> Msg list) \<Rightarrow> duration option \<Rightarrow> 'q IncomingMessageOrchestrator \<Rightarrow>
    ('q IncomingMessageOrchestrator \<times> Msg list res) option" where
  "recv_logical_message ch qitem_to_app_frames rcvtimeo orch =
    (let orch = (if current_recv_frames_buffer orch \<noteq> [] then orch\<lparr>current_recv_frames_buffer := []\<rparr> else orch)
     in case recv_item_from_main_queue ch rcvtimeo orch of
          None \<Rightarrow> None
        | Some (orch, Inl e) \<Rightarrow> Some (orch, Inl e)
        | Some (orch, Inr q_item) \<Rightarrow> Some (orch, Inr (qitem_to_app_frames q_item)))"

definition recv_message ::
  "('q, 'a) chan_ops \<Rightarrow> ('a \<Rightarrow> Msg list) \<Rightarrow> duration option \<Rightarrow> 'q IncomingMessageOrchestrator \<Rightarrow>
    ('q IncomingMessageOrchestrator \<times> Msg res) option" where
  "recv_message ch qitem_to_app_frames rcvtimeo orch =
    (case current_recv_frames_buffer orch of
       frame # rest \<Rightarrow>
         Some (orch\<lparr>current_recv_frames_buffer := rest\<rparr>,
           Inr (if rest \<noteq> [] then with_more True frame else with_more False frame))
     | [] \<Rightarrow>
         (case recv_item_from_main_queue ch rcvtimeo orch of
            None \<Rightarrow> None
          | Some (orch, Inl e) \<Rightarrow> Some (orch, Inl e)
          | Some (orch, Inr q_item) \<Rightarrow>
              (case qitem_to_app_frames q_item of
                 [] \<Rightarrow> Some (orch, Inr msg_new)
               | first_frame # rest \<Rightarrow>
                   Some (orch\<lparr>current_recv_frames_buffer := rest\<rparr>, Inr first_frame))))"

definition reset_recv_message_buffer :: "'q IncomingMessageOrchestrator \<Rightarrow> 'q IncomingMessageOrchestrator" where
  "reset_recv_message_buffer orch =
    (if current_recv_frames_buffer orch \<noteq> [] then orch\<lparr>current_recv_frames_buffer := []\<rparr> else orch)"

definition clear_pipe_state :: "nat \<Rightarrow> 'q IncomingMessageOrchestrator \<Rightarrow> 'q IncomingMessageOrchestrator" where
  "clear_pipe_state pipe_read_id orch =
    reset_recv_message_buffer
      (orch\<lparr>partial_pipe_messages := (partial_pipe_messages orch)(pipe_read_id := None)\<rparr>)"

definition orchestrator_close ::
  "('q, 'a) chan_ops \<Rightarrow> 'q IncomingMessageOrchestrator \<Rightarrow> 'q IncomingMessageOrchestrator" where
  "orchestrator_close ch orch =
    orch\<lparr>main_incoming_queue := fq_close ch (main_incoming_queue orch),
      partial_pipe_messages := Map.empty, current_recv_frames_buffer := []\<rparr>"


section \<open>Assembly of frames\<close>

text \<open>The messages in a pipe's own frame stream: each ends at a frame without MORE.\<close>

fun split_messages :: "Msg list \<Rightarrow> Msg list \<Rightarrow> Msg list list \<times> Msg list" where
  "split_messages acc [] = ([], acc)"
| "split_messages acc (f # fs) =
    (if is_more f then split_messages (acc @ [f]) fs
     else (case split_messages [] fs of (ms, rest) \<Rightarrow> ((acc @ [f]) # ms, rest)))"

text \<open>Feeding frames that arrive on several pipes in any interleaving.\<close>

fun assemble_run :: "(nat \<Rightarrow> Msg \<Rightarrow> 'o \<Rightarrow> 'o \<times> Msg list option res) \<Rightarrow> (nat \<times> Msg) list \<Rightarrow> 'o \<Rightarrow>
    'o \<times> (nat \<times> Msg list) list" where
  "assemble_run acc [] orch = (orch, [])"
| "assemble_run acc ((p, f) # fs) orch =
    (case acc p f orch of (orch', r) \<Rightarrow>
       (case assemble_run acc fs orch' of (orch'', out) \<Rightarrow>
          (orch'', (case r of Inr (Some m) \<Rightarrow> [(p, m)] | _ \<Rightarrow> []) @ out)))"

locale assembler =
  fixes acc :: "nat \<Rightarrow> Msg \<Rightarrow> 'o \<Rightarrow> 'o \<times> Msg list option res"
    and pending :: "'o \<Rightarrow> nat \<Rightarrow> Msg list"
  assumes pending_acc: "pending (fst (acc p f s)) q =
      (if q = p then (if is_more f then pending s p @ [f] else []) else pending s q)"
    and result_acc: "snd (acc p f s) = Inr (if is_more f then None else Some (pending s p @ [f]))"
begin

lemma assemble_per_pipe:
  "split_messages (pending s p) (map snd (filter (\<lambda>x. fst x = p) fs)) =
    (map snd (filter (\<lambda>x. fst x = p) (snd (assemble_run acc fs s))),
     pending (fst (assemble_run acc fs s)) p)"
proof (induction fs arbitrary: s)
  case Nil
  show ?case by simp
next
  case (Cons x fs)
  obtain q f where x: "x = (q, f)" by (cases x)
  obtain s' r where a: "acc q f s = (s', r)" by (cases "acc q f s")
  have pend: "pending s' p = (if p = q then (if is_more f then pending s q @ [f] else []) else pending s p)"
    using pending_acc [of q f s p] a by simp
  have r: "r = Inr (if is_more f then None else Some (pending s q @ [f]))"
    using result_acc [of q f s] a by simp
  show ?case
    using Cons.IH [of s'] x a pend r
    by (cases "p = q"; cases "is_more f"; cases "assemble_run acc fs s'") (auto split: prod.splits)
qed

end

definition pending_frames :: "'q IncomingMessageOrchestrator \<Rightarrow> nat \<Rightarrow> Msg list" where
  "pending_frames orch p = (case partial_pipe_messages orch p of None \<Rightarrow> [] | Some v \<Rightarrow> v)"

interpretation orch: assembler accumulate_pipe_frame pending_frames
  by unfold_locales (auto simp: accumulate_pipe_frame_def pending_frames_def Let_def)

text \<open>
  Frames of different peers never mix: whatever the interleaving in which frames arrive on the
  pipes, the messages assembled for a pipe are exactly the messages of that pipe's own frame stream, in
  order and complete, and what is left over is its unfinished message.
\<close>

theorem assembly_interleaving:
  "split_messages [] (map snd (filter (\<lambda>x. fst x = p) fs)) =
    (map snd (filter (\<lambda>x. fst x = p) (snd (assemble_run accumulate_pipe_frame fs (orchestrator_new ch h n)))),
     pending_frames (fst (assemble_run accumulate_pipe_frame fs (orchestrator_new ch h n))) p)"
  using orch.assemble_per_pipe [of "orchestrator_new ch h n" p fs]
  by (simp add: pending_frames_def orchestrator_new_def)


section \<open>The queue under a first-in first-out channel\<close>

lemma fifo_new:
  assumes "fifo_channel ch items cap closed"
  shows "items (bounded_async ch n) = []" "cap (bounded_async ch n) = n" "\<not> closed (bounded_async ch n)"
  using assms by (auto simp: fifo_channel_def)

lemmas fifo_send_law =
  iffD1 [OF fifo_channel_def, THEN conjunct2, THEN conjunct1, THEN spec, THEN spec]
lemmas fifo_recv_law =
  iffD1 [OF fifo_channel_def, THEN conjunct2, THEN conjunct2, THEN conjunct1, THEN spec]

lemma fifo_send:
  assumes "fifo_channel ch items cap closed" "try_send ch x q = (q', r)"
  shows "cap q' = cap q" "closed q' = closed q"
    "closed q \<Longrightarrow> r = Closed x \<and> items q' = items q"
    "\<not> closed q \<Longrightarrow> length (items q) < cap q \<Longrightarrow> r = Sent \<and> items q' = items q @ [x]"
    "\<not> closed q \<Longrightarrow> \<not> length (items q) < cap q \<Longrightarrow> r = Full x \<and> items q' = items q"
  using fifo_send_law [OF assms(1), of q x] assms(2) by simp_all

lemma fifo_recv:
  assumes "fifo_channel ch items cap closed" "try_recv ch q = (q', r)"
  shows "cap q' = cap q" "closed q' = closed q"
    "\<not> closed q \<Longrightarrow> items q = [] \<Longrightarrow> r = Empty \<and> items q' = []"
    "\<not> closed q \<Longrightarrow> items q = x # xs \<Longrightarrow> r = Received x \<and> items q' = xs"
  using fifo_recv_law [OF assms(1), of q] assms(2) by simp_all

abbreviation orch_items :: "('q \<Rightarrow> 'b) \<Rightarrow> 'q IncomingMessageOrchestrator \<Rightarrow> 'b" where
  "orch_items f orch \<equiv> f (fq_chan (main_incoming_queue orch))"

lemma recv_item_next:
  assumes fifo: "fifo_channel ch items cap closed"
    and opened: "\<not> orch_items closed orch" and next_item: "orch_items items orch = x # xs"
  shows "\<exists>c. recv_item_from_main_queue ch tmo orch =
      Some (orch\<lparr>main_incoming_queue := (main_incoming_queue orch)\<lparr>fq_chan := c\<rparr>\<rparr>, Inr x) \<and>
      items c = xs \<and> \<not> closed c \<and> cap c = orch_items cap orch"
proof -
  obtain c r where c: "try_recv ch (fq_chan (main_incoming_queue orch)) = (c, r)" by fastforce
  have "r = Received x" "items c = xs" "\<not> closed c" "cap c = orch_items cap orch"
    using fifo_recv [OF fifo c] opened next_item by auto
  then show ?thesis
    using c by (auto simp: recv_item_from_main_queue_def pop_item_def try_pop_item_def split: option.splits)
qed

fun recv_run :: "('q, 'a) chan_ops \<Rightarrow> ('a \<Rightarrow> Msg list) \<Rightarrow> duration option \<Rightarrow> nat \<Rightarrow>
    'q IncomingMessageOrchestrator \<Rightarrow> ('q IncomingMessageOrchestrator \<times> Msg list) option" where
  "recv_run ch tf tmo 0 orch = Some (orch, [])"
| "recv_run ch tf tmo (Suc n) orch =
    (case recv_message ch tf tmo orch of
       Some (orch', Inr m) \<Rightarrow> map_option (\<lambda>(orch'', ms). (orch'', m # ms)) (recv_run ch tf tmo n orch')
     | _ \<Rightarrow> None)"

definition head_more_ok :: "Msg list \<Rightarrow> bool" where
  "head_more_ok fs \<longleftrightarrow> (case fs of [] \<Rightarrow> False | f # rest \<Rightarrow> is_more f = (rest \<noteq> []))"

lemma recv_run_add:
  "recv_run ch tf tmo (m + n) orch =
    (case recv_run ch tf tmo m orch of
       None \<Rightarrow> None
     | Some (orch', ms) \<Rightarrow> map_option (\<lambda>(orch'', ms'). (orch'', ms @ ms')) (recv_run ch tf tmo n orch'))"
proof (induction m arbitrary: orch)
  case 0
  show ?case by (simp add: case_prod_unfold option.map_ident)
next
  case (Suc m)
  then show ?case
    by (auto simp: option.map_comp comp_def case_prod_unfold split: option.splits sum.splits)
qed

lemma recv_run_buffer:
  "current_recv_frames_buffer orch = fs \<Longrightarrow>
   recv_run ch tf tmo (length fs) orch = Some (orch\<lparr>current_recv_frames_buffer := []\<rparr>, mark_more fs)"
proof (induction fs arbitrary: orch)
  case (Cons f fs)
  then show ?case
    using Cons.IH [of "orch\<lparr>current_recv_frames_buffer := fs\<rparr>"]
    by (cases fs) (simp_all add: recv_message_def)
qed simp

lemma recv_run_message:
  assumes fifo: "fifo_channel ch items cap closed"
    and opened: "\<not> orch_items closed orch" and next_item: "orch_items items orch = x # xs"
    and empty: "current_recv_frames_buffer orch = []" and ok: "head_more_ok (tf x)"
  shows "\<exists>orch'. recv_run ch tf tmo (length (tf x)) orch = Some (orch', mark_more (tf x)) \<and>
    \<not> orch_items closed orch' \<and> orch_items items orch' = xs \<and> current_recv_frames_buffer orch' = []"
proof -
  obtain f rest where tf: "tf x = f # rest" and f: "is_more f = (rest \<noteq> [])"
    using ok by (auto simp: head_more_ok_def split: list.splits)
  obtain c where c: "recv_item_from_main_queue ch tmo orch =
      Some (orch\<lparr>main_incoming_queue := (main_incoming_queue orch)\<lparr>fq_chan := c\<rparr>\<rparr>, Inr x)"
      "items c = xs" "\<not> closed c"
    using recv_item_next [OF fifo opened next_item] by blast
  have "mark_more (f # rest) = f # mark_more rest"
    using f with_more_same [of f] by (cases rest) auto
  then show ?thesis
    using c empty tf by (simp add: recv_message_def recv_run_buffer)
qed

lemma recv_run_messages:
  assumes fifo: "fifo_channel ch items cap closed"
  shows "\<not> orch_items closed orch \<Longrightarrow> orch_items items orch = xs @ ys \<Longrightarrow>
    current_recv_frames_buffer orch = [] \<Longrightarrow> \<forall>x\<in>set xs. head_more_ok (tf x) \<Longrightarrow>
    \<exists>orch'. recv_run ch tf tmo (length (concat (map tf xs))) orch =
        Some (orch', concat (map (mark_more \<circ> tf) xs)) \<and>
      \<not> orch_items closed orch' \<and> orch_items items orch' = ys \<and> current_recv_frames_buffer orch' = []"
proof (induction xs arbitrary: orch)
  case (Cons x xs)
  obtain orch1 where "recv_run ch tf tmo (length (tf x)) orch = Some (orch1, mark_more (tf x))"
      and o1: "\<not> orch_items closed orch1" "orch_items items orch1 = xs @ ys"
        "current_recv_frames_buffer orch1 = []"
    using recv_run_message [OF fifo, of orch x "xs @ ys" tf tmo] Cons.prems by auto
  then show ?case
    using Cons.IH [OF o1] Cons.prems by (auto simp: recv_run_add)
qed auto


section \<open>Properties\<close>

text \<open>A concrete channel that satisfies the laws: a list with its capacity and closed flag.\<close>

definition list_channel :: "('a list \<times> nat \<times> bool, 'a) chan_ops" where
  "list_channel =
    \<lparr>bounded_async = \<lambda>n. ([], n, False),
     try_send = \<lambda>x (xs, n, c).
       if c then ((xs, n, c), Closed x)
       else if length xs < n then ((xs @ [x], n, c), Sent) else ((xs, n, c), Full x),
     try_recv = \<lambda>(xs, n, c).
       (case xs of [] \<Rightarrow> ((xs, n, c), if c then Disconnected else Empty)
        | x # xs' \<Rightarrow> ((xs', n, c), Received x)),
     chan_close = \<lambda>(xs, n, c). (xs, n, True)\<rparr>"

lemma list_channel_fifo: "fifo_channel list_channel fst (fst \<circ> snd) (snd \<circ> snd)"
  by (auto simp: fifo_channel_def list_channel_def split: list.splits)

definition example_orch :: "nat list \<Rightarrow> Msg list \<Rightarrow> (nat list \<times> nat \<times> bool) IncomingMessageOrchestrator" where
  "example_orch xs buf =
    \<lparr>socket_core_handle = 1, main_incoming_queue = \<lparr>fq_chan = (xs, 2, False), hwm = 2\<rparr>,
     queue_push_timeout = Some 1000, partial_pipe_messages = Map.empty, current_recv_frames_buffer = buf\<rparr>"

definition example_frames :: "nat \<Rightarrow> Msg list" where
  "example_frames n = (if n = 0 then [with_more True msg_new, msg_new] else [msg_from_vec [of_nat n]])"

lemmas example_defs = example_orch_def example_frames_def with_more_def is_more_def head_more_ok_def msg_defs

text \<open>
  Receiving frame by frame is lossless and ordered: when the queue holds the items \<open>xs\<close> (then \<open>ys\<close>)
  and each item's first frame carries MORE exactly if other frames follow, successive calls of
  \<open>recv_message\<close> return, without blocking and whatever RCVTIMEO is, exactly the frames of \<open>xs\<close> in order, with
  MORE on all but the last frame of each message, and leave \<open>ys\<close> queued and nothing buffered.
\<close>

theorem recv_message_in_order:
  assumes "fifo_channel ch items cap closed"
    and "\<not> orch_items closed orch" and "orch_items items orch = xs @ ys"
    and "current_recv_frames_buffer orch = []" and "\<forall>x\<in>set xs. head_more_ok (tf x)"
  shows "\<exists>orch'. recv_run ch tf tmo (length (concat (map tf xs))) orch =
      Some (orch', concat (map (mark_more \<circ> tf) xs)) \<and>
    orch_items items orch' = ys \<and> current_recv_frames_buffer orch' = []"
  using recv_run_messages [OF assms] by blast

theorem recv_message_in_order_witness:
  "\<exists>orch'. recv_run list_channel example_frames (Some 0) 3 (example_orch [0, 7] []) =
      Some (orch', [with_more True msg_new, msg_new, msg_from_vec [7]]) \<and>
    orch_items fst orch' = [] \<and> current_recv_frames_buffer orch' = []"
  using recv_message_in_order [OF list_channel_fifo, of "example_orch [0, 7] []" "[0, 7]" "[]"
    example_frames "Some 0"]
  by (simp add: example_defs eval_nat_numeral)

text \<open>
  Back-pressure of the receive queue: with the push timeout the orchestrator is constructed with,
  \<open>queue_item\<close> always returns; it appends the item when the queue has room, drops it and still reports
  success when the queue is full at the deadline, and fails only on a closed queue.  The number of queued
  items never exceeds the high-water mark.
\<close>

theorem queue_item_back_pressure:
  assumes "fifo_channel ch items cap closed" and "queue_push_timeout orch = Some d"
    and "length (orch_items items orch) \<le> orch_items cap orch"
  shows "\<exists>orch' r. queue_item ch x orch = Some (orch', r) \<and>
    (if orch_items closed orch then r = Inl Internal \<and> orch_items items orch' = orch_items items orch
     else if length (orch_items items orch) < orch_items cap orch
       then r = Inr () \<and> orch_items items orch' = orch_items items orch @ [x]
     else r = Inr () \<and> orch_items items orch' = orch_items items orch) \<and>
    length (orch_items items orch') \<le> orch_items cap orch' \<and>
    current_recv_frames_buffer orch' = current_recv_frames_buffer orch"
proof -
  obtain c r where c: "try_send ch x (fq_chan (main_incoming_queue orch)) = (c, r)" by fastforce
  note laws = fifo_send [OF assms(1) c] and defs = queue_item_def push_item_def try_push_item_def
  consider (closed) "orch_items closed orch"
    | (room) "\<not> orch_items closed orch" "length (orch_items items orch) < orch_items cap orch"
    | (full) "\<not> orch_items closed orch" "\<not> length (orch_items items orch) < orch_items cap orch"
    by blast
  then show ?thesis
  proof cases
    case closed
    then show ?thesis using laws(1) laws(3) [OF closed] assms(2,3) c by (simp add: defs)
  next
    case room
    then show ?thesis using laws(1) laws(4) [OF room] assms(2,3) c by (simp add: defs)
  next
    case full
    then show ?thesis using laws(1) laws(5) [OF full] assms(2,3) c by (simp add: defs)
  qed
qed

theorem queue_item_back_pressure_witness:
  "\<exists>orch' r. queue_item list_channel 9 (example_orch [0, 7] []) = Some (orch', r) \<and>
    r = Inr () \<and> orch_items fst orch' = [0, 7]"
  using queue_item_back_pressure [OF list_channel_fifo, of "example_orch [0, 7] []" 1000 9]
  by (auto simp: example_defs)

text \<open>
  C40. A detaching pipe truncates another peer's message: after the application has read the first frame
  of a message, \<open>clear_pipe_state\<close> for any pipe discards the rest of it, and the next \<open>recv_message\<close>
  returns the first frame of the following message although the frame read before carried MORE.
\<close>

theorem clear_pipe_state_truncates:
  assumes "fifo_channel ch items cap closed"
    and "\<not> orch_items closed orch" and "orch_items items orch = x # y # zs"
    and "current_recv_frames_buffer orch = []" and "tf x = f # g # fs" and "tf y = h # hs"
  shows "\<exists>orch1 orch2. recv_message ch tf tmo orch = Some (orch1, Inr f) \<and>
    current_recv_frames_buffer orch1 = g # fs \<and>
    recv_message ch tf tmo (clear_pipe_state p orch1) = Some (orch2, Inr h)"
proof -
  obtain c where c: "recv_item_from_main_queue ch tmo orch =
      Some (orch\<lparr>main_incoming_queue := (main_incoming_queue orch)\<lparr>fq_chan := c\<rparr>\<rparr>, Inr x)"
      "items c = y # zs" "\<not> closed c"
    using recv_item_next [OF assms(1-3)] by blast
  let ?o1 = "orch\<lparr>main_incoming_queue := (main_incoming_queue orch)\<lparr>fq_chan := c\<rparr>,
      current_recv_frames_buffer := g # fs\<rparr>"
  have "\<exists>c'. recv_item_from_main_queue ch tmo (clear_pipe_state p ?o1) =
      Some ((clear_pipe_state p ?o1)\<lparr>main_incoming_queue :=
        (main_incoming_queue (clear_pipe_state p ?o1))\<lparr>fq_chan := c'\<rparr>\<rparr>, Inr y)"
    using recv_item_next [OF assms(1), of "clear_pipe_state p ?o1" y zs tmo] c
    by (auto simp: clear_pipe_state_def reset_recv_message_buffer_def)
  then show ?thesis
    using c assms(4-6)
    by (auto simp: recv_message_def clear_pipe_state_def reset_recv_message_buffer_def)
qed

theorem clear_pipe_state_truncates_witness:
  "\<exists>orch1 orch2. recv_message list_channel example_frames None (example_orch [0, 7] []) =
      Some (orch1, Inr (with_more True msg_new)) \<and>
    recv_message list_channel example_frames None (clear_pipe_state 3 orch1) =
      Some (orch2, Inr (msg_from_vec [7]))"
proof -
  have "\<exists>orch1 orch2. recv_message list_channel example_frames None (example_orch [0, 7] []) =
      Some (orch1, Inr (with_more True msg_new)) \<and> current_recv_frames_buffer orch1 = [msg_new] \<and>
    recv_message list_channel example_frames None (clear_pipe_state 3 orch1) =
      Some (orch2, Inr (msg_from_vec [7]))"
    by (rule clear_pipe_state_truncates [OF list_channel_fifo, where y = 7]) (simp_all add: example_defs)
  then show ?thesis by blast
qed

end
