(* ===== verification/Router_Map.thy ===== *)
theory Router_Map
  imports Load_Balancer Orchestrator
begin

text \<open>
  Routing tables and framing of ROUTER and DEALER: the framing latch with the automatic delimiters
  (\<^verbatim>\<open>core/src/socket/patterns/framing.rs\<close>), the identity table and the send strategies
  (\<^verbatim>\<open>core/src/socket/patterns/router.rs\<close>) and the write-pipe coordinator
  (\<^verbatim>\<open>core/src/socket/patterns/pipe_coordinator.rs\<close>).

  The maps are association lists with distinct keys.  The coordinator's semaphore is tokio's, a parameter
  (\<open>sem_ops\<close>) with its documented behaviour in \<open>counting_semaphore\<close>.
\<close>

section \<open>Framing\<close>

type_synonym FramingOp = "Msg list \<Rightarrow> Msg list"

definition noop :: FramingOp where "noop frames = frames"

record FramingLatch =
  latch_mode :: nat
  encoders :: "FramingOp \<times> FramingOp"
  decoders :: "FramingOp \<times> FramingOp"

definition latch_new :: "FramingOp \<Rightarrow> FramingOp \<Rightarrow> FramingLatch" where
  "latch_new auto_encode auto_decode =
    \<lparr>latch_mode = 0, encoders = (auto_encode, noop), decoders = (auto_decode, noop)\<rparr>"

definition latch_encode :: "FramingLatch \<Rightarrow> Msg list \<Rightarrow> Msg list" where
  "latch_encode l frames = (if latch_mode l mod 2 = 0 then fst (encoders l) else snd (encoders l)) frames"

definition latch_decode :: "FramingLatch \<Rightarrow> Msg list \<Rightarrow> Msg list" where
  "latch_decode l frames = (if latch_mode l mod 2 = 0 then fst (decoders l) else snd (decoders l)) frames"

definition set_manual :: "FramingLatch \<Rightarrow> FramingLatch \<times> bool" where
  "set_manual l = (if latch_mode l = 0 then (l\<lparr>latch_mode := 1\<rparr>, True) else (l, False))"

definition is_manual :: "FramingLatch \<Rightarrow> bool" where
  "is_manual l = (latch_mode l = 1)"

definition router_auto_encode :: FramingOp where
  "router_auto_encode frames =
    (let delimiter = (if length frames > 1 then with_more True msg_new else msg_new)
     in case frames of [] \<Rightarrow> [] | f # fs \<Rightarrow> with_more True f # delimiter # fs)"

definition router_auto_decode :: FramingOp where
  "router_auto_decode frames = (if length frames > 1 then take 1 frames @ drop 2 frames else frames)"

definition dealer_auto_encode :: FramingOp where
  "dealer_auto_encode frames = (if frames \<noteq> [] then with_more True msg_new else msg_new) # frames"

definition dealer_auto_decode :: FramingOp where
  "dealer_auto_decode frames = (if frames \<noteq> [] then tl frames else frames)"


section \<open>Strategies towards a peer\<close>

datatype RouterSendStrategy =
  ReqPeerStrategy | DealerPeerStrategy | RouterPeerStrategy | DefaultRouterStrategy

fun prepare_wire_frames :: "RouterSendStrategy \<Rightarrow> Msg \<Rightarrow> Msg list \<Rightarrow> FramingLatch \<Rightarrow> Msg list" where
  "prepare_wire_frames ReqPeerStrategy dest payload framing =
    (if payload \<noteq> [] then with_more True msg_new else msg_new) # payload"
| "prepare_wire_frames DealerPeerStrategy dest payload framing =
    (if is_manual framing then payload
     else latch_encode framing ((if payload \<noteq> [] then with_more True dest else dest) # payload))"
| "prepare_wire_frames RouterPeerStrategy dest payload framing = payload"
| "prepare_wire_frames DefaultRouterStrategy dest payload framing =
    latch_encode framing ((if payload \<noteq> [] then with_more True dest else dest) # payload)"


section \<open>The identity table\<close>

record PeerInfo =
  peer_uri :: uri
  strategy :: RouterSendStrategy

record RouterMap =
  identity_to_peer_info :: "(Blob \<times> PeerInfo) list"
  read_pipe_to_identity :: "(nat \<times> Blob) list"

definition router_map_new :: RouterMap where
  "router_map_new = \<lparr>identity_to_peer_info = [], read_pipe_to_identity = []\<rparr>"

definition add_peer :: "Blob \<Rightarrow> nat \<Rightarrow> uri \<Rightarrow> RouterMap \<Rightarrow> RouterMap" where
  "add_peer identity pipe_read_id endpoint_uri m =
    (let peer_info = \<lparr>peer_uri = endpoint_uri, strategy = DefaultRouterStrategy\<rparr>;
         infos = alist_put identity peer_info (identity_to_peer_info m);
         old = map_of (read_pipe_to_identity m) pipe_read_id;
         pipes = alist_put pipe_read_id identity (read_pipe_to_identity m)
     in \<lparr>identity_to_peer_info =
           (case old of
              Some old_identity \<Rightarrow> if old_identity \<noteq> identity then alist_del old_identity infos else infos
            | None \<Rightarrow> infos),
         read_pipe_to_identity = pipes\<rparr>)"

definition remove_peer_by_read_pipe :: "nat \<Rightarrow> RouterMap \<Rightarrow> RouterMap" where
  "remove_peer_by_read_pipe pipe_read_id m =
    (case map_of (read_pipe_to_identity m) pipe_read_id of
       Some identity \<Rightarrow>
         \<lparr>identity_to_peer_info = alist_del identity (identity_to_peer_info m),
          read_pipe_to_identity = alist_del pipe_read_id (read_pipe_to_identity m)\<rparr>
     | None \<Rightarrow> m)"

definition get_identity_by_read_pipe :: "nat \<Rightarrow> RouterMap \<Rightarrow> Blob option" where
  "get_identity_by_read_pipe pipe_read_id m = map_of (read_pipe_to_identity m) pipe_read_id"

definition remove_peer_by_identity :: "Blob \<Rightarrow> RouterMap \<Rightarrow> RouterMap" where
  "remove_peer_by_identity identity m =
    (case map_of (identity_to_peer_info m) identity of
       Some _ \<Rightarrow>
         \<lparr>identity_to_peer_info = alist_del identity (identity_to_peer_info m),
          read_pipe_to_identity =
            (case List.find (\<lambda>(key, val). val = identity) (read_pipe_to_identity m) of
               Some (key, _) \<Rightarrow> alist_del key (read_pipe_to_identity m)
             | None \<Rightarrow> read_pipe_to_identity m)\<rparr>
     | None \<Rightarrow> m)"

definition strategy_for :: "string option \<Rightarrow> RouterSendStrategy" where
  "strategy_for peer_socket_type =
    (if peer_socket_type = Some ''REQ'' then ReqPeerStrategy
     else if peer_socket_type = Some ''DEALER'' then DealerPeerStrategy
     else if peer_socket_type = Some ''ROUTER'' then RouterPeerStrategy
     else DefaultRouterStrategy)"

definition update_peer_identity :: "nat \<Rightarrow> Blob \<Rightarrow> uri \<Rightarrow> string option \<Rightarrow> RouterMap \<Rightarrow> RouterMap" where
  "update_peer_identity pipe_read_id new_identity endpoint_uri peer_socket_type m =
    (let peer_info = \<lparr>peer_uri = endpoint_uri, strategy = strategy_for peer_socket_type\<rparr>;
         infos = (case map_of (read_pipe_to_identity m) pipe_read_id of
             Some old_identity \<Rightarrow>
               if old_identity \<noteq> new_identity then alist_del old_identity (identity_to_peer_info m)
               else identity_to_peer_info m
           | None \<Rightarrow> identity_to_peer_info m)
     in \<lparr>identity_to_peer_info = alist_put new_identity peer_info infos,
         read_pipe_to_identity = alist_put pipe_read_id new_identity (read_pipe_to_identity m)\<rparr>)"

definition get_peer_info_for_identity :: "Blob \<Rightarrow> RouterMap \<Rightarrow> PeerInfo option" where
  "get_peer_info_for_identity identity m = map_of (identity_to_peer_info m) identity"


section \<open>The write-pipe coordinator\<close>

datatype acquired = Permit | NoPermits | SemClosed

record 's sem_ops =
  sem_new :: "nat \<Rightarrow> 's"
  sem_try_acquire :: "'s \<Rightarrow> 's \<times> acquired"
  sem_release :: "'s \<Rightarrow> 's"
  sem_close :: "'s \<Rightarrow> 's"

text \<open>Permits are taken one at a time; a closed semaphore hands out none.\<close>

definition counting_semaphore :: "'s sem_ops \<Rightarrow> ('s \<Rightarrow> nat) \<Rightarrow> ('s \<Rightarrow> bool) \<Rightarrow> bool" where
  "counting_semaphore S avail closed \<longleftrightarrow>
    (\<forall>n. avail (sem_new S n) = n \<and> \<not> closed (sem_new S n)) \<and>
    (\<forall>s. case sem_try_acquire S s of (s', r) \<Rightarrow> closed s' = closed s \<and>
       (if closed s then r = SemClosed \<and> avail s' = avail s
        else if avail s = 0 then r = NoPermits \<and> avail s' = 0
        else r = Permit \<and> avail s' = avail s - 1)) \<and>
    (\<forall>s. avail (sem_release S s) = avail s + 1 \<and> closed (sem_release S s) = closed s) \<and>
    (\<forall>s. closed (sem_close S s))"

record 's PipeState =
  semaphore :: 's
  is_closing :: bool

type_synonym 's WritePipeCoordinator = "(nat \<times> 's PipeState) list"

definition add_pipe :: "'s sem_ops \<Rightarrow> nat \<Rightarrow> 's WritePipeCoordinator \<Rightarrow> 's WritePipeCoordinator" where
  "add_pipe S pipe_id states =
    (case map_of states pipe_id of
       Some _ \<Rightarrow> states
     | None \<Rightarrow> alist_put pipe_id \<lparr>semaphore = sem_new S 1, is_closing = False\<rparr> states)"

definition remove_pipe ::
  "'s sem_ops \<Rightarrow> nat \<Rightarrow> 's WritePipeCoordinator \<Rightarrow> 's WritePipeCoordinator \<times> 's PipeState option" where
  "remove_pipe S pipe_id states =
    (case map_of states pipe_id of
       Some st \<Rightarrow> (alist_del pipe_id states,
         Some \<lparr>semaphore = sem_close S (semaphore st), is_closing = True\<rparr>)
     | None \<Rightarrow> (states, None))"

definition acquire_send_permit ::
  "'s sem_ops \<Rightarrow> nat \<Rightarrow> duration option \<Rightarrow> 's WritePipeCoordinator \<Rightarrow>
    ('s WritePipeCoordinator \<times> unit res) option" where
  "acquire_send_permit S pipe_id timeout_opt states =
    (case map_of states pipe_id of
       None \<Rightarrow> Some (states, Inl HostUnreachable)
     | Some st \<Rightarrow>
         if is_closing st then Some (states, Inl HostUnreachable)
         else
           (case sem_try_acquire S (semaphore st) of (s', r) \<Rightarrow>
              let states' = alist_put pipe_id (st\<lparr>semaphore := s'\<rparr>) states
              in case timeout_opt of
                   Some d \<Rightarrow>
                     if d = 0 then
                       Some (states', if r = Permit then Inr () else Inl ResourceLimitReached)
                     else
                       (case r of
                          Permit \<Rightarrow> Some (states', Inr ())
                        | SemClosed \<Rightarrow> Some (states', Inl HostUnreachable)
                        | NoPermits \<Rightarrow> Some (states', Inl Timeout))
                 | None \<Rightarrow>
                     (case r of
                        Permit \<Rightarrow> Some (states', Inr ())
                      | SemClosed \<Rightarrow> Some (states', Inl HostUnreachable)
                      | NoPermits \<Rightarrow> None)))"

text \<open>Dropping the permit.\<close>

definition release_send_permit :: "'s sem_ops \<Rightarrow> nat \<Rightarrow> 's WritePipeCoordinator \<Rightarrow> 's WritePipeCoordinator" where
  "release_send_permit S pipe_id states =
    (case map_of states pipe_id of
       Some st \<Rightarrow> alist_put pipe_id (st\<lparr>semaphore := sem_release S (semaphore st)\<rparr>) states
     | None \<Rightarrow> states)"


section \<open>Properties of the framing\<close>

lemma set_manual_final: "latch_mode l \<in> {0, 1} \<Longrightarrow> is_manual (fst (set_manual l))"
  by (auto simp: set_manual_def is_manual_def)

lemma latch_manual_noop:
  "is_manual l \<Longrightarrow> snd (encoders l) = noop \<Longrightarrow> snd (decoders l) = noop \<Longrightarrow>
    latch_encode l fs = fs \<and> latch_decode l fs = fs"
  by (simp add: latch_encode_def latch_decode_def is_manual_def noop_def)

lemma router_auto_roundtrip: "router_auto_decode (router_auto_encode (i # ps)) = with_more True i # ps"
  by (simp add: router_auto_encode_def router_auto_decode_def Let_def)

lemma dealer_auto_roundtrip: "dealer_auto_decode (dealer_auto_encode ps) = ps"
  by (simp add: dealer_auto_encode_def dealer_auto_decode_def)

lemma router_auto_well_framed: "well_framed ps \<Longrightarrow> well_framed (router_auto_encode (i # ps))"
  by (auto simp: router_auto_encode_def well_framed_Cons Let_def)

lemma dealer_auto_well_framed: "well_framed ps \<Longrightarrow> well_framed (dealer_auto_encode ps)"
  by (auto simp: dealer_auto_encode_def well_framed_Cons)

text \<open>
  Whatever strategy the identity table chose for a peer and whether the socket frames automatically
  or manually, a well-framed payload with an identity in front goes out as a well-framed ZMTP message that
  ends in exactly that payload; a REQ peer gets an empty delimiter before it, a ROUTER peer the payload
  alone, and any other peer under automatic framing the identity and an empty delimiter.
\<close>

theorem wire_frames_well_framed:
  assumes "l = latch_new router_auto_encode router_auto_decode \<or>
      l = fst (set_manual (latch_new router_auto_encode router_auto_decode))"
    and "well_framed ps" and "ps \<noteq> []"
  shows "well_framed (prepare_wire_frames s dest ps l) \<and>
    prepare_wire_frames s dest ps l =
      (case s of
         ReqPeerStrategy \<Rightarrow> [with_more True msg_new]
       | RouterPeerStrategy \<Rightarrow> []
       | DealerPeerStrategy \<Rightarrow> if is_manual l then [] else [with_more True dest, with_more True msg_new]
       | DefaultRouterStrategy \<Rightarrow>
           if is_manual l then [with_more True dest] else [with_more True dest, with_more True msg_new]) @ ps"
  using assms
  by (cases s)
    (auto simp: well_framed_Cons latch_new_def set_manual_def is_manual_def latch_encode_def noop_def
      router_auto_encode_def)

theorem wire_frames_well_framed_witness:
  "well_framed (prepare_wire_frames DealerPeerStrategy (msg_from_vec [7]) [msg_from_vec [1]]
      (latch_new router_auto_encode router_auto_decode)) \<and>
   length (prepare_wire_frames DealerPeerStrategy (msg_from_vec [7]) [msg_from_vec [1]]
      (latch_new router_auto_encode router_auto_decode)) = 3"
  using wire_frames_well_framed [of "latch_new router_auto_encode router_auto_decode" "[msg_from_vec [1]]"
      DealerPeerStrategy "msg_from_vec [7]"]
  by (simp add: is_manual_def latch_new_def)


section \<open>The identity table as a table of peers\<close>

text \<open>The peers the table stands for: each pipe with its identity and its connection.\<close>

definition peers_of :: "RouterMap \<Rightarrow> nat \<Rightarrow> (Blob \<times> PeerInfo) option" where
  "peers_of m p =
    (case map_of (read_pipe_to_identity m) p of
       None \<Rightarrow> None
     | Some i \<Rightarrow> map_option (Pair i) (map_of (identity_to_peer_info m) i))"

definition router_wf :: "RouterMap \<Rightarrow> bool" where
  "router_wf m \<longleftrightarrow>
    distinct (map fst (read_pipe_to_identity m)) \<and>
    inj_on (map_of (read_pipe_to_identity m)) (dom (map_of (read_pipe_to_identity m))) \<and>
    ran (map_of (read_pipe_to_identity m)) = dom (map_of (identity_to_peer_info m))"

definition unclaimed :: "Blob \<Rightarrow> nat \<Rightarrow> (nat \<Rightarrow> (Blob \<times> PeerInfo) option) \<Rightarrow> bool" where
  "unclaimed i p P \<longleftrightarrow> (\<forall>q info. P q = Some (i, info) \<longrightarrow> q = p)"

inductive router_reaches :: "RouterMap \<Rightarrow> (nat \<Rightarrow> (Blob \<times> PeerInfo) option) \<Rightarrow> bool" where
  reach_new: "router_reaches router_map_new Map.empty"
| reach_add: "router_reaches m P \<Longrightarrow> unclaimed i p P \<Longrightarrow>
    router_reaches (add_peer i p u m) (P(p \<mapsto> (i, \<lparr>peer_uri = u, strategy = DefaultRouterStrategy\<rparr>)))"
| reach_update: "router_reaches m P \<Longrightarrow> unclaimed i p P \<Longrightarrow>
    router_reaches (update_peer_identity p i u t m) (P(p \<mapsto> (i, \<lparr>peer_uri = u, strategy = strategy_for t\<rparr>)))"
| reach_remove: "router_reaches m P \<Longrightarrow> router_reaches (remove_peer_by_read_pipe p m) (P(p := None))"
| reach_remove_identity: "router_reaches m P \<Longrightarrow>
    router_reaches (remove_peer_by_identity i m) (\<lambda>p. case P p of Some (j, info) \<Rightarrow> if j = i then None else P p | None \<Rightarrow> None)"

lemma router_wfD:
  assumes "router_wf m"
  shows "map_of (read_pipe_to_identity m) p = Some i \<Longrightarrow> \<exists>info. map_of (identity_to_peer_info m) i = Some info"
    and "map_of (read_pipe_to_identity m) p = Some i \<Longrightarrow> map_of (read_pipe_to_identity m) q = Some i \<Longrightarrow> p = q"
    and "map_of (identity_to_peer_info m) i = Some info \<Longrightarrow> \<exists>p. map_of (read_pipe_to_identity m) p = Some i"
proof -
  assume "map_of (read_pipe_to_identity m) p = Some i"
  then have "i \<in> ran (map_of (read_pipe_to_identity m))" by (auto simp: ran_def)
  then show "\<exists>info. map_of (identity_to_peer_info m) i = Some info"
    using assms by (auto simp: router_wf_def)
next
  assume "map_of (read_pipe_to_identity m) p = Some i" "map_of (read_pipe_to_identity m) q = Some i"
  then show "p = q"
    using assms unfolding router_wf_def by (metis domI inj_onD)
next
  assume "map_of (identity_to_peer_info m) i = Some info"
  then have "i \<in> ran (map_of (read_pipe_to_identity m))"
    using assms by (auto simp: router_wf_def)
  then show "\<exists>p. map_of (read_pipe_to_identity m) p = Some i" by (auto simp: ran_def)
qed

lemma router_wfI:
  assumes "distinct (map fst (read_pipe_to_identity m))"
    and "\<And>p q i. map_of (read_pipe_to_identity m) p = Some i \<Longrightarrow> map_of (read_pipe_to_identity m) q = Some i \<Longrightarrow> p = q"
    and "\<And>i. (\<exists>p. map_of (read_pipe_to_identity m) p = Some i) = (\<exists>info. map_of (identity_to_peer_info m) i = Some info)"
  shows "router_wf m"
  unfolding router_wf_def
proof (intro conjI)
  show "inj_on (map_of (read_pipe_to_identity m)) (dom (map_of (read_pipe_to_identity m)))"
    using assms(2) by (auto simp: inj_on_def)
  show "ran (map_of (read_pipe_to_identity m)) = dom (map_of (identity_to_peer_info m))"
    using assms(3) by (auto simp: ran_def dom_def)
qed (rule assms(1))

lemma unclaimed_pipes:
  assumes "router_wf m" "unclaimed i p (peers_of m)" "map_of (read_pipe_to_identity m) q = Some i"
  shows "q = p"
proof -
  obtain info where "map_of (identity_to_peer_info m) i = Some info"
    using router_wfD(1) [OF assms(1,3)] by blast
  then have "peers_of m q = Some (i, info)"
    using assms(3) by (simp add: peers_of_def)
  then show ?thesis using assms(2) by (auto simp: unclaimed_def)
qed

lemma router_put:
  assumes wf: "router_wf m" and un: "unclaimed i p (peers_of m)"
    and d: "distinct (map fst (read_pipe_to_identity m'))"
    and r: "map_of (read_pipe_to_identity m') = (map_of (read_pipe_to_identity m))(p \<mapsto> i)"
    and f: "map_of (identity_to_peer_info m') =
      (\<lambda>j. if j = i then Some info else if map_of (read_pipe_to_identity m) p = Some j then None
        else map_of (identity_to_peer_info m) j)"
  shows "router_wf m' \<and> peers_of m' = (peers_of m)(p \<mapsto> (i, info))"
proof
  note only = unclaimed_pipes [OF wf un]
  show "router_wf m'"
  proof (rule router_wfI [OF d])
    fix q1 q2 j
    assume "map_of (read_pipe_to_identity m') q1 = Some j" "map_of (read_pipe_to_identity m') q2 = Some j"
    then show "q1 = q2"
      using only router_wfD(2) [OF wf] by (auto simp: r split: if_splits)
  next
    fix j
    show "(\<exists>q. map_of (read_pipe_to_identity m') q = Some j) =
      (\<exists>x. map_of (identity_to_peer_info m') j = Some x)"
    proof (cases "j = i \<or> map_of (read_pipe_to_identity m) p = Some j")
      case True
      then show ?thesis using router_wfD(2) [OF wf] by (auto simp: r f)
    next
      case False
      then show ?thesis using router_wfD(1,3) [OF wf] by (auto simp: r f) metis
    qed
  qed
  show "peers_of m' = (peers_of m)(p \<mapsto> (i, info))"
  proof
    fix q
    show "peers_of m' q = ((peers_of m)(p \<mapsto> (i, info))) q"
      using only router_wfD(2) [OF wf] by (auto simp: peers_of_def r f split: option.splits)
  qed
qed

lemma add_peer_refines:
  assumes "router_wf m" "unclaimed i p (peers_of m)"
  shows "router_wf (add_peer i p u m) \<and>
    peers_of (add_peer i p u m) = (peers_of m)(p \<mapsto> (i, \<lparr>peer_uri = u, strategy = DefaultRouterStrategy\<rparr>))"
  using assms
  by (rule router_put) (use assms in \<open>auto simp: add_peer_def router_wf_def Let_def split: option.splits\<close>)

lemma update_peer_identity_refines:
  assumes "router_wf m" "unclaimed i p (peers_of m)"
  shows "router_wf (update_peer_identity p i u t m) \<and>
    peers_of (update_peer_identity p i u t m) = (peers_of m)(p \<mapsto> (i, \<lparr>peer_uri = u, strategy = strategy_for t\<rparr>))"
  using assms
  by (rule router_put) (use assms in \<open>auto simp: update_peer_identity_def router_wf_def Let_def split: option.splits\<close>)

lemma router_delete:
  assumes wf: "router_wf m" and p: "map_of (read_pipe_to_identity m) p = Some i"
    and m': "m' = \<lparr>identity_to_peer_info = alist_del i (identity_to_peer_info m),
      read_pipe_to_identity = alist_del p (read_pipe_to_identity m)\<rparr>"
  shows "router_wf m' \<and> peers_of m' = (peers_of m)(p := None)"
proof
  show "router_wf m'"
  proof (rule router_wfI)
    show "distinct (map fst (read_pipe_to_identity m'))" using wf by (simp add: m' router_wf_def)
  next
    fix q1 q2 j
    assume "map_of (read_pipe_to_identity m') q1 = Some j" "map_of (read_pipe_to_identity m') q2 = Some j"
    then show "q1 = q2" using router_wfD(2) [OF wf] by (auto simp: m' split: if_splits)
  next
    fix j
    show "(\<exists>q. map_of (read_pipe_to_identity m') q = Some j) =
      (\<exists>x. map_of (identity_to_peer_info m') j = Some x)"
    proof (cases "j = i")
      case True
      then show ?thesis using router_wfD(2) [OF wf p] by (auto simp: m')
    next
      case False
      then show ?thesis using router_wfD(1,3) [OF wf] p by (auto simp: m') (metis option.inject)+
    qed
  qed
  show "peers_of m' = (peers_of m)(p := None)"
    using router_wfD(2) [OF wf p] by (auto simp: peers_of_def m' fun_eq_iff split: option.splits)
qed

lemma remove_pipe_refines:
  assumes "router_wf m"
  shows "router_wf (remove_peer_by_read_pipe p m) \<and>
    peers_of (remove_peer_by_read_pipe p m) = (peers_of m)(p := None)"
proof (cases "map_of (read_pipe_to_identity m) p")
  case None
  then show ?thesis using assms by (auto simp: remove_peer_by_read_pipe_def peers_of_def)
next
  case (Some i)
  then show ?thesis using router_delete [OF assms Some] by (simp add: remove_peer_by_read_pipe_def)
qed

lemma find_pipe:
  assumes "distinct (map fst xs)" "map_of xs p = Some i"
    and "\<And>q. map_of xs q = Some i \<Longrightarrow> q = p"
  shows "List.find (\<lambda>(key, val). val = i) xs = Some (p, i)"
  using assms
proof (induction xs)
  case (Cons x xs)
  obtain q j where x: "x = (q, j)" by (cases x)
  show ?case
  proof (cases "j = i")
    case True
    then have "q = p" using Cons.prems(3) [of q] x by simp
    then show ?thesis using x True by simp
  next
    case False
    then have 1: "map_of xs p = Some i" using Cons.prems(2) x by (simp split: if_splits)
    have 2: "q' = p" if "map_of xs q' = Some i" for q'
    proof -
      have "(q', i) \<in> set xs" using that by (rule map_of_SomeD)
      then have "q' \<noteq> q" using Cons.prems(1) x by force
      then show ?thesis using that Cons.prems(3) [of q'] x by simp
    qed
    have "distinct (map fst xs)" using Cons.prems(1) by simp
    from Cons.IH [OF this 1 2] show ?thesis using x False by simp
  qed
qed simp

lemma remove_identity_refines:
  assumes "router_wf m"
  shows "router_wf (remove_peer_by_identity i m) \<and>
    peers_of (remove_peer_by_identity i m) =
      (\<lambda>p. case peers_of m p of Some (j, info) \<Rightarrow> if j = i then None else peers_of m p | None \<Rightarrow> None)"
proof (cases "map_of (identity_to_peer_info m) i")
  case None
  then have "peers_of m = (\<lambda>p. case peers_of m p of Some (j, info) \<Rightarrow> if j = i then None else peers_of m p | None \<Rightarrow> None)"
    by (intro ext) (auto simp: peers_of_def split: option.splits)
  then show ?thesis using assms None by (simp add: remove_peer_by_identity_def)
next
  case (Some info)
  obtain p where p: "map_of (read_pipe_to_identity m) p = Some i"
    using router_wfD(3) [OF assms Some] by blast
  have "distinct (map fst (read_pipe_to_identity m))" using assms by (simp add: router_wf_def)
  then have "List.find (\<lambda>(key, val). val = i) (read_pipe_to_identity m) = Some (p, i)"
    by (rule find_pipe [OF _ p]) (rule router_wfD(2) [OF assms _ p])
  then have m: "remove_peer_by_identity i m =
      \<lparr>identity_to_peer_info = alist_del i (identity_to_peer_info m),
       read_pipe_to_identity = alist_del p (read_pipe_to_identity m)\<rparr>"
    using Some by (simp add: remove_peer_by_identity_def)
  have other: "map_of (read_pipe_to_identity m) q \<noteq> Some i" if "q \<noteq> p" for q
    using router_wfD(2) [OF assms _ p] that by blast
  have "(peers_of m)(p := None) =
      (\<lambda>p. case peers_of m p of Some (j, info) \<Rightarrow> if j = i then None else peers_of m p | None \<Rightarrow> None)"
  proof
    fix q
    show "((peers_of m)(p := None)) q =
      (case peers_of m q of Some (j, info) \<Rightarrow> if j = i then None else peers_of m q | None \<Rightarrow> None)"
      using other [of q] p Some by (cases "q = p") (auto simp: peers_of_def split: option.splits)
  qed
  then show ?thesis using router_delete [OF assms p m] by argo
qed

lemma router_reaches_refines: "router_reaches m P \<Longrightarrow> router_wf m \<and> P = peers_of m"
proof (induction rule: router_reaches.induct)
  case reach_new
  then show ?case by (auto simp: router_map_new_def router_wf_def peers_of_def)
qed (auto simp: add_peer_refines update_peer_identity_refines remove_pipe_refines remove_identity_refines)

lemma peers_of_lookup:
  assumes "router_wf m"
  shows "get_peer_info_for_identity i m = Some info \<longleftrightarrow> (\<exists>p. peers_of m p = Some (i, info))"
    and "get_identity_by_read_pipe p m = map_option fst (peers_of m p)"
  using router_wfD [OF assms]
  by (auto simp: get_peer_info_for_identity_def get_identity_by_read_pipe_def peers_of_def split: option.splits)
   fastforce+

text \<open>
  C13. As long as no two connected peers claim the same identity, the identity table is the table of its
  peers: after any sequence of attach, identity update and detach, an identity routes to the connection
  and strategy its one pipe registered last, and a detached peer's identity to nothing.
\<close>

theorem router_map_refines:
  assumes "router_reaches m P"
  shows "(get_peer_info_for_identity i m = Some info \<longleftrightarrow> (\<exists>p. P p = Some (i, info))) \<and>
    get_identity_by_read_pipe p m = map_option fst (P p)"
  using router_reaches_refines [OF assms] peers_of_lookup by blast

theorem router_map_refines_witness:
  "get_peer_info_for_identity [2] (update_peer_identity 1 [2] ''tcp://b'' (Some ''REQ'')
      (add_peer [1] 1 ''tcp://a'' router_map_new)) = Some \<lparr>peer_uri = ''tcp://b'', strategy = ReqPeerStrategy\<rparr>"
proof -
  have "router_reaches (update_peer_identity 1 [2] ''tcp://b'' (Some ''REQ'') (add_peer [1] 1 ''tcp://a'' router_map_new))
      ((Map.empty(1 \<mapsto> ([1], \<lparr>peer_uri = ''tcp://a'', strategy = DefaultRouterStrategy\<rparr>)))
        (1 \<mapsto> ([2], \<lparr>peer_uri = ''tcp://b'', strategy = strategy_for (Some ''REQ'')\<rparr>)))"
    by (intro reach_update reach_add reach_new) (auto simp: unclaimed_def)
  from router_map_refines [OF this, of "[2]" "\<lparr>peer_uri = ''tcp://b'', strategy = ReqPeerStrategy\<rparr>" 1]
  show ?thesis by (auto simp: strategy_for_def)
qed




section \<open>Exclusive sends\<close>

lemmas sem_acquire_law =
  iffD1 [OF counting_semaphore_def, THEN conjunct2, THEN conjunct1, THEN spec]
lemmas sem_new_law = iffD1 [OF counting_semaphore_def, THEN conjunct1, THEN spec]
lemmas sem_release_law =
  iffD1 [OF counting_semaphore_def, THEN conjunct2, THEN conjunct2, THEN conjunct1, THEN spec]

lemma sem_acquire:
  assumes "counting_semaphore S avail closed" "sem_try_acquire S s = (s', r)" "\<not> closed s"
  shows "\<not> closed s'" "avail s = 0 \<Longrightarrow> r = NoPermits \<and> avail s' = 0"
    "avail s = Suc n \<Longrightarrow> r = Permit \<and> avail s' = n"
  using sem_acquire_law [OF assms(1), of s] assms(2,3) by simp_all

text \<open>What a second sender is told while the permit is out.\<close>

definition permit_busy :: "duration option \<Rightarrow> ('a \<times> unit res) option \<Rightarrow> bool" where
  "permit_busy tmo r =
    (case tmo of
       None \<Rightarrow> r = None
     | Some d \<Rightarrow> map_option snd r = Some (Inl (if d = 0 then ResourceLimitReached else Timeout)))"

text \<open>
  Multi-part sends to one peer do not interleave: after a pipe is added its send permit is granted
  once; until it is released every further attempt times out, is refused or keeps waiting, also when the
  pipe is added again; after the release it is granted again, and after the pipe was removed no sender
  obtains it.
\<close>

theorem send_permit_exclusive:
  assumes S: "counting_semaphore S avail closed" and fresh: "map_of states p = None"
  shows "\<exists>states1. acquire_send_permit S p tmo (add_pipe S p states) = Some (states1, Inr ()) \<and>
    permit_busy tmo' (acquire_send_permit S p tmo' (add_pipe S p states1)) \<and>
    (\<exists>states2. acquire_send_permit S p tmo' (release_send_permit S p states1) = Some (states2, Inr ())) \<and>
    acquire_send_permit S p tmo' (fst (remove_pipe S p states1)) =
      Some (fst (remove_pipe S p states1), Inl HostUnreachable)"
proof -
  obtain s1 r1 where a1: "sem_try_acquire S (sem_new S 1) = (s1, r1)" by fastforce
  have 1: "r1 = Permit" "avail s1 = 0" "\<not> closed s1"
    using sem_acquire(1) [OF S a1] sem_acquire(3) [OF S a1, where n = 0] sem_new_law [OF S, of 1] by auto
  obtain s2 r2 where a2: "sem_try_acquire S s1 = (s2, r2)" by fastforce
  have 2: "r2 = NoPermits" using sem_acquire [OF S a2] 1 by auto
  obtain s3 r3 where a3: "sem_try_acquire S (sem_release S s1) = (s3, r3)" by fastforce
  have 3: "r3 = Permit" using sem_acquire(3) [OF S a3, where n = 0] sem_release_law [OF S, of s1] 1 by auto
  show ?thesis
    using fresh a1 a2 a3 1 2 3
    by (auto simp: acquire_send_permit_def add_pipe_def release_send_permit_def remove_pipe_def
        permit_busy_def Let_def split: option.splits)
qed

definition nat_semaphore :: "(nat \<times> bool) sem_ops" where
  "nat_semaphore =
    \<lparr>sem_new = \<lambda>n. (n, False),
     sem_try_acquire = \<lambda>(n, c). if c then ((n, c), SemClosed) else if n = 0 then ((n, c), NoPermits)
       else ((n - 1, c), Permit),
     sem_release = \<lambda>(n, c). (n + 1, c), sem_close = \<lambda>(n, c). (n, True)\<rparr>"

lemma nat_semaphore_counting: "counting_semaphore nat_semaphore fst snd"
  by (auto simp: counting_semaphore_def nat_semaphore_def)

theorem send_permit_exclusive_witness:
  "\<exists>states1. acquire_send_permit nat_semaphore 1 None (add_pipe nat_semaphore 1 []) = Some (states1, Inr ()) \<and>
    map_option snd (acquire_send_permit nat_semaphore 1 (Some 5) (add_pipe nat_semaphore 1 states1)) = Some (Inl Timeout)"
  using send_permit_exclusive [OF nat_semaphore_counting, where states = "[]" and p = 1 and tmo = None and tmo' = "Some 5"]
  by (auto simp: permit_busy_def)

end
