(* ===== verification/Incremental.thy ===== *)
theory Incremental
  imports Prelude
begin

text \<open>
  The contract of the incremental decoders that sit between the transport's read buffer and the
  socket: \<^verbatim>\<open>ZmtpCodec::decode\<close>, \<^verbatim>\<open>ZmtpManualParser::decode_from_buffer\<close> and the framers' \<^verbatim>\<open>try_read_msg\<close>.
  Each is called on a buffer that grows as bytes arrive, consumes what it can and answers with a
  decoded item, with ``more data needed'' or with an error.  The locale states what the session's read
  loop relies on; its lemmas show that how the transport cuts the byte stream into chunks is
  irrelevant.
\<close>

type_synonym ('s, 'm) decoder = "'s \<Rightarrow> bytes \<Rightarrow> 's \<times> bytes \<times> 'm option res"
type_synonym ('s, 'm) drained = "'s \<times> bytes \<times> 'm list \<times> ZmqError option"

text \<open>Calling a decoder until it needs more data or fails, as the read loop does, with fuel.\<close>

fun drain :: "('s, 'm) decoder \<Rightarrow> nat \<Rightarrow> 's \<Rightarrow> bytes \<Rightarrow> ('s, 'm) drained" where
  "drain dec 0 s b = (s, b, [], None)"
| "drain dec (Suc n) s b =
    (case dec s b of
       (s', b', Inl e) \<Rightarrow> (s', b', [], Some e)
     | (s', b', Inr None) \<Rightarrow> (s', b', [], None)
     | (s', b', Inr (Some m)) \<Rightarrow>
         (case drain dec n s' b' of (s2, b2, ms, e) \<Rightarrow> (s2, b2, m # ms, e)))"

text \<open>Fuel given by a measure of the decoder that every decoded item decreases.\<close>

definition drain_all :: "('s, 'm) decoder \<Rightarrow> ('s \<Rightarrow> bytes \<Rightarrow> nat) \<Rightarrow> 's \<Rightarrow> bytes \<Rightarrow> ('s, 'm) drained" where
  "drain_all dec weight s b = drain dec (Suc (weight s b)) s b"

text \<open>The read loop on a stream that arrives in chunks; a decoding error ends the connection.\<close>

fun feed :: "('s, 'm) decoder \<Rightarrow> ('s \<Rightarrow> bytes \<Rightarrow> nat) \<Rightarrow> 's \<Rightarrow> bytes \<Rightarrow> bytes list \<Rightarrow> ('s, 'm) drained" where
  "feed dec weight s b [] = drain_all dec weight s b"
| "feed dec weight s b (c # cs) =
    (case drain_all dec weight s b of
       (s1, b1, ms, Some e) \<Rightarrow> (s1, b1, ms, Some e)
     | (s1, b1, ms, None) \<Rightarrow>
         (case feed dec weight s1 (b1 @ c) cs of (s2, b2, ms2, e) \<Rightarrow> (s2, b2, ms @ ms2, e)))"

text \<open>What a session observes of a run: the items delivered and the error, if any.\<close>

definition observed :: "('s, 'm) drained \<Rightarrow> 'm list \<times> ZmqError option" where
  "observed d = snd (snd d)"

lemma observed_simps [simp]: "observed (s, b, ms, e) = (ms, e)"
  by (simp add: observed_def)

text \<open>A decoder that simulates another step by step delivers the same items.\<close>

lemma drain_simulation:
  assumes step: "\<And>p b. I p \<Longrightarrow> dec1 (f p) b = (case dec2 p b of (p', b', r) \<Rightarrow> (f p', b', r))"
    and inv: "\<And>p b p' b' m. I p \<Longrightarrow> dec2 p b = (p', b', Inr (Some m)) \<Longrightarrow> I p'"
    and "I p"
  shows "drain dec1 n (f p) b = (case drain dec2 n p b of (p', b', ms, e) \<Rightarrow> (f p', b', ms, e))"
  using \<open>I p\<close>
proof (induction n arbitrary: p b)
  case 0
  show ?case by simp
next
  case (Suc n)
  obtain p' b' r where d: "dec2 p b = (p', b', r)" by (cases "dec2 p b") auto
  with Suc.prems have d1: "dec1 (f p) b = (f p', b', r)" by (simp add: step)
  show ?case
  proof (cases "\<exists>m. r = Inr (Some m)")
    case True
    then obtain m where r: "r = Inr (Some m)" ..
    with d Suc.prems have "I p'" by (auto intro: inv)
    from Suc.IH [OF this, of b'] d d1 r show ?thesis by (simp split: prod.splits)
  next
    case False
    with d d1 show ?thesis by (auto split: sum.splits option.splits)
  qed
qed

text \<open>An invariant of the decoder's state and a property of every item it delivers.\<close>

lemma drain_invariant:
  assumes step: "\<And>p b p' b' r. I p \<Longrightarrow> dec p b = (p', b', r) \<Longrightarrow> I p'"
    and item: "\<And>p b p' b' m. I p \<Longrightarrow> dec p b = (p', b', Inr (Some m)) \<Longrightarrow> P m"
    and "I p" "drain dec n p b = (p', b', ms, e)"
  shows "I p' \<and> (\<forall>m \<in> set ms. P m)"
  using assms(3,4)
proof (induction n arbitrary: p b ms)
  case 0
  then show ?case by simp
next
  case (Suc n)
  obtain p1 b1 r where d: "dec p b = (p1, b1, r)" by (cases "dec p b") auto
  with Suc.prems have i: "I p1" by (auto intro: step)
  show ?case
  proof (cases "\<exists>m. r = Inr (Some m)")
    case True
    then obtain m where r: "r = Inr (Some m)" ..
    with d Suc.prems(1) have "P m" by (auto intro: item)
    with Suc.IH [OF i] Suc.prems(2) d r show ?thesis by (auto split: prod.splits)
  next
    case False
    with d Suc.prems(2) i show ?thesis by (auto split: sum.splits option.splits)
  qed
qed

locale incremental_decoder =
  fixes dec :: "'s \<Rightarrow> bytes \<Rightarrow> 's \<times> bytes \<times> 'm option res"
    and weight :: "'s \<Rightarrow> bytes \<Rightarrow> nat"
  assumes dec_error: "dec s b = (s', b', Inl e) \<Longrightarrow> dec s (b @ c) = (s', b' @ c, Inl e)"
    and dec_item: "dec s b = (s', b', Inr (Some m)) \<Longrightarrow> dec s (b @ c) = (s', b' @ c, Inr (Some m))"
    and dec_more: "dec s b = (s', b', Inr None) \<Longrightarrow> dec s (b @ c) = dec s' (b' @ c)"
    and dec_weight: "dec s b = (s', b', Inr (Some m)) \<Longrightarrow> weight s' b' < weight s b"
begin

lemma drain_fuel:
  "weight s b < n \<Longrightarrow> weight s b < k \<Longrightarrow> drain dec n s b = drain dec k s b"
proof (induction n arbitrary: s b k)
  case 0
  then show ?case by simp
next
  case (Suc n)
  then obtain j where k: "k = Suc j" by (cases k) auto
  obtain s' b' r where d: "dec s b = (s', b', r)" by (cases "dec s b") auto
  show ?case
  proof (cases r)
    case (Inr x)
    show ?thesis
    proof (cases x)
      case (Some m)
      with d Inr have "weight s' b' < weight s b" by (auto intro: dec_weight)
      with Suc.prems k have "drain dec n s' b' = drain dec j s' b'" by (intro Suc.IH) auto
      with d Inr Some k show ?thesis by simp
    qed (use d Inr k in simp)
  qed (use d k in simp)
qed

lemma drain_all_unfold:
  "drain_all dec weight s b =
    (case dec s b of
       (s', b', Inl e) \<Rightarrow> (s', b', [], Some e)
     | (s', b', Inr None) \<Rightarrow> (s', b', [], None)
     | (s', b', Inr (Some m)) \<Rightarrow>
         (case drain_all dec weight s' b' of (s2, b2, ms, e) \<Rightarrow> (s2, b2, m # ms, e)))"
proof -
  have "drain dec (weight s b) s' b' = drain_all dec weight s' b'"
    if "dec s b = (s', b', Inr (Some m))" for s' b' m
    unfolding drain_all_def using dec_weight [OF that] by (intro drain_fuel) auto
  then show ?thesis
    by (auto simp: drain_all_def split: prod.splits sum.splits option.splits)
qed

text \<open>Without an error the run ends where the decoder waits for more data.\<close>

lemma drain_all_ended:
  "drain_all dec weight s b = (s2, b2, ms, None) \<Longrightarrow> dec s2 b2 = (s2, b2, Inr None)"
proof (induction "weight s b" arbitrary: s b ms rule: less_induct)
  case less
  obtain s' b' r where d: "dec s b = (s', b', r)" by (cases "dec s b") auto
  show ?case
  proof (cases "\<exists>m. r = Inr (Some m)")
    case True
    then obtain m where r: "r = Inr (Some m)" ..
    with d have "weight s' b' < weight s b" by (auto intro: dec_weight)
    from less.hyps [OF this] less.prems d r show ?thesis
      by (auto simp: drain_all_unfold [of s b] split: prod.splits)
  next
    case False
    with d less.prems have "r = Inr None" "s2 = s'" "b2 = b'"
      by (auto simp: drain_all_unfold [of s b] split: sum.splits option.splits)
    with d dec_more [of s b s' b' "[]"] show ?thesis by simp
  qed
qed

lemma drain_all_append:
  "drain_all dec weight s (b @ c) =
    (case drain_all dec weight s b of
       (s1, b1, ms, Some e) \<Rightarrow> (s1, b1 @ c, ms, Some e)
     | (s1, b1, ms, None) \<Rightarrow>
         (case drain_all dec weight s1 (b1 @ c) of (s2, b2, ms2, e) \<Rightarrow> (s2, b2, ms @ ms2, e)))"
proof (induction "weight s b" arbitrary: s b rule: less_induct)
  case less
  obtain s' b' r where d: "dec s b = (s', b', r)" by (cases "dec s b") auto
  note unfold = drain_all_unfold [of s b] drain_all_unfold [of s "b @ c"]
  show ?case
  proof (cases r)
    case (Inl e)
    with d show ?thesis by (simp add: unfold dec_error)
  next
    case (Inr x)
    show ?thesis
    proof (cases x)
      case None
      with d Inr have "dec s (b @ c) = dec s' (b' @ c)" by (simp add: dec_more)
      with d Inr None show ?thesis
        by (simp add: unfold drain_all_unfold [of s' "b' @ c"] split: prod.splits sum.splits option.splits)
    next
      case (Some m)
      with d Inr have lt: "weight s' b' < weight s b" by (auto intro: dec_weight)
      from d Inr Some have "dec s (b @ c) = (s', b' @ c, Inr (Some m))" by (simp add: dec_item)
      with d Inr Some less [OF lt] show ?thesis
        by (simp add: unfold split: prod.splits option.splits)
    qed
  qed
qed

text \<open>Chunking is irrelevant: the same items, and the same error, as from the whole stream at once.\<close>

lemma feed_observed:
  "observed (feed dec weight s b cs) = observed (drain_all dec weight s (b @ concat cs))"
proof (induction cs arbitrary: s b)
  case Nil
  show ?case by simp
next
  case (Cons c cs)
  obtain s1 b1 ms eo where d: "drain_all dec weight s b = (s1, b1, ms, eo)"
    by (cases "drain_all dec weight s b") auto
  show ?case
  proof (cases eo)
    case None
    with d Cons.IH [of s1 "b1 @ c"] show ?thesis
      by (auto simp: drain_all_append [of s b "c @ concat cs"] observed_def split: prod.splits)
  next
    case (Some e)
    with d show ?thesis by (simp add: drain_all_append [of s b "c @ concat cs"])
  qed
qed

lemma feed_ok:
  "drain_all dec weight s (b @ concat cs) = (s2, b2, ms, None) \<Longrightarrow>
    feed dec weight s b cs = (s2, b2, ms, None)"
proof (induction cs arbitrary: s b ms)
  case Nil
  then show ?case by simp
next
  case (Cons c cs)
  obtain s1 b1 ms1 eo where d: "drain_all dec weight s b = (s1, b1, ms1, eo)"
    by (cases "drain_all dec weight s b") auto
  show ?case
  proof (cases eo)
    case None
    with d Cons.prems Cons.IH [of s1 "b1 @ c"] show ?thesis
      by (auto simp: drain_all_append [of s b "c @ concat cs"] split: prod.splits)
  next
    case (Some e)
    with d Cons.prems show ?thesis by (simp add: drain_all_append [of s b "c @ concat cs"])
  qed
qed

lemma feed_chunking:
  "concat cs = concat cs' \<Longrightarrow>
    observed (feed dec weight s b cs) = observed (feed dec weight s b cs')"
  by (simp add: feed_observed)

text \<open>A stream that starts with the encodings of items decodes to those items first.\<close>

lemma drain_all_encoded:
  assumes enc: "\<And>m c. m \<in> set ms \<Longrightarrow> dec s (enc m @ c) = (s, c, Inr (Some (norm m)))"
  shows "drain_all dec weight s (concat (map enc ms) @ c) =
    (case drain_all dec weight s c of (s2, b2, ms2, e) \<Rightarrow> (s2, b2, map norm ms @ ms2, e))"
  using enc
proof (induction ms)
  case Nil
  show ?case by (simp split: prod.splits)
next
  case (Cons m ms)
  then show ?case
    by (subst drain_all_unfold) (auto split: prod.splits)
qed

end

end
