(* ===== verification/Zmtp_Codec.thy ===== *)
theory Zmtp_Codec
  imports Message Incremental
begin

text \<open>
  ZMTP framing: the tokio codec (\<^verbatim>\<open>core/src/protocol/zmtp/codec.rs\<close>) and the parser of the live data path
  (\<^verbatim>\<open>core/src/protocol/zmtp/manual_parser.rs\<close>).  The decoders' loops make at most two rounds, one for the
  header and one for the body, and are written as the composition of the two.  A read buffer is a byte
  list; a decoder returns its new state, what is left of the buffer, and the result.
\<close>

section \<open>Definitions\<close>

subsection \<open>Frame header bits\<close>

definition ZMTP_FLAG_LONG :: byte where "ZMTP_FLAG_LONG = 0b10"
definition ZMTP_FLAG_MORE :: byte where "ZMTP_FLAG_MORE = 0b01"
definition ZMTP_FLAG_COMMAND :: byte where "ZMTP_FLAG_COMMAND = 0b100"

definition CODEC_MAX_FRAME_SIZE :: nat where
  "CODEC_MAX_FRAME_SIZE = 64 * 1024 * 1024"

definition zmtp_flags :: "MsgFlags \<Rightarrow> byte" where
  "zmtp_flags f =
    (let z = (if MORE f then 0 OR ZMTP_FLAG_MORE else 0)
     in if COMMAND f then z OR ZMTP_FLAG_COMMAND else z)"

definition msg_of_frame :: "byte \<Rightarrow> bytes \<Rightarrow> Msg" where
  "msg_of_frame flags body =
    set_flags \<lparr>MORE = (flags AND ZMTP_FLAG_MORE \<noteq> 0), COMMAND = (flags AND ZMTP_FLAG_COMMAND \<noteq> 0)\<rparr>
      (msg_from_bytes body)"

subsection \<open>The codec\<close>

record FrameHeader =
  hdr_flags :: byte
  hdr_size :: nat

datatype DecodingState = ReadHeader | ReadBody FrameHeader

record ZmtpCodec =
  decoding_state :: DecodingState
  prefix_bytes :: "bytes option"

definition codec_new :: ZmtpCodec where
  "codec_new = \<lparr>decoding_state = ReadHeader, prefix_bytes = None\<rparr>"

definition prime_with_prefix :: "bytes \<Rightarrow> ZmtpCodec \<Rightarrow> ZmtpCodec" where
  "prime_with_prefix p c = (if p \<noteq> [] then c\<lparr>prefix_bytes := Some p\<rparr> else c)"

definition encode_header_only :: "Msg \<Rightarrow> bytes \<Rightarrow> bytes" where
  "encode_header_only item dst =
    (let data_size = msg_size item; z = zmtp_flags (msg_flags item)
     in if data_size \<le> 255 then dst @ [z] @ be_bytes 1 data_size
        else dst @ [z OR ZMTP_FLAG_LONG] @ be_bytes 8 data_size)"

definition encode :: "Msg \<Rightarrow> bytes \<Rightarrow> bytes" where
  "encode item dst =
    (let data = msg_payload item; sz = length data; z = zmtp_flags (msg_flags item);
         dst = (if sz \<le> 255 then dst @ [z] @ be_bytes 1 sz
                else dst @ [z OR ZMTP_FLAG_LONG] @ be_bytes 8 sz)
     in dst @ data)"

definition codec_read_body :: "ZmtpCodec \<Rightarrow> FrameHeader \<Rightarrow> bytes \<Rightarrow> ZmtpCodec \<times> bytes \<times> Msg option res" where
  "codec_read_body c h src =
    (if length src < hdr_size h then (c\<lparr>decoding_state := ReadBody h\<rparr>, src, Inr None)
     else (c\<lparr>decoding_state := ReadHeader\<rparr>, drop (hdr_size h) src,
           Inr (Some (msg_of_frame (hdr_flags h) (take (hdr_size h) src)))))"

definition codec_read_header :: "ZmtpCodec \<Rightarrow> bytes \<Rightarrow> ZmtpCodec \<times> bytes \<times> Msg option res" where
  "codec_read_header c src =
    (case src of
       [] \<Rightarrow> (c, src, Inr None)
     | flags # rest \<Rightarrow>
         (let is_long = (flags AND ZMTP_FLAG_LONG \<noteq> 0);
              len_len = (if is_long then 8 else 1)
          in if length src < 1 + len_len then (c, src, Inr None)
             else (let raw_size = be_nat (take len_len rest); src' = drop len_len rest
                   in if raw_size > CODEC_MAX_FRAME_SIZE then (c, src', Inl ProtocolViolation)
                      else codec_read_body c \<lparr>hdr_flags = flags, hdr_size = raw_size\<rparr> src')))"

definition decode :: "ZmtpCodec \<Rightarrow> bytes \<Rightarrow> ZmtpCodec \<times> bytes \<times> Msg option res" where
  "decode c src =
    (let src' = (case prefix_bytes c of None \<Rightarrow> src | Some p \<Rightarrow> p @ src);
         c' = c\<lparr>prefix_bytes := None\<rparr>
     in case decoding_state c' of
          ReadHeader \<Rightarrow> codec_read_header c' src'
        | ReadBody h \<Rightarrow> codec_read_body c' h src')"

subsection \<open>The parser of the data path\<close>

datatype ManualDecodingState = ManualReadHeader | ManualReadBody byte nat

record ZmtpManualParser =
  mp_state :: ManualDecodingState
  max_msg_size :: int

definition manual_new :: "int \<Rightarrow> ZmtpManualParser" where
  "manual_new limit = \<lparr>mp_state = ManualReadHeader, max_msg_size = limit\<rparr>"

definition manual_read_body ::
  "ZmtpManualParser \<Rightarrow> byte \<Rightarrow> nat \<Rightarrow> bytes \<Rightarrow> ZmtpManualParser \<times> bytes \<times> Msg option res" where
  "manual_read_body p flags sz src =
    (if length src < sz then (p\<lparr>mp_state := ManualReadBody flags sz\<rparr>, src, Inr None)
     else (p\<lparr>mp_state := ManualReadHeader\<rparr>, drop sz src,
           Inr (Some (msg_of_frame flags (take sz src)))))"

definition manual_read_header ::
  "ZmtpManualParser \<Rightarrow> bytes \<Rightarrow> ZmtpManualParser \<times> bytes \<times> Msg option res" where
  "manual_read_header p src =
    (case src of
       [] \<Rightarrow> (p, src, Inr None)
     | flags # rest \<Rightarrow>
         (let is_long = (flags AND ZMTP_FLAG_LONG \<noteq> 0);
              len_len = (if is_long then 8 else 1)
          in if length src < 1 + len_len then (p, src, Inr None)
             else (let raw_size = be_nat (take len_len rest); src' = drop len_len rest
                   in if max_msg_size p \<ge> 0 \<and> raw_size > nat (max_msg_size p)
                      then (p, src', Inl ProtocolViolation)
                      else manual_read_body p flags raw_size src')))"

definition decode_from_buffer :: "ZmtpManualParser \<Rightarrow> bytes \<Rightarrow> ZmtpManualParser \<times> bytes \<times> Msg option res" where
  "decode_from_buffer p src =
    (case mp_state p of
       ManualReadHeader \<Rightarrow> manual_read_header p src
     | ManualReadBody flags sz \<Rightarrow> manual_read_body p flags sz src)"


section \<open>Frame headers\<close>

lemmas flag_defs = ZMTP_FLAG_LONG_def ZMTP_FLAG_MORE_def ZMTP_FLAG_COMMAND_def

lemma zmtp_flags_bits [simp]:
  "zmtp_flags f AND ZMTP_FLAG_LONG = 0"
  "(zmtp_flags f AND ZMTP_FLAG_MORE \<noteq> 0) = MORE f"
  "(zmtp_flags f AND ZMTP_FLAG_COMMAND \<noteq> 0) = COMMAND f"
  "(zmtp_flags f OR ZMTP_FLAG_LONG) AND ZMTP_FLAG_LONG \<noteq> 0"
  "((zmtp_flags f OR ZMTP_FLAG_LONG) AND ZMTP_FLAG_MORE \<noteq> 0) = MORE f"
  "((zmtp_flags f OR ZMTP_FLAG_LONG) AND ZMTP_FLAG_COMMAND \<noteq> 0) = COMMAND f"
  by (cases "MORE f"; cases "COMMAND f"; simp add: zmtp_flags_def flag_defs)+

lemma ZMTP_FLAG_LONG_neq_0 [simp]: "ZMTP_FLAG_LONG \<noteq> 0"
  by (simp add: flag_defs)

text \<open>What a frame looks like after it crossed the wire: an absent payload arrives as an empty one.\<close>

definition wire_norm :: "Msg \<Rightarrow> Msg" where
  "wire_norm m = m\<lparr>msg_data := Some (msg_payload m)\<rparr>"

lemma msg_of_frame_flags [simp]:
  "msg_of_frame (zmtp_flags (msg_flags m)) (msg_payload m) = wire_norm m"
  "msg_of_frame (zmtp_flags (msg_flags m) OR ZMTP_FLAG_LONG) (msg_payload m) = wire_norm m"
  by (cases m; cases "msg_flags m"; simp add: msg_of_frame_def wire_norm_def set_flags_def msg_from_vec_def)+

lemma encode_append: "encode m dst = dst @ encode m []"
  by (simp add: encode_def Let_def)

lemma encode_cases:
  obtains (short) "length (msg_payload m) \<le> 255"
      "encode m [] = zmtp_flags (msg_flags m) # be_bytes 1 (length (msg_payload m)) @ msg_payload m"
  | (long) "length (msg_payload m) > 255"
      "encode m [] = (zmtp_flags (msg_flags m) OR ZMTP_FLAG_LONG) #
         be_bytes 8 (length (msg_payload m)) @ msg_payload m"
  by (cases "length (msg_payload m) \<le> 255") (auto simp: encode_def Let_def)


text \<open>The header both decoders parse: its flags, the announced size and the rest of the buffer.\<close>

definition frame_header :: "bytes \<Rightarrow> (byte \<times> nat \<times> bytes) option" where
  "frame_header src =
    (case src of
       [] \<Rightarrow> None
     | flags # rest \<Rightarrow>
         (let n = (if flags AND ZMTP_FLAG_LONG \<noteq> 0 then 8 else 1)
          in if length rest < n then None else Some (flags, be_nat (take n rest), drop n rest)))"

lemma frame_header_append:
  "frame_header b = Some (f, n, r) \<Longrightarrow> frame_header (b @ c) = Some (f, n, r @ c)"
proof -
  assume h: "frame_header b = Some (f, n, r)"
  then obtain rest where b: "b = f # rest" by (auto simp: frame_header_def Let_def split: list.splits if_splits)
  define k where "k = (if f AND ZMTP_FLAG_LONG \<noteq> 0 then 8 else 1 :: nat)"
  from h b have "k \<le> length rest" "n = be_nat (take k rest)" "r = drop k rest"
    by (auto simp: frame_header_def k_def Let_def Suc_le_eq split: if_splits)
  with b show ?thesis by (simp add: frame_header_def flip: k_def)
qed

lemma frame_header_length: "frame_header b = Some (f, n, r) \<Longrightarrow> length r + 2 \<le> length b"
  by (auto simp: frame_header_def Let_def split: list.splits if_splits)

lemma codec_read_header_eq:
  "codec_read_header c src =
    (case frame_header src of
       None \<Rightarrow> (c, src, Inr None)
     | Some (f, n, r) \<Rightarrow>
         if n > CODEC_MAX_FRAME_SIZE then (c, r, Inl ProtocolViolation)
         else codec_read_body c \<lparr>hdr_flags = f, hdr_size = n\<rparr> r)"
  by (auto simp: codec_read_header_def frame_header_def Let_def split: list.split)

lemma manual_read_header_eq:
  "manual_read_header p src =
    (case frame_header src of
       None \<Rightarrow> (p, src, Inr None)
     | Some (f, n, r) \<Rightarrow>
         if max_msg_size p \<ge> 0 \<and> n > nat (max_msg_size p) then (p, r, Inl ProtocolViolation)
         else manual_read_body p f n r)"
  by (auto simp: manual_read_header_def frame_header_def Let_def split: list.split)


section \<open>Both decoders are incremental\<close>

definition manual_weight :: "ZmtpManualParser \<Rightarrow> bytes \<Rightarrow> nat" where
  "manual_weight p b = length b + (case mp_state p of ManualReadHeader \<Rightarrow> 0 | ManualReadBody _ _ \<Rightarrow> 1)"

lemmas manual_defs = decode_from_buffer_def manual_read_header_eq manual_read_body_def

interpretation manual: incremental_decoder decode_from_buffer manual_weight
proof
  fix p p' :: ZmtpManualParser and b b' d :: bytes and e m
  show "decode_from_buffer p b = (p', b', Inl e) \<Longrightarrow> decode_from_buffer p (b @ d) = (p', b' @ d, Inl e)"
    by (auto simp: manual_defs frame_header_append split: ManualDecodingState.splits option.splits if_splits)
  show "decode_from_buffer p b = (p', b', Inr (Some m)) \<Longrightarrow>
      decode_from_buffer p (b @ d) = (p', b' @ d, Inr (Some m))"
    by (auto simp: manual_defs frame_header_append split: ManualDecodingState.splits option.splits if_splits)
  show "decode_from_buffer p b = (p', b', Inr None) \<Longrightarrow>
      decode_from_buffer p (b @ d) = decode_from_buffer p' (b' @ d)"
    by (auto simp: manual_defs frame_header_append split: ManualDecodingState.splits option.splits if_splits)
  show "decode_from_buffer p b = (p', b', Inr (Some m)) \<Longrightarrow> manual_weight p' b' < manual_weight p b"
    using frame_header_length [of b]
    by (auto simp: manual_defs manual_weight_def
        split: ManualDecodingState.splits option.splits if_splits)
qed

definition codec_weight :: "ZmtpCodec \<Rightarrow> bytes \<Rightarrow> nat" where
  "codec_weight c b = length b + (case prefix_bytes c of None \<Rightarrow> 0 | Some p \<Rightarrow> length p) +
    (case decoding_state c of ReadHeader \<Rightarrow> 0 | ReadBody _ \<Rightarrow> 1)"

lemmas codec_defs = decode_def codec_read_header_eq codec_read_body_def

text \<open>A stored prefix counts as the front of the buffer.\<close>

lemma decode_prefix:
  "decode c b = decode (c\<lparr>prefix_bytes := None\<rparr>) ((case prefix_bytes c of None \<Rightarrow> [] | Some p \<Rightarrow> p) @ b)"
  by (cases "prefix_bytes c") (simp_all add: decode_def Let_def)

lemma decode_no_prefix:
  "prefix_bytes c = None \<Longrightarrow>
    decode c b = (case decoding_state c of ReadHeader \<Rightarrow> codec_read_header c b | ReadBody h \<Rightarrow> codec_read_body c h b)"
  by (cases c) (auto simp add: decode_def Let_def)

lemma decode_leaves_no_prefix: "decode c b = (c', b', r) \<Longrightarrow> prefix_bytes c' = None"
  by (auto simp: codec_defs Let_def split: option.splits DecodingState.splits if_splits)

lemma decode_laws_no_prefix:
  assumes "prefix_bytes c = None"
  shows "decode c b = (c', b', Inl e) \<Longrightarrow> decode c (b @ d) = (c', b' @ d, Inl e)"
    and "decode c b = (c', b', Inr (Some m)) \<Longrightarrow> decode c (b @ d) = (c', b' @ d, Inr (Some m))"
    and "decode c b = (c', b', Inr None) \<Longrightarrow> decode c (b @ d) = decode c' (b' @ d)"
    and "decode c b = (c', b', Inr (Some m)) \<Longrightarrow> codec_weight c' b' < codec_weight c b"
  using assms frame_header_length [of b]
  by (auto simp: decode_no_prefix codec_read_header_eq codec_read_body_def codec_weight_def
      frame_header_append split: DecodingState.splits option.splits if_splits)

interpretation codec: incremental_decoder decode codec_weight
proof
  fix c c' :: ZmtpCodec and b b' d :: bytes and e m
  let ?c = "c\<lparr>prefix_bytes := None\<rparr>" and ?p = "case prefix_bytes c of None \<Rightarrow> [] | Some p \<Rightarrow> p"
  have np: "prefix_bytes ?c = None" by simp
  have pre: "decode c x = decode ?c (?p @ x)" for x by (rule decode_prefix)
  show "decode c b = (c', b', Inl e) \<Longrightarrow> decode c (b @ d) = (c', b' @ d, Inl e)"
    using decode_laws_no_prefix(1) [OF np, of "?p @ b"] by (simp add: pre)
  show "decode c b = (c', b', Inr (Some m)) \<Longrightarrow> decode c (b @ d) = (c', b' @ d, Inr (Some m))"
    using decode_laws_no_prefix(2) [OF np, of "?p @ b"] by (simp add: pre)
  show "decode c b = (c', b', Inr None) \<Longrightarrow> decode c (b @ d) = decode c' (b' @ d)"
    using decode_laws_no_prefix(3) [OF np, of "?p @ b"] by (simp add: pre)
  have "codec_weight ?c (?p @ b) = codec_weight c b"
    by (simp add: codec_weight_def split: option.split)
  then show "decode c b = (c', b', Inr (Some m)) \<Longrightarrow> codec_weight c' b' < codec_weight c b"
    using decode_laws_no_prefix(4) [OF np, of "?p @ b"] by (simp add: pre)
qed


section \<open>Round trips\<close>

lemma frame_header_encode:
  assumes "msg_size m < 2 ^ 64"
  shows "\<exists>f. frame_header (encode m [] @ c) = Some (f, msg_size m, msg_payload m @ c) \<and>
    msg_of_frame f (msg_payload m) = wire_norm m"
proof (cases m rule: encode_cases)
  case short
  then show ?thesis
    by (simp add: frame_header_def msg_size_payload unat_byte_of_nat)
next
  case long
  then show ?thesis
    using assms by (simp add: frame_header_def msg_size_payload be_nat_be_bytes)
qed

lemma decode_encode:
  assumes "msg_size m \<le> CODEC_MAX_FRAME_SIZE"
  shows "decode codec_new (encode m [] @ c) = (codec_new, c, Inr (Some (wire_norm m)))"
proof -
  from assms have "msg_size m < 2 ^ 64" by (simp add: CODEC_MAX_FRAME_SIZE_def)
  from frame_header_encode [OF this, of c] assms show ?thesis
    by (auto simp: decode_no_prefix codec_new_def codec_read_header_eq codec_read_body_def msg_size_payload)
qed

lemma decode_from_buffer_encode:
  assumes "msg_size m < 2 ^ 64" "limit < 0 \<or> int (msg_size m) \<le> limit"
  shows "decode_from_buffer (manual_new limit) (encode m [] @ c) =
    (manual_new limit, c, Inr (Some (wire_norm m)))"
  using frame_header_encode [OF assms(1), of c] assms(2)
  by (auto simp: decode_from_buffer_def manual_new_def manual_read_header_eq manual_read_body_def
      msg_size_payload)

lemma fold_encode: "fold encode ms dst = dst @ concat (map (\<lambda>m. encode m []) ms)"
proof (induction ms arbitrary: dst)
  case (Cons m ms)
  then show ?case by (simp add: encode_append [of m dst])
qed simp

lemma manual_idle:
  "drain_all decode_from_buffer manual_weight (manual_new limit) [] = (manual_new limit, [], [], None)"
  by (simp add: drain_all_def manual_defs manual_new_def frame_header_def)

lemma codec_idle: "drain_all decode codec_weight codec_new [] = (codec_new, [], [], None)"
  by (simp add: drain_all_def decode_no_prefix codec_read_header_eq codec_new_def frame_header_def)

lemma decode_primed:
  "decode (prime_with_prefix pre codec_new) b = decode codec_new (pre @ b)"
  by (simp add: prime_with_prefix_def decode_def codec_new_def)

text \<open>
  C15. Messages written one after another into a buffer by \<^const>\<open>encode\<close> and received in chunks of
  any sizes come out of the data path's parser complete, unchanged and in order, without an error, as
  long as no frame exceeds the configured limit.
\<close>

theorem manual_stream_roundtrip:
  assumes "\<forall>m \<in> set ms. msg_size m < 2 ^ 64 \<and> (limit < 0 \<or> int (msg_size m) \<le> limit)"
    and "concat chunks = fold encode ms []"
  shows "feed decode_from_buffer manual_weight (manual_new limit) [] chunks =
    (manual_new limit, [], map wire_norm ms, None)"
proof (rule manual.feed_ok)
  have "decode_from_buffer (manual_new limit) (encode m [] @ c) =
      (manual_new limit, c, Inr (Some (wire_norm m)))" if "m \<in> set ms" for m c
    using assms(1) that by (intro decode_from_buffer_encode) auto
  from manual.drain_all_encoded [where enc = "\<lambda>m. encode m []" and c = "[]", OF this]
  show "drain_all decode_from_buffer manual_weight (manual_new limit) ([] @ concat chunks) =
      (manual_new limit, [], map wire_norm ms, None)"
    using assms(2)
    by (simp add: fold_encode manual_idle)
qed

theorem manual_stream_roundtrip_witness:
  "feed decode_from_buffer manual_weight (manual_new 2) [] [[0x01], [0x02, 0xAA, 0xBB, 0x00], [0x00]] =
    (manual_new 2, [], [with_more True (msg_from_vec [0xAA, 0xBB]), msg_from_vec []], None)"
  using manual_stream_roundtrip [of "[with_more True (msg_from_vec [0xAA, 0xBB]), msg_new]" 2
      "[[0x01], [0x02, 0xAA, 0xBB, 0x00], [0x00]]"]
  by (simp add: encode_def msg_defs with_more_def wire_norm_def zmtp_flags_def flag_defs)


text \<open>
  The tokio codec has the same round trip, including when part of the stream was handed over as a
  prefix by an earlier reader (\<^const>\<open>prime_with_prefix\<close>).
\<close>

theorem codec_stream_roundtrip:
  assumes "\<forall>m \<in> set ms. msg_size m \<le> CODEC_MAX_FRAME_SIZE"
    and "pre @ concat chunks = fold encode ms []"
  shows "feed decode codec_weight (prime_with_prefix pre codec_new) [] chunks =
    (codec_new, [], map wire_norm ms, None)"
proof (rule codec.feed_ok)
  have "decode codec_new (encode m [] @ c) = (codec_new, c, Inr (Some (wire_norm m)))"
    if "m \<in> set ms" for m c
    using assms(1) that by (intro decode_encode) auto
  from codec.drain_all_encoded [where enc = "\<lambda>m. encode m []" and c = "[]", OF this]
  have "drain_all decode codec_weight codec_new (pre @ concat chunks) = (codec_new, [], map wire_norm ms, None)"
    by (simp add: assms(2) fold_encode codec_idle)
  then show "drain_all decode codec_weight (prime_with_prefix pre codec_new) ([] @ concat chunks) =
      (codec_new, [], map wire_norm ms, None)"
    by (subst codec.drain_all_unfold) (simp add: codec.drain_all_unfold [of codec_new] decode_primed)
qed

theorem codec_stream_roundtrip_witness:
  "feed decode codec_weight (prime_with_prefix [0x04] codec_new) [] [[0x01, 0xAA, 0x00], [0x00]] =
    (codec_new, [], [set_flags \<lparr>MORE = False, COMMAND = True\<rparr> (msg_from_vec [0xAA]), msg_from_vec []], None)"
  using codec_stream_roundtrip [of "[set_flags \<lparr>MORE = False, COMMAND = True\<rparr> (msg_from_vec [0xAA]), msg_new]"
      "[0x04]" "[[0x01, 0xAA, 0x00], [0x00]]"]
  by (simp add: encode_def msg_defs wire_norm_def zmtp_flags_def flag_defs CODEC_MAX_FRAME_SIZE_def)

section \<open>The two decoders agree\<close>

definition codec_of :: "ZmtpManualParser \<Rightarrow> ZmtpCodec" where
  "codec_of p = \<lparr>decoding_state = (case mp_state p of ManualReadHeader \<Rightarrow> ReadHeader
      | ManualReadBody f n \<Rightarrow> ReadBody \<lparr>hdr_flags = f, hdr_size = n\<rparr>), prefix_bytes = None\<rparr>"

lemma decode_simulates:
  "max_msg_size p = int CODEC_MAX_FRAME_SIZE \<Longrightarrow>
    decode (codec_of p) b = (case decode_from_buffer p b of (p', b', r) \<Rightarrow> (codec_of p', b', r))"
  by (auto simp: decode_no_prefix codec_of_def codec_read_header_eq codec_read_body_def manual_defs
      split: ManualDecodingState.splits option.splits)

lemma decode_from_buffer_keeps_limit:
  "decode_from_buffer p b = (p', b', r) \<Longrightarrow> max_msg_size p' = max_msg_size p"
  by (auto simp: manual_defs split: ManualDecodingState.splits option.splits if_splits)

lemma codec_weight_of: "codec_weight (codec_of p) b = manual_weight p b"
  by (simp add: codec_weight_def manual_weight_def codec_of_def split: ManualDecodingState.split)

lemma codec_of_new: "codec_of (manual_new limit) = codec_new"
  by (simp add: codec_of_def manual_new_def codec_new_def)

text \<open>
  C14. The two decoders agree: on every byte stream, malformed ones included, and however it was cut
  into chunks on either side, the data path's parser limited to the codec's cap delivers the same frames
  and fails at the same point.
\<close>

theorem manual_codec_agree:
  assumes "concat chunks = concat chunks'"
  shows "observed (feed decode_from_buffer manual_weight (manual_new (int CODEC_MAX_FRAME_SIZE)) [] chunks) =
    observed (feed decode codec_weight codec_new [] chunks')"
proof -
  let ?p = "manual_new (int CODEC_MAX_FRAME_SIZE)"
  have "drain decode n (codec_of ?p) b =
      (case drain decode_from_buffer n ?p b of (p', b', ms, e) \<Rightarrow> (codec_of p', b', ms, e))" for n b
    by (rule drain_simulation [where I = "\<lambda>p. max_msg_size p = int CODEC_MAX_FRAME_SIZE"])
      (auto simp: decode_simulates decode_from_buffer_keeps_limit manual_new_def)
  then show ?thesis
    unfolding manual.feed_observed codec.feed_observed drain_all_def assms
      codec_of_new [of "int CODEC_MAX_FRAME_SIZE", symmetric] codec_weight_of
    by (simp add: observed_def del: drain.simps split: prod.split)
qed

theorem manual_codec_agree_witness:
  "observed (feed decode_from_buffer manual_weight (manual_new (int CODEC_MAX_FRAME_SIZE)) [] [[0x00], [0x01, 0x07]]) =
    observed (feed decode codec_weight codec_new [] [[0x00, 0x01], [], [0x07]])"
  using manual_codec_agree [of "[[0x00], [0x01, 0x07]]" "[[0x00, 0x01], [], [0x07]]"] by simp


section \<open>Limits\<close>

definition manual_wf :: "int \<Rightarrow> ZmtpManualParser \<Rightarrow> bool" where
  "manual_wf limit p = (max_msg_size p = limit \<and>
    (case mp_state p of ManualReadHeader \<Rightarrow> True | ManualReadBody f n \<Rightarrow> int n \<le> limit))"

lemma length_frame_header_None: "frame_header b = None \<Longrightarrow> length b \<le> 8"
  by (auto simp: frame_header_def Let_def split: list.splits if_splits)

lemma msg_size_of_frame [simp]: "msg_size (msg_of_frame f body) = length body"
  by (simp add: msg_of_frame_def set_flags_def msg_size_def)

lemma manual_wf_step:
  assumes "0 \<le> limit" "manual_wf limit p" "decode_from_buffer p b = (p', b', r)"
  shows "manual_wf limit p'" and "r = Inr (Some m) \<Longrightarrow> int (msg_size m) \<le> limit"
  using assms
  by (auto simp: manual_wf_def manual_defs
      split: ManualDecodingState.splits option.splits if_splits)

lemma manual_wf_waiting:
  assumes "0 \<le> limit" "manual_wf limit p" "decode_from_buffer p b = (p, b, Inr None)"
  shows "length b \<le> max 8 (nat limit)"
  using assms length_frame_header_None [of b]
  by (auto simp: manual_wf_def manual_defs
      split: ManualDecodingState.splits option.splits if_splits)

text \<open>
  The size limit holds: whatever the peer sends, no frame above a non-negative limit is delivered, and as
  long as the connection is up no more than the limit (or an incomplete header) stays buffered.
\<close>

theorem manual_limit:
  assumes "0 \<le> limit"
    and "feed decode_from_buffer manual_weight (manual_new limit) [] chunks = (p, buf, ms, e)"
  shows "(\<forall>m \<in> set ms. int (msg_size m) \<le> limit) \<and> (e = None \<longrightarrow> length buf \<le> max 8 (nat limit))"
proof -
  obtain p1 b1 where d: "drain_all decode_from_buffer manual_weight (manual_new limit) (concat chunks) =
      (p1, b1, ms, e)"
    using manual.feed_observed [of "manual_new limit" "[]" chunks] assms(2)
    by (cases "drain_all decode_from_buffer manual_weight (manual_new limit) (concat chunks)") auto
  have wf: "manual_wf limit p1 \<and> (\<forall>m \<in> set ms. int (msg_size m) \<le> limit)"
    by (rule drain_invariant [OF manual_wf_step(1) [OF assms(1)] manual_wf_step(2) [OF assms(1)] _
          d [unfolded drain_all_def]]) (auto simp: manual_wf_def manual_new_def)
  have "length buf \<le> max 8 (nat limit)" if "e = None"
  proof -
    from manual.feed_ok [of "manual_new limit" "[]" chunks] d that assms(2)
    have "p1 = p" "b1 = buf" by simp_all
    moreover from d that have "decode_from_buffer p1 b1 = (p1, b1, Inr None)"
      by (auto intro: manual.drain_all_ended)
    ultimately show ?thesis using wf manual_wf_waiting [OF assms(1)] by blast
  qed
  with wf show ?thesis by blast
qed

theorem manual_limit_witness:
  "int (msg_size (msg_from_vec [0x07])) \<le> 1 \<and> length [0x00 :: byte] \<le> max 8 (nat 1)"
  using manual_limit [of 1 "[[0x00, 0x01, 0x07], [0x00]]" "manual_new 1" "[0x00]" "[msg_from_vec [0x07]]" None]
  by (simp add: drain_all_def manual_weight_def manual_new_def decode_from_buffer_def manual_read_header_def
      manual_read_body_def msg_of_frame_def set_flags_def msg_defs flag_defs)

end
