(* ===== verification/Framer.thy ===== *)
theory Framer
  imports Zmtp_Codec
begin

text \<open>
  The framers between the transport and the session (\<^verbatim>\<open>core/src/security/framer.rs\<close>,
  \<^verbatim>\<open>core/src/security/cipher.rs\<close>): plain ZMTP frames for NULL and PLAIN, and length-prefixed encrypted
  frames for CURVE and Noise.  The trait \<^verbatim>\<open>IDataCipher\<close> is the record \<open>data_cipher\<close>.
\<close>

section \<open>Ciphers and framers\<close>

record 'c data_cipher =
  cipher_encrypt :: "'c \<Rightarrow> bytes \<Rightarrow> 'c \<times> bytes res"
  cipher_decrypt :: "'c \<Rightarrow> bytes \<Rightarrow> 'c \<times> bytes res"

definition PassThroughDataCipher :: "unit data_cipher" where
  "PassThroughDataCipher =
    \<lparr>cipher_encrypt = \<lambda>c plaintext. (c, Inr plaintext), cipher_decrypt = \<lambda>c ciphertext. (c, Inr ciphertext)\<rparr>"

record NullFramer =
  null_parser :: ZmtpManualParser

definition null_framer_new :: "int \<Rightarrow> NullFramer" where
  "null_framer_new limit = \<lparr>null_parser = manual_new limit\<rparr>"

definition null_try_read_msg :: "NullFramer \<Rightarrow> bytes \<Rightarrow> NullFramer \<times> bytes \<times> Msg option res" where
  "null_try_read_msg fr network_buffer =
    (case decode_from_buffer (null_parser fr) network_buffer of
       (p, b, r) \<Rightarrow> (fr\<lparr>null_parser := p\<rparr>, b, r))"

definition null_write_msg_multipart :: "NullFramer \<Rightarrow> Msg list \<Rightarrow> NullFramer \<times> bytes res" where
  "null_write_msg_multipart fr msgs = (fr, Inr (fold encode msgs []))"

record 'c LengthPrefixedFramer =
  lp_cipher :: 'c
  lp_parser :: ZmtpManualParser
  decrypted_buffer :: bytes

definition lp_framer_new :: "'c \<Rightarrow> int \<Rightarrow> 'c LengthPrefixedFramer" where
  "lp_framer_new c limit = \<lparr>lp_cipher = c, lp_parser = manual_new limit, decrypted_buffer = []\<rparr>"

function lp_try_read_msg ::
  "'c data_cipher \<Rightarrow> 'c LengthPrefixedFramer \<Rightarrow> bytes \<Rightarrow> 'c LengthPrefixedFramer \<times> bytes \<times> Msg option res" where
  "lp_try_read_msg C fr network_buffer =
    (case decode_from_buffer (lp_parser fr) (decrypted_buffer fr) of (p, d, r) \<Rightarrow>
       let fr = fr\<lparr>lp_parser := p, decrypted_buffer := d\<rparr>
       in case r of
            Inl e \<Rightarrow> (fr, network_buffer, Inl e)
          | Inr (Some msg) \<Rightarrow> (fr, network_buffer, Inr (Some msg))
          | Inr None \<Rightarrow>
              if length network_buffer < 2 then (fr, network_buffer, Inr None)
              else
                let len = be_nat (take 2 network_buffer)
                in if length network_buffer < 2 + len then (fr, network_buffer, Inr None)
                   else
                     let encrypted_frame = take len (drop 2 network_buffer);
                         rest = drop (2 + len) network_buffer
                     in case cipher_decrypt C (lp_cipher fr) encrypted_frame of
                          (c, Inl e) \<Rightarrow> (fr\<lparr>lp_cipher := c\<rparr>, rest, Inl e)
                        | (c, Inr plaintext) \<Rightarrow>
                            lp_try_read_msg C (fr\<lparr>lp_cipher := c, decrypted_buffer := d @ plaintext\<rparr>) rest)"
  by pat_completeness auto
termination
  by (relation "measure (\<lambda>(C, fr, b). length b)") auto

definition lp_write_msg_multipart ::
  "'c data_cipher \<Rightarrow> 'c LengthPrefixedFramer \<Rightarrow> Msg list \<Rightarrow> 'c LengthPrefixedFramer \<times> bytes res" where
  "lp_write_msg_multipart C fr msgs =
    (case cipher_encrypt C (lp_cipher fr) (fold encode msgs []) of
       (c, Inl e) \<Rightarrow> (fr\<lparr>lp_cipher := c\<rparr>, Inl e)
     | (c, Inr ciphertext) \<Rightarrow>
         (fr\<lparr>lp_cipher := c\<rparr>, Inr (be_bytes 2 (length ciphertext) @ ciphertext)))"


section \<open>The encrypted stream as a plain one\<close>

text \<open>The plaintext that the complete frames of a buffer carry, and where reading stops.\<close>

function lp_open :: "'c data_cipher \<Rightarrow> 'c \<Rightarrow> bytes \<Rightarrow> 'c \<times> bytes \<times> bytes \<times> ZmqError option" where
  "lp_open C c b =
    (if length b < 2 \<or> length b < 2 + be_nat (take 2 b) then (c, [], b, None)
     else
       let len = be_nat (take 2 b); rest = drop (2 + len) b
       in case cipher_decrypt C c (take len (drop 2 b)) of
            (c', Inl e) \<Rightarrow> (c', [], rest, Some e)
          | (c', Inr pt) \<Rightarrow> (case lp_open C c' rest of (c2, pts, r, e) \<Rightarrow> (c2, pt @ pts, r, e)))"
  by pat_completeness auto
termination
  by (relation "measure (\<lambda>(C, c, b). length b)") auto

declare lp_try_read_msg.simps [simp del] lp_open.simps [simp del]

definition lp_plain :: "'c data_cipher \<Rightarrow> 'c \<Rightarrow> bytes \<Rightarrow> bytes" where
  "lp_plain C c b = fst (snd (lp_open C c b))"

definition lp_weight :: "'c data_cipher \<Rightarrow> 'c LengthPrefixedFramer \<Rightarrow> bytes \<Rightarrow> nat" where
  "lp_weight C fr b = manual_weight (lp_parser fr) (decrypted_buffer fr @ lp_plain C (lp_cipher fr) b)"

definition complete_frame :: "bytes \<Rightarrow> bool" where
  "complete_frame b \<longleftrightarrow> \<not> (length b < 2 \<or> length b < 2 + be_nat (take 2 b))"

definition next_frame :: "bytes \<Rightarrow> bytes" where
  "next_frame b = take (be_nat (take 2 b)) (drop 2 b)"

definition after_frame :: "bytes \<Rightarrow> bytes" where
  "after_frame b = drop (2 + be_nat (take 2 b)) b"

lemma complete_frame_append:
  "complete_frame b \<Longrightarrow> complete_frame (b @ c) \<and> next_frame (b @ c) = next_frame b \<and>
    after_frame (b @ c) = after_frame b @ c"
  by (auto simp: complete_frame_def next_frame_def after_frame_def)

lemma after_frame_shorter: "complete_frame b \<Longrightarrow> length (after_frame b) < length b"
  by (auto simp: complete_frame_def after_frame_def)

text \<open>One turn of the reading loop.\<close>

lemma lp_try_read_msg_turn:
  "lp_try_read_msg C fr b =
    (case decode_from_buffer (lp_parser fr) (decrypted_buffer fr) of (p, d, r) \<Rightarrow>
       case r of
         Inl e \<Rightarrow> (fr\<lparr>lp_parser := p, decrypted_buffer := d\<rparr>, b, Inl e)
       | Inr (Some msg) \<Rightarrow> (fr\<lparr>lp_parser := p, decrypted_buffer := d\<rparr>, b, Inr (Some msg))
       | Inr None \<Rightarrow>
           if \<not> complete_frame b then (fr\<lparr>lp_parser := p, decrypted_buffer := d\<rparr>, b, Inr None)
           else
             (case cipher_decrypt C (lp_cipher fr) (next_frame b) of
                (c, Inl e) \<Rightarrow> (fr\<lparr>lp_parser := p, decrypted_buffer := d, lp_cipher := c\<rparr>, after_frame b, Inl e)
              | (c, Inr pt) \<Rightarrow>
                  lp_try_read_msg C (fr\<lparr>lp_parser := p, lp_cipher := c, decrypted_buffer := d @ pt\<rparr>)
                    (after_frame b)))"
proof -
  obtain p d r where d: "decode_from_buffer (lp_parser fr) (decrypted_buffer fr) = (p, d, r)"
    by (rule prod_cases3)
  show ?thesis
    unfolding lp_try_read_msg.simps [of C fr b] d complete_frame_def next_frame_def after_frame_def
    by (simp add: Let_def split: sum.split option.split)
qed

lemma lp_open_turn:
  "lp_open C c b =
    (if \<not> complete_frame b then (c, [], b, None)
     else
       (case cipher_decrypt C c (next_frame b) of
          (c', Inl e) \<Rightarrow> (c', [], after_frame b, Some e)
        | (c', Inr pt) \<Rightarrow> (case lp_open C c' (after_frame b) of (c2, pts, r, e) \<Rightarrow> (c2, pt @ pts, r, e))))"
  unfolding lp_open.simps [of C c b] complete_frame_def next_frame_def after_frame_def Let_def by simp

lemma lp_plain_turn:
  "lp_plain C c b =
    (if \<not> complete_frame b then []
     else
       (case cipher_decrypt C c (next_frame b) of
          (c', Inl e) \<Rightarrow> []
        | (c', Inr pt) \<Rightarrow> pt @ lp_plain C c' (after_frame b)))"
  unfolding lp_plain_def lp_open_turn [of C c b] by (auto split: prod.splits sum.splits)


lemma manual_waiting:
  "decode_from_buffer p b = (p', b', Inr None) \<Longrightarrow> decode_from_buffer p' b' = (p', b', Inr None)"
  using manual.dec_more [of p b p' b' "[]"] by simp

lemma lp_append:
  "lp_try_read_msg C fr b = (fr', b', r) \<Longrightarrow>
    (r \<noteq> Inr None \<longrightarrow> lp_try_read_msg C fr (b @ x) = (fr', b' @ x, r)) \<and>
    (r = Inr None \<longrightarrow> lp_try_read_msg C fr (b @ x) = lp_try_read_msg C fr' (b' @ x))"
proof (induction "length b" arbitrary: fr b rule: less_induct)
  case less
  obtain p d r1 where d: "decode_from_buffer (lp_parser fr) (decrypted_buffer fr) = (p, d, r1)"
    by (rule prod_cases3)
  note turn = lp_try_read_msg_turn [of C fr b] lp_try_read_msg_turn [of C fr "b @ x"]
  show ?case
  proof (cases "r1 = Inr None")
    case False
    then show ?thesis using less.prems d by (auto simp: turn split: sum.splits option.splits)
  next
    case True
    note wait = manual_waiting [OF d [unfolded True]]
    show ?thesis
    proof (cases "complete_frame b")
      case False
      then have "fr' = fr\<lparr>lp_parser := p, decrypted_buffer := d\<rparr>" "b' = b" "r = Inr None"
        using less.prems d True by (auto simp: turn(1))
      then show ?thesis
        using d True wait 
        by (simp add: turn(2) lp_try_read_msg_turn [of C "fr\<lparr>lp_parser := p, decrypted_buffer := d\<rparr>" "b @ x"])
    next
      case complete: True
      obtain c r2 where c: "cipher_decrypt C (lp_cipher fr) (next_frame b) = (c, r2)" by fastforce
      note app = complete_frame_append [OF complete, of x]
      show ?thesis
      proof (cases r2)
        case (Inl e)
        then show ?thesis using less.prems d True complete c app by (simp add: turn) blast
      next
        case (Inr pt)
        then show ?thesis
          using less.prems d True complete c app less.hyps [OF after_frame_shorter [OF complete]]
          by (simp add: turn)
      qed
    qed
  qed
qed

text \<open>A message read from the encrypted stream is read from the plain one.\<close>

lemma lp_item_plain:
  "lp_try_read_msg C fr b = (fr', b', Inr (Some m)) \<Longrightarrow>
    decode_from_buffer (lp_parser fr) (decrypted_buffer fr @ lp_plain C (lp_cipher fr) b) =
      (lp_parser fr', decrypted_buffer fr' @ lp_plain C (lp_cipher fr') b', Inr (Some m))"
proof (induction "length b" arbitrary: fr b rule: less_induct)
  case less
  obtain p d r1 where d: "decode_from_buffer (lp_parser fr) (decrypted_buffer fr) = (p, d, r1)"
    by (rule prod_cases3)
  note turn = lp_try_read_msg_turn [of C fr b]
  show ?case
  proof (cases "r1 = Inr None")
    case False
    then have "r1 = Inr (Some m)" "fr' = fr\<lparr>lp_parser := p, decrypted_buffer := d\<rparr>" "b' = b"
      using less.prems d by (auto simp: turn split: sum.splits option.splits)
    then show ?thesis using d by (simp add: manual.dec_item)
  next
    case True
    then have complete: "complete_frame b" using less.prems d by (auto simp: turn split: if_splits)
    obtain c r2 where c: "cipher_decrypt C (lp_cipher fr) (next_frame b) = (c, r2)" by fastforce
    then obtain pt where r2: "r2 = Inr pt" using less.prems d True complete by (auto simp: turn split: sum.splits)
    from manual.dec_more [OF d [unfolded True]]
    have "decode_from_buffer (lp_parser fr) (decrypted_buffer fr @ lp_plain C (lp_cipher fr) b) =
        decode_from_buffer p ((d @ pt) @ lp_plain C c (after_frame b))"
      using c r2 complete by (simp add: lp_plain_turn [of C "lp_cipher fr" b])
    then show ?thesis
      using less.hyps [OF after_frame_shorter [OF complete],
          of "fr\<lparr>lp_parser := p, lp_cipher := c, decrypted_buffer := d @ pt\<rparr>"] less.prems d True c r2 complete
      by (simp add: turn)
  qed
qed

interpretation lp: incremental_decoder "lp_try_read_msg C" "lp_weight C" for C :: "'c data_cipher"
proof
  fix s s' :: "'c LengthPrefixedFramer" and b b' x :: bytes and e m
  show "lp_try_read_msg C s b = (s', b', Inl e) \<Longrightarrow> lp_try_read_msg C s (b @ x) = (s', b' @ x, Inl e)"
    using lp_append [of C s b s' b' _ x] by auto
  show "lp_try_read_msg C s b = (s', b', Inr (Some m)) \<Longrightarrow>
      lp_try_read_msg C s (b @ x) = (s', b' @ x, Inr (Some m))"
    using lp_append [of C s b s' b' _ x] by auto
  show "lp_try_read_msg C s b = (s', b', Inr None) \<Longrightarrow>
      lp_try_read_msg C s (b @ x) = lp_try_read_msg C s' (b' @ x)"
    using lp_append [of C s b s' b' _ x] by auto
  show "lp_try_read_msg C s b = (s', b', Inr (Some m)) \<Longrightarrow> lp_weight C s' b' < lp_weight C s b"
    unfolding lp_weight_def by (rule manual.dec_weight [OF lp_item_plain])
qed


section \<open>Round trip of the encrypted stream\<close>

lemma lp_sim_step:
  assumes "lp_open C (lp_cipher fr) b = (c', pt, rest, None)"
    and "lp_try_read_msg C fr b = (fr2, b2, r)"
  shows "\<exists>pt2. lp_open C (lp_cipher fr2) b2 = (c', pt2, rest, None) \<and>
    decode_from_buffer (lp_parser fr) (decrypted_buffer fr @ pt) = (lp_parser fr2, decrypted_buffer fr2 @ pt2, r) \<and>
    (r = Inr None \<longrightarrow> pt2 = [] \<and> b2 = rest \<and> lp_cipher fr2 = c')"
  using assms
proof (induction "length b" arbitrary: fr b pt rule: less_induct)
  case less
  obtain p d r1 where d: "decode_from_buffer (lp_parser fr) (decrypted_buffer fr) = (p, d, r1)"
    by (rule prod_cases3)
  note turn = lp_try_read_msg_turn [of C fr b] and op = lp_open_turn [of C "lp_cipher fr" b]
  show ?case
  proof (cases "r1 = Inr None")
    case False
    then have "fr2 = fr\<lparr>lp_parser := p, decrypted_buffer := d\<rparr>" "b2 = b" "r = r1"
      using less.prems(2) d by (auto simp: turn split: sum.splits option.splits)
    then show ?thesis
      using d False less.prems(1)
      by (cases r1) (auto simp: manual.dec_item manual.dec_error not_None_eq)
  next
    case True
    note more = manual.dec_more [OF d [unfolded True]] and wait = manual_waiting [OF d [unfolded True]]
    show ?thesis
    proof (cases "complete_frame b")
      case False
      then have "fr2 = fr\<lparr>lp_parser := p, decrypted_buffer := d\<rparr>" "b2 = b" "r = Inr None"
        using less.prems(2) d True by (auto simp: turn)
      moreover have "c' = lp_cipher fr" "pt = []" "rest = b"
        using less.prems(1) False by (auto simp: op)
      ultimately show ?thesis using d True less.prems(1) by simp
    next
      case complete: True
      obtain c r2 where c: "cipher_decrypt C (lp_cipher fr) (next_frame b) = (c, r2)" by fastforce
      then obtain p1 where r2: "r2 = Inr p1"
        using less.prems(1) complete by (auto simp: op split: sum.splits)
      then obtain pts where pts: "lp_open C c (after_frame b) = (c', pts, rest, None)" "pt = p1 @ pts"
        using less.prems(1) complete c by (auto simp: op split: prod.splits)
      show ?thesis
        using less.hyps [OF after_frame_shorter [OF complete],
            of "fr\<lparr>lp_parser := p, lp_cipher := c, decrypted_buffer := d @ p1\<rparr>" pts]
          less.prems(2) d True complete c r2 pts more [of pt]
        by (simp add: turn)
    qed
  qed
qed

lemma lp_sim_drain:
  assumes "lp_open C (lp_cipher fr) b = (c', pt, rest, None)"
    and "drain decode_from_buffer n (lp_parser fr) (decrypted_buffer fr @ pt) = (p', d', ms, None)"
    and "manual_weight (lp_parser fr) (decrypted_buffer fr @ pt) < n"
  shows "drain (lp_try_read_msg C) n fr b =
    (\<lparr>lp_cipher = c', lp_parser = p', decrypted_buffer = d'\<rparr>, rest, ms, None)"
  using assms
proof (induction n arbitrary: fr b pt ms)
  case (Suc n)
  obtain fr2 b2 r where l: "lp_try_read_msg C fr b = (fr2, b2, r)" by (rule prod_cases3)
  obtain pt2 where s: "lp_open C (lp_cipher fr2) b2 = (c', pt2, rest, None)"
      "decode_from_buffer (lp_parser fr) (decrypted_buffer fr @ pt) = (lp_parser fr2, decrypted_buffer fr2 @ pt2, r)"
      "r = Inr None \<longrightarrow> pt2 = [] \<and> b2 = rest \<and> lp_cipher fr2 = c'"
    using lp_sim_step [OF Suc.prems(1) l] by blast
  show ?case
  proof (cases "\<exists>m. r = Inr (Some m)")
    case True
    then obtain m where r: "r = Inr (Some m)" ..
    obtain ms' where ms': "ms = m # ms'"
        "drain decode_from_buffer n (lp_parser fr2) (decrypted_buffer fr2 @ pt2) = (p', d', ms', None)"
      using Suc.prems(2) s(2) r by (auto split: prod.splits)
    have "manual_weight (lp_parser fr2) (decrypted_buffer fr2 @ pt2) < n"
      using manual.dec_weight [OF s(2) [unfolded r]] Suc.prems(3) by simp
    from Suc.IH [OF s(1) ms'(2) this] show ?thesis using l r ms'(1) by simp
  next
    case False
    then have "r = Inr None" using Suc.prems(2) s(2) by (cases r) auto
    then show ?thesis using Suc.prems(2) s l by (cases fr2) auto
  qed
qed simp

text \<open>
  What the data phase relies on: the receiver's cipher opens, in order, what the sender's cipher
  sealed.  \<open>R\<close> relates the states of the two ciphers.
\<close>

definition cipher_in_step :: "'s data_cipher \<Rightarrow> 'r data_cipher \<Rightarrow> ('s \<Rightarrow> 'r \<Rightarrow> bool) \<Rightarrow> bool" where
  "cipher_in_step S D R \<longleftrightarrow>
    (\<forall>s r p s' ct. R s r \<longrightarrow> cipher_encrypt S s p = (s', Inr ct) \<longrightarrow>
      (\<exists>r'. cipher_decrypt D r ct = (r', Inr p) \<and> R s' r'))"

text \<open>Sending batches of messages one after another; \<^const>\<open>None\<close> if one of them cannot be sent.\<close>

fun lp_send :: "'c data_cipher \<Rightarrow> 'c LengthPrefixedFramer \<Rightarrow> Msg list list \<Rightarrow>
    ('c LengthPrefixedFramer \<times> bytes list) option" where
  "lp_send C fr [] = Some (fr, [])"
| "lp_send C fr (msgs # batches) =
    (case lp_write_msg_multipart C fr msgs of
       (fr', Inl e) \<Rightarrow> None
     | (fr', Inr out) \<Rightarrow> map_option (\<lambda>(fr2, outs). (fr2, out # outs)) (lp_send C fr' batches))"

lemma lp_open_sent:
  assumes "cipher_in_step S D R" "R (lp_cipher fr) c" "lp_send S fr batches = Some (fr', outs)"
    and "\<forall>out \<in> set outs. length out < 65538"
  shows "\<exists>c'. lp_open D c (concat outs) =
      (c', concat (map (\<lambda>m. encode m []) (concat batches)), [], None) \<and> R (lp_cipher fr') c'"
  using assms(2-4)
proof (induction batches arbitrary: fr c outs)
  case Nil
  then show ?case by (auto simp: lp_open_turn [of D c] complete_frame_def)
next
  case (Cons msgs batches)
  obtain s' r where e: "cipher_encrypt S (lp_cipher fr) (fold encode msgs []) = (s', r)" by fastforce
  then obtain ct outs' where r: "r = Inr ct" and outs: "outs = (be_bytes 2 (length ct) @ ct) # outs'"
      and rec: "lp_send S (fr\<lparr>lp_cipher := s'\<rparr>) batches = Some (fr', outs')"
    using Cons.prems(2) by (auto simp: lp_write_msg_multipart_def split: sum.splits prod.splits)
  then obtain c1 where c1: "cipher_decrypt D c ct = (c1, Inr (fold encode msgs []))" "R s' c1"
    using assms(1) Cons.prems(1) e unfolding cipher_in_step_def by blast
  have len: "length ct < 65536" using Cons.prems(3) outs by simp
  then have "be_nat (be_bytes 2 (length ct)) = length ct" by (simp add: be_nat_be_bytes)
  then have "complete_frame (concat outs)" "next_frame (concat outs) = ct" "after_frame (concat outs) = concat outs'"
    by (simp_all add: outs complete_frame_def next_frame_def after_frame_def)
  moreover obtain c' where "lp_open D c1 (concat outs') =
      (c', concat (map (\<lambda>m. encode m []) (concat batches)), [], None)" "R (lp_cipher fr') c'"
    using Cons.IH [OF _ rec, of c1] c1(2) Cons.prems(3) outs by auto
  ultimately show ?case
    using c1(1) by (simp add: lp_open_turn [of D c] fold_encode)
qed


lemma lp_stream_delivery:
  assumes "cipher_in_step S D R" and "R (lp_cipher fr) c"
    and "lp_send S fr batches = Some (fr', outs)" and "\<forall>out \<in> set outs. length out < 65538"
    and "\<forall>m \<in> set (concat batches). msg_size m < 2 ^ 64 \<and> (limit < 0 \<or> int (msg_size m) \<le> limit)"
    and "concat chunks = concat outs"
  shows "\<exists>c'. feed (lp_try_read_msg D) (lp_weight D) (lp_framer_new c limit) [] chunks =
      (lp_framer_new c' limit, [], map wire_norm (concat batches), None) \<and> R (lp_cipher fr') c'"
proof -
  let ?pt = "concat (map (\<lambda>m. encode m []) (concat batches))" and ?new = "lp_framer_new c limit"
  obtain c' where o: "lp_open D c (concat outs) = (c', ?pt, [], None)" "R (lp_cipher fr') c'"
    using lp_open_sent [OF assms(1-4)] by blast
  have "drain_all decode_from_buffer manual_weight (manual_new limit) (?pt @ []) =
      (manual_new limit, [], map wire_norm (concat batches), None)"
    using assms(5) by (subst manual.drain_all_encoded) (auto simp: decode_from_buffer_encode manual_idle)
  then have "drain_all (lp_try_read_msg D) (lp_weight D) ?new (concat outs) =
      (lp_framer_new c' limit, [], map wire_norm (concat batches), None)"
    using lp_sim_drain [of D ?new "concat outs" c' ?pt "[]" _ "manual_new limit" "[]"] o(1)
    by (simp add: drain_all_def lp_weight_def lp_plain_def lp_framer_new_def del: drain.simps)
  then have "feed (lp_try_read_msg D) (lp_weight D) ?new [] chunks =
      (lp_framer_new c' limit, [], map wire_norm (concat batches), None)"
    using lp.feed_ok [of D ?new "[]" chunks] assms(6) by simp
  then show ?thesis using o(2) by blast
qed

text \<open>
  C28. The encrypted data phase delivers what was sent: when the two ciphers stay in step, batches of
  messages written by the sender's framer, each fitting its two-byte length prefix, and received in
  chunks of any sizes come out of the receiver's framer complete, unchanged and in order, and leave the
  ciphers in step.
\<close>

theorem lp_stream_roundtrip:
  assumes "cipher_in_step S D R" and "R (lp_cipher fr) c"
    and "lp_send S fr batches = Some (fr', outs)" and "\<forall>out \<in> set outs. length out < 65538"
    and "\<forall>m \<in> set (concat batches). msg_size m < 2 ^ 64 \<and> (limit < 0 \<or> int (msg_size m) \<le> limit)"
    and "concat chunks = concat outs"
  shows "\<exists>c'. feed (lp_try_read_msg D) (lp_weight D) (lp_framer_new c limit) [] chunks =
      (lp_framer_new c' limit, [], map wire_norm (concat batches), None) \<and> R (lp_cipher fr') c'"
  by (rule lp_stream_delivery [OF assms])


lemma pass_through_in_step: "cipher_in_step PassThroughDataCipher PassThroughDataCipher (\<lambda>_ _. True)"
  by (simp add: cipher_in_step_def PassThroughDataCipher_def)

theorem lp_stream_roundtrip_witness:
  "\<exists>c'. feed (lp_try_read_msg PassThroughDataCipher) (lp_weight PassThroughDataCipher) (lp_framer_new () (-1)) []
      [[0], [3, 0], [1, 9]] = (lp_framer_new c' (-1), [], [msg_from_vec [9]], None)"
proof -
  have "lp_send PassThroughDataCipher (lp_framer_new () (-1)) [[msg_from_vec [9]]] =
      Some (lp_framer_new () (-1), [[0, 3, 0, 1, 9]])"
    by (simp add: lp_write_msg_multipart_def PassThroughDataCipher_def lp_framer_new_def encode_def
        zmtp_flags_def msg_defs wire_eval)
  from lp_stream_roundtrip [OF pass_through_in_step TrueI this, of "-1" "[[0], [3, 0], [1, 9]]" "()"]
  show ?thesis by (simp add: wire_norm_def msg_defs)
qed

text \<open>
  A message too long for the length prefix breaks the stream: when the ciphertext has 65536 bytes or
  more, the framer still reports success, but the prefix it writes announces only the length modulo
  65536, so that the peer cuts the encrypted frame short.
\<close>

theorem lp_write_truncates_length:
  assumes "cipher_encrypt C (lp_cipher fr) (fold encode msgs []) = (c, Inr ciphertext)"
    and "65536 \<le> length ciphertext"
  shows "\<exists>out. lp_write_msg_multipart C fr msgs = (fr\<lparr>lp_cipher := c\<rparr>, Inr out) \<and> complete_frame out \<and>
    next_frame out = take (length ciphertext mod 65536) ciphertext \<and> length (next_frame out) < length ciphertext"
proof -
  have "be_nat (be_bytes 2 (length ciphertext)) = length ciphertext mod 65536" by (simp add: be_nat_be_bytes)
  moreover have "length ciphertext mod 65536 < length ciphertext"
    using assms(2) mod_less_divisor [of 65536 "length ciphertext"] by linarith
  ultimately show ?thesis
    using assms(1) by (simp add: lp_write_msg_multipart_def complete_frame_def next_frame_def)
qed

theorem lp_write_truncates_length_witness:
  "\<exists>out. lp_write_msg_multipart PassThroughDataCipher (lp_framer_new () (-1)) [msg_from_vec (replicate 65536 0)] =
      (lp_framer_new () (-1), Inr out) \<and> length (next_frame out) < length (encode (msg_from_vec (replicate 65536 0)) [])"
proof -
  have l: "65536 \<le> length (encode (msg_from_vec (replicate 65536 0)) [])" by (simp add: encode_def Let_def)
  have e: "cipher_encrypt PassThroughDataCipher (lp_cipher (lp_framer_new () (-1)))
      (fold encode [msg_from_vec (replicate 65536 0)] []) = ((), Inr (encode (msg_from_vec (replicate 65536 0)) []))"
    by (simp add: PassThroughDataCipher_def)
  from lp_write_truncates_length [OF e l] show ?thesis by (auto simp: lp_framer_new_def)
qed

end
