(* ===== verification/Options.thy ===== *)
theory Options
  imports Message
begin

text \<open>
  Socket options (\<^verbatim>\<open>core/src/socket/options.rs\<close>): the option values, their parsers, setting and reading an
  option, and the engine configuration derived from them.  The model has every cargo feature on (CURVE,
  Noise, io_uring).  Integers are \<^typ>\<open>int\<close> with the two's complement encoding of their width written out;
  \<^verbatim>\<open>to_ne_bytes\<close> and \<^verbatim>\<open>from_ne_bytes\<close> are little-endian, the byte order of the supported targets.  Durations
  are milliseconds; text options are their UTF-8 bytes.
\<close>

section \<open>Option numbers\<close>

definition SNDHWM :: int where "SNDHWM = 23"
definition RCVHWM :: int where "RCVHWM = 24"
definition LINGER :: int where "LINGER = 17"
definition SUBSCRIBE :: int where "SUBSCRIBE = 6"
definition UNSUBSCRIBE :: int where "UNSUBSCRIBE = 7"
definition ROUTING_ID :: int where "ROUTING_ID = 5"
definition RECONNECT_IVL :: int where "RECONNECT_IVL = 18"
definition RECONNECT_IVL_MAX :: int where "RECONNECT_IVL_MAX = 21"
definition RCVTIMEO :: int where "RCVTIMEO = 27"
definition SNDTIMEO :: int where "SNDTIMEO = 28"
definition LAST_ENDPOINT :: int where "LAST_ENDPOINT = 32"
definition TCP_KEEPALIVE :: int where "TCP_KEEPALIVE = 34"
definition TCP_KEEPALIVE_IDLE :: int where "TCP_KEEPALIVE_IDLE = 35"
definition TCP_KEEPALIVE_CNT :: int where "TCP_KEEPALIVE_CNT = 36"
definition TCP_KEEPALIVE_INTVL :: int where "TCP_KEEPALIVE_INTVL = 37"
definition HEARTBEAT_IVL :: int where "HEARTBEAT_IVL = 38"
definition HEARTBEAT_TIMEOUT :: int where "HEARTBEAT_TIMEOUT = 39"
definition HEARTBEAT_TTL :: int where "HEARTBEAT_TTL = 40"
definition HANDSHAKE_IVL :: int where "HANDSHAKE_IVL = 41"
definition ROUTER_MANDATORY :: int where "ROUTER_MANDATORY = 33"
definition AUTO_DELIMITER :: int where "AUTO_DELIMITER = 42"
definition ZMTP2_ALLOWED :: int where "ZMTP2_ALLOWED = 1180"
definition ZAP_DOMAIN :: int where "ZAP_DOMAIN = 55"
definition PLAIN_SERVER :: int where "PLAIN_SERVER = 44"
definition PLAIN_USERNAME :: int where "PLAIN_USERNAME = 45"
definition PLAIN_PASSWORD :: int where "PLAIN_PASSWORD = 46"
definition NOISE_XX_ENABLED :: int where "NOISE_XX_ENABLED = 1202"
definition NOISE_XX_STATIC_SECRET_KEY :: int where "NOISE_XX_STATIC_SECRET_KEY = 1200"
definition NOISE_XX_REMOTE_STATIC_PUBLIC_KEY :: int where "NOISE_XX_REMOTE_STATIC_PUBLIC_KEY = 1201"
definition CURVE_SERVER :: int where "CURVE_SERVER = 47"
definition CURVE_SECRET_KEY :: int where "CURVE_SECRET_KEY = 49"
definition CURVE_SERVER_KEY :: int where "CURVE_SERVER_KEY = 48"
definition MAXMSGSIZE :: int where "MAXMSGSIZE = 22"
definition MAX_CONNECTIONS :: int where "MAX_CONNECTIONS = 1000"
definition IO_URING_SNDZEROCOPY :: int where "IO_URING_SNDZEROCOPY = 1170"
definition IO_URING_RCVMULTISHOT :: int where "IO_URING_RCVMULTISHOT = 1171"
definition TCP_CORK :: int where "TCP_CORK = 1172"
definition IO_URING_SESSION_ENABLED :: int where "IO_URING_SESSION_ENABLED = 1175"
definition ZMQ_TYPE :: int where "ZMQ_TYPE = 16"
definition DEFAULT_RECONNECT_IVL_MS :: nat where "DEFAULT_RECONNECT_IVL_MS = 1000"

lemmas option_ids =
  SNDHWM_def RCVHWM_def LINGER_def SUBSCRIBE_def UNSUBSCRIBE_def
  ROUTING_ID_def RECONNECT_IVL_def RECONNECT_IVL_MAX_def RCVTIMEO_def SNDTIMEO_def
  LAST_ENDPOINT_def TCP_KEEPALIVE_def TCP_KEEPALIVE_IDLE_def TCP_KEEPALIVE_CNT_def TCP_KEEPALIVE_INTVL_def
  HEARTBEAT_IVL_def HEARTBEAT_TIMEOUT_def HEARTBEAT_TTL_def HANDSHAKE_IVL_def ROUTER_MANDATORY_def
  AUTO_DELIMITER_def ZMTP2_ALLOWED_def ZAP_DOMAIN_def PLAIN_SERVER_def PLAIN_USERNAME_def
  PLAIN_PASSWORD_def NOISE_XX_ENABLED_def NOISE_XX_STATIC_SECRET_KEY_def NOISE_XX_REMOTE_STATIC_PUBLIC_KEY_def CURVE_SERVER_def
  CURVE_SECRET_KEY_def CURVE_SERVER_KEY_def MAXMSGSIZE_def MAX_CONNECTIONS_def IO_URING_SNDZEROCOPY_def
  IO_URING_RCVMULTISHOT_def TCP_CORK_def IO_URING_SESSION_ENABLED_def ZMQ_TYPE_def


section \<open>Integers as bytes\<close>

definition signed_int :: "nat \<Rightarrow> int \<Rightarrow> int" where
  "signed_int w n = (let m = n mod 2 ^ w in if m < 2 ^ (w - 1) then m else m - 2 ^ w)"

definition i32_bytes :: "int \<Rightarrow> bytes" where
  "i32_bytes v = le_bytes 4 (nat (v mod 2 ^ 32))"

definition i32_of_bytes :: "bytes \<Rightarrow> int" where
  "i32_of_bytes bs = signed_int 32 (int (le_nat bs))"

definition i64_bytes :: "int \<Rightarrow> bytes" where
  "i64_bytes v = le_bytes 8 (nat (v mod 2 ^ 64))"

definition i64_of_bytes :: "bytes \<Rightarrow> int" where
  "i64_of_bytes bs = signed_int 64 (int (le_nat bs))"

definition I32_MAX :: int where "I32_MAX = 2 ^ 31 - 1"


section \<open>The options\<close>

record IOURingSocketOptions =
  send_zerocopy :: bool
  recv_multishot :: bool
  session_enabled :: bool

record CurveMechanismSocketOptions =
  curve_enabled :: bool
  curve_server_role :: bool
  curve_secret_key :: "bytes option"
  curve_server_public_key :: "bytes option"

record NoiseXxSocketOptions =
  noise_enabled :: bool
  static_secret_key_bytes :: "bytes option"
  remote_static_public_key_bytes :: "bytes option"

record PlainMechanismSocketOptions =
  plain_enabled :: bool
  plain_server_role :: "bool option"
  plain_username :: "bytes option"
  plain_password :: "bytes option"

record SocketOptions =
  rcvhwm :: nat
  sndhwm :: nat
  rcvtimeo :: "duration option"
  sndtimeo :: "duration option"
  linger :: "duration option"
  reconnect_ivl :: "duration option"
  reconnect_ivl_max :: "duration option"
  backlog :: "nat option"
  routing_id :: "Blob option"
  socket_type_name :: string
  tcp_keepalive_enabled :: int
  tcp_keepalive_idle :: "duration option"
  tcp_keepalive_count :: "nat option"
  tcp_keepalive_interval :: "duration option"
  tcp_nodelay :: bool
  max_connections :: "nat option"
  maxmsgsize :: int
  allow_zmtp2 :: bool
  heartbeat_ivl :: "duration option"
  heartbeat_timeout :: "duration option"
  handshake_ivl :: "duration option"
  router_mandatory :: bool
  tcp_cork :: bool
  io_uring :: IOURingSocketOptions
  zap_domain :: "bytes option"
  plain_options :: PlainMechanismSocketOptions
  curve_options :: CurveMechanismSocketOptions
  noise_xx_options :: NoiseXxSocketOptions

definition options_default :: SocketOptions where
  "options_default =
    \<lparr>rcvhwm = 256, sndhwm = 256, rcvtimeo = None, sndtimeo = None, linger = Some 0,
     reconnect_ivl = Some DEFAULT_RECONNECT_IVL_MS, reconnect_ivl_max = Some 0, backlog = None,
     routing_id = None, socket_type_name = ''UNKNOWN'', tcp_keepalive_enabled = 0,
     tcp_keepalive_idle = None, tcp_keepalive_count = None, tcp_keepalive_interval = None,
     tcp_nodelay = True, max_connections = Some 1024, maxmsgsize = -1, allow_zmtp2 = True,
     heartbeat_ivl = None, heartbeat_timeout = None, handshake_ivl = None, router_mandatory = False,
     tcp_cork = False,
     io_uring = \<lparr>send_zerocopy = False, recv_multishot = False, session_enabled = False\<rparr>,
     zap_domain = None,
     plain_options = \<lparr>plain_enabled = False, plain_server_role = None, plain_username = None, plain_password = None\<rparr>,
     curve_options = \<lparr>curve_enabled = False, curve_server_role = False, curve_secret_key = None,
       curve_server_public_key = None\<rparr>,
     noise_xx_options = \<lparr>noise_enabled = False, static_secret_key_bytes = None,
       remote_static_public_key_bytes = None\<rparr>\<rparr>"

record ZmtpEngineConfig =
  cfg_routing_id :: "Blob option"
  cfg_socket_type_name :: string
  security_enabled :: bool
  cfg_heartbeat_ivl :: "duration option"
  cfg_heartbeat_timeout :: "duration option"
  handshake_timeout :: "duration option"
  cfg_rcvtimeo :: "duration option"
  cfg_sndtimeo :: "duration option"
  use_send_zerocopy :: bool
  use_recv_multishot :: bool
  use_cork :: bool
  use_noise_xx :: bool
  noise_xx_local_sk_bytes_for_engine :: "bytes option"
  noise_xx_remote_pk_bytes_for_engine :: "bytes option"
  use_curve :: bool
  curve_local_secret_key :: "bytes option"
  curve_remote_public_key :: "bytes option"
  use_plain :: bool
  plain_username_for_engine :: "bytes option"
  plain_password_for_engine :: "bytes option"
  cfg_max_msg_size :: int
  cfg_allow_zmtp2 :: bool

definition engine_config :: "SocketOptions \<Rightarrow> ZmtpEngineConfig" where
  "engine_config options =
    \<lparr>cfg_routing_id = routing_id options,
     cfg_socket_type_name = socket_type_name options,
     security_enabled = (plain_enabled (plain_options options) \<or> noise_enabled (noise_xx_options options) \<or>
       curve_enabled (curve_options options)),
     cfg_heartbeat_ivl = heartbeat_ivl options,
     cfg_heartbeat_timeout = heartbeat_timeout options,
     handshake_timeout = handshake_ivl options,
     cfg_rcvtimeo = rcvtimeo options,
     cfg_sndtimeo = sndtimeo options,
     use_send_zerocopy = send_zerocopy (io_uring options),
     use_recv_multishot = recv_multishot (io_uring options),
     use_cork = tcp_cork options,
     use_noise_xx = noise_enabled (noise_xx_options options),
     noise_xx_local_sk_bytes_for_engine = static_secret_key_bytes (noise_xx_options options),
     noise_xx_remote_pk_bytes_for_engine = remote_static_public_key_bytes (noise_xx_options options),
     use_curve = curve_enabled (curve_options options),
     curve_local_secret_key = curve_secret_key (curve_options options),
     curve_remote_public_key = curve_server_public_key (curve_options options),
     use_plain = plain_enabled (plain_options options),
     plain_username_for_engine = plain_username (plain_options options),
     plain_password_for_engine = plain_password (plain_options options),
     cfg_max_msg_size = maxmsgsize options,
     cfg_allow_zmtp2 = allow_zmtp2 options\<rparr>"


section \<open>Parsers\<close>

definition parse_i32_option :: "bytes \<Rightarrow> int res" where
  "parse_i32_option v = (if length v = 4 then Inr (i32_of_bytes v) else Inl (InvalidOptionValue 0))"

definition parse_bool_option :: "bytes \<Rightarrow> bool res" where
  "parse_bool_option v = and_then (parse_i32_option v) (\<lambda>n. Inr (n = 1))"

definition parse_duration_ms_option :: "bytes \<Rightarrow> duration option res" where
  "parse_duration_ms_option v = and_then (parse_i32_option v) (\<lambda>n.
    if n = -1 then Inr None else if n \<ge> 0 then Inr (Some (nat n)) else Inl (InvalidOptionValue 0))"

definition parse_secs_duration_option :: "bytes \<Rightarrow> duration option res" where
  "parse_secs_duration_option v = and_then (parse_i32_option v) (\<lambda>n.
    if n \<ge> 0 then Inr (Some (1000 * nat n)) else Inl (InvalidOptionValue 0))"

definition for_option :: "int \<Rightarrow> 'a res \<Rightarrow> 'a res" where
  "for_option option_id r = (case r of Inl _ \<Rightarrow> Inl (InvalidOptionValue option_id) | Inr x \<Rightarrow> Inr x)"

definition parse_timeout_option :: "bytes \<Rightarrow> int \<Rightarrow> duration option res" where
  "parse_timeout_option v option_id = and_then (for_option option_id (parse_i32_option v)) (\<lambda>n.
    if n = -1 then Inr None else if n = 0 then Inr (Some 0) else if n \<ge> 1 then Inr (Some (nat n))
    else Inl (InvalidOptionValue option_id))"

definition parse_linger_option :: "bytes \<Rightarrow> duration option res" where
  "parse_linger_option v = and_then (parse_i32_option v) (\<lambda>n.
    if n = -1 then Inr None else if n \<ge> 0 then Inr (Some (nat n)) else Inl (InvalidOptionValue LINGER))"

definition parse_u32_option :: "bytes \<Rightarrow> nat option res" where
  "parse_u32_option v = and_then (parse_i32_option v) (\<lambda>n.
    if n \<ge> 0 then Inr (Some (nat n)) else Inl (InvalidOptionValue 0))"

definition parse_keepalive_mode_option :: "bytes \<Rightarrow> int res" where
  "parse_keepalive_mode_option v = and_then (parse_i32_option v) (\<lambda>n.
    if n \<ge> -1 \<and> n \<le> 1 then Inr n else Inl (InvalidOptionValue TCP_KEEPALIVE))"

definition parse_blob_option :: "bytes \<Rightarrow> Blob res" where
  "parse_blob_option v = (if length v > 255 then Inl (InvalidOptionValue ROUTING_ID) else Inr v)"

definition parse_heartbeat_option :: "bytes \<Rightarrow> int \<Rightarrow> duration option res" where
  "parse_heartbeat_option v option_id = and_then (for_option option_id (parse_i32_option v)) (\<lambda>n.
    if n = 0 then Inr None else if n \<ge> 1 then Inr (Some (nat n)) else Inl (InvalidOptionValue option_id))"

definition parse_handshake_option :: "bytes \<Rightarrow> int \<Rightarrow> duration option res" where
  "parse_handshake_option v option_id = and_then (for_option option_id (parse_i32_option v)) (\<lambda>n.
    if n = 0 then Inr None else if n \<ge> 1 then Inr (Some (nat n)) else Inl (InvalidOptionValue option_id))"

definition parse_reconnect_ivl_option :: "bytes \<Rightarrow> duration option res" where
  "parse_reconnect_ivl_option v = and_then (parse_i32_option v) (\<lambda>n.
    if n = -1 then Inr None else if n = 0 then Inr None else if n \<ge> 1 then Inr (Some (nat n))
    else Inl (InvalidOptionValue RECONNECT_IVL))"

definition parse_reconnect_ivl_max_option :: "bytes \<Rightarrow> duration option res" where
  "parse_reconnect_ivl_max_option v = and_then (parse_i32_option v) (\<lambda>n.
    if n = 0 then Inr (Some 0) else if n \<ge> 1 then Inr (Some (nat n))
    else Inl (InvalidOptionValue RECONNECT_IVL_MAX))"

definition parse_maxmsgsize_option :: "bytes \<Rightarrow> int res" where
  "parse_maxmsgsize_option v =
    (if length v \<noteq> 8 then Inl (InvalidOptionValue MAXMSGSIZE)
     else if i64_of_bytes v < -1 then Inl (InvalidOptionValue MAXMSGSIZE) else Inr (i64_of_bytes v))"

definition parse_max_connections_option :: "bytes \<Rightarrow> int \<Rightarrow> nat option res" where
  "parse_max_connections_option v option_id = and_then (for_option option_id (parse_i32_option v)) (\<lambda>n.
    if n = -1 then Inr None else if n = 0 then Inl (InvalidOptionValue option_id)
    else if n \<ge> 1 then Inr (Some (nat n)) else Inl (InvalidOptionValue option_id))"

definition parse_key_option :: "nat \<Rightarrow> bytes \<Rightarrow> int \<Rightarrow> bytes res" where
  "parse_key_option N v option_id = (if length v = N then Inr v else Inl (InvalidOptionValue option_id))"

definition parse_string_option :: "bytes \<Rightarrow> int \<Rightarrow> bytes res" where
  "parse_string_option v option_id = (if utf8_valid v then Inr v else Inl (InvalidOptionValue option_id))"


section \<open>Setting and reading an option\<close>

definition map_ok :: "('a \<Rightarrow> 'b) \<Rightarrow> 'a res \<Rightarrow> 'b res" where
  "map_ok f r = (case r of Inl e \<Rightarrow> Inl e | Inr a \<Rightarrow> Inr (f a))"

definition apply_core_option_value :: "SocketOptions \<Rightarrow> int \<Rightarrow> bytes \<Rightarrow> SocketOptions res" where
  "apply_core_option_value options option_id v =
    (if option_id = SNDHWM then map_ok (\<lambda>n. options\<lparr>sndhwm := nat (max n 0)\<rparr>) (parse_i32_option v)
     else if option_id = RCVHWM then map_ok (\<lambda>n. options\<lparr>rcvhwm := nat (max n 0)\<rparr>) (parse_i32_option v)
     else if option_id = LINGER then map_ok (\<lambda>x. options\<lparr>linger := x\<rparr>) (parse_linger_option v)
     else if option_id = ROUTING_ID then map_ok (\<lambda>x. options\<lparr>routing_id := Some x\<rparr>) (parse_blob_option v)
     else if option_id = RECONNECT_IVL then
       map_ok (\<lambda>x. options\<lparr>reconnect_ivl := x\<rparr>) (parse_reconnect_ivl_option v)
     else if option_id = RECONNECT_IVL_MAX then
       map_ok (\<lambda>x. options\<lparr>reconnect_ivl_max := x\<rparr>) (parse_reconnect_ivl_max_option v)
     else if option_id = RCVTIMEO then map_ok (\<lambda>x. options\<lparr>rcvtimeo := x\<rparr>) (parse_timeout_option v option_id)
     else if option_id = SNDTIMEO then map_ok (\<lambda>x. options\<lparr>sndtimeo := x\<rparr>) (parse_timeout_option v option_id)
     else if option_id = TCP_KEEPALIVE then
       map_ok (\<lambda>x. options\<lparr>tcp_keepalive_enabled := x\<rparr>) (parse_keepalive_mode_option v)
     else if option_id = TCP_KEEPALIVE_IDLE then
       map_ok (\<lambda>x. options\<lparr>tcp_keepalive_idle := x\<rparr>) (parse_secs_duration_option v)
     else if option_id = TCP_KEEPALIVE_CNT then
       map_ok (\<lambda>x. options\<lparr>tcp_keepalive_count := x\<rparr>) (parse_u32_option v)
     else if option_id = TCP_KEEPALIVE_INTVL then
       map_ok (\<lambda>x. options\<lparr>tcp_keepalive_interval := x\<rparr>) (parse_secs_duration_option v)
     else if option_id = HEARTBEAT_IVL then
       map_ok (\<lambda>x. options\<lparr>heartbeat_ivl := x\<rparr>) (parse_heartbeat_option v option_id)
     else if option_id = HEARTBEAT_TIMEOUT then
       map_ok (\<lambda>x. options\<lparr>heartbeat_timeout := x\<rparr>) (parse_heartbeat_option v option_id)
     else if option_id = HANDSHAKE_IVL then
       map_ok (\<lambda>x. options\<lparr>handshake_ivl := x\<rparr>) (parse_handshake_option v option_id)
     else if option_id = MAXMSGSIZE then map_ok (\<lambda>x. options\<lparr>maxmsgsize := x\<rparr>) (parse_maxmsgsize_option v)
     else if option_id = MAX_CONNECTIONS then
       map_ok (\<lambda>x. options\<lparr>max_connections := x\<rparr>) (parse_max_connections_option v option_id)
     else if option_id = TCP_CORK then map_ok (\<lambda>x. options\<lparr>tcp_cork := x\<rparr>) (parse_bool_option v)
     else if option_id = ZMTP2_ALLOWED then map_ok (\<lambda>x. options\<lparr>allow_zmtp2 := x\<rparr>) (parse_bool_option v)
     else if option_id = ZAP_DOMAIN then
       map_ok (\<lambda>x. options\<lparr>zap_domain := Some x\<rparr>) (parse_string_option v option_id)
     else if option_id = PLAIN_SERVER then
       map_ok (\<lambda>x. options\<lparr>plain_options := (plain_options options)\<lparr>plain_server_role := Some x, plain_enabled := True\<rparr>\<rparr>)
         (parse_bool_option v)
     else if option_id = PLAIN_USERNAME then
       map_ok (\<lambda>x. options\<lparr>plain_options := (plain_options options)\<lparr>plain_username := Some x, plain_enabled := True\<rparr>\<rparr>)
         (parse_string_option v option_id)
     else if option_id = PLAIN_PASSWORD then
       map_ok (\<lambda>x. options\<lparr>plain_options := (plain_options options)\<lparr>plain_password := Some x, plain_enabled := True\<rparr>\<rparr>)
         (parse_string_option v option_id)
     else if option_id = CURVE_SERVER then
       map_ok (\<lambda>x. options\<lparr>curve_options := (curve_options options)\<lparr>curve_server_role := x, curve_enabled := True\<rparr>\<rparr>)
         (parse_bool_option v)
     else if option_id = CURVE_SECRET_KEY then
       map_ok (\<lambda>x. options\<lparr>curve_options := (curve_options options)\<lparr>curve_secret_key := Some x, curve_enabled := True\<rparr>\<rparr>)
         (parse_key_option 32 v option_id)
     else if option_id = CURVE_SERVER_KEY then
       map_ok (\<lambda>x. options\<lparr>curve_options := (curve_options options)\<lparr>curve_server_public_key := Some x, curve_enabled := True\<rparr>\<rparr>)
         (parse_key_option 32 v option_id)
     else if option_id = NOISE_XX_ENABLED then
       map_ok (\<lambda>x. options\<lparr>noise_xx_options := (noise_xx_options options)\<lparr>noise_enabled := x\<rparr>\<rparr>) (parse_bool_option v)
     else if option_id = NOISE_XX_STATIC_SECRET_KEY then
       map_ok (\<lambda>x. options\<lparr>noise_xx_options := (noise_xx_options options)\<lparr>static_secret_key_bytes := Some x\<rparr>\<rparr>)
         (parse_key_option 32 v option_id)
     else if option_id = NOISE_XX_REMOTE_STATIC_PUBLIC_KEY then
       map_ok (\<lambda>x. options\<lparr>noise_xx_options := (noise_xx_options options)\<lparr>remote_static_public_key_bytes := Some x\<rparr>\<rparr>)
         (parse_key_option 32 v option_id)
     else if option_id = IO_URING_SESSION_ENABLED then
       map_ok (\<lambda>x. options\<lparr>io_uring := (io_uring options)\<lparr>session_enabled := x\<rparr>\<rparr>) (parse_bool_option v)
     else if option_id = IO_URING_SNDZEROCOPY then
       map_ok (\<lambda>x. options\<lparr>io_uring := (io_uring options)\<lparr>send_zerocopy := x\<rparr>\<rparr>) (parse_bool_option v)
     else if option_id = IO_URING_RCVMULTISHOT then
       map_ok (\<lambda>x. options\<lparr>io_uring := (io_uring options)\<lparr>recv_multishot := x\<rparr>\<rparr>) (parse_bool_option v)
     else if option_id \<in> {SUBSCRIBE, UNSUBSCRIBE, LAST_ENDPOINT, ROUTER_MANDATORY, AUTO_DELIMITER, ZMQ_TYPE} then
       Inl (UnsupportedOption option_id)
     else Inl (InvalidOption option_id))"

text \<open>
  \<^verbatim>\<open>as_millis() as i32\<close> wraps; \<^verbatim>\<open>try_into().unwrap_or(i32::MAX)\<close> saturates.  The two fields of the core state
  that are readable, the last bound endpoint and the number of the socket type, are arguments.
\<close>

definition wrapped :: "nat \<Rightarrow> bytes" where
  "wrapped n = i32_bytes (signed_int 32 (int n))"

definition saturated :: "nat \<Rightarrow> bytes" where
  "saturated n = i32_bytes (if int n \<le> I32_MAX then int n else I32_MAX)"

definition retrieve_core_option_value :: "SocketOptions \<Rightarrow> string option \<Rightarrow> int \<Rightarrow> int \<Rightarrow> bytes res" where
  "retrieve_core_option_value options last_bound_endpoint socket_type option_id =
    (if option_id = SNDHWM then Inr (wrapped (sndhwm options))
     else if option_id = RCVHWM then Inr (wrapped (rcvhwm options))
     else if option_id = LINGER then Inr (case linger options of None \<Rightarrow> i32_bytes (-1) | Some d \<Rightarrow> saturated d)
     else if option_id = ROUTING_ID then ok_or Internal (routing_id options)
     else if option_id = RECONNECT_IVL then
       Inr (case reconnect_ivl options of None \<Rightarrow> i32_bytes 0 | Some d \<Rightarrow> wrapped d)
     else if option_id = RECONNECT_IVL_MAX then
       Inr (case reconnect_ivl_max options of None \<Rightarrow> i32_bytes 0 | Some d \<Rightarrow> wrapped d)
     else if option_id = RCVTIMEO then
       Inr (case rcvtimeo options of None \<Rightarrow> i32_bytes (-1) | Some d \<Rightarrow> saturated d)
     else if option_id = SNDTIMEO then
       Inr (case sndtimeo options of None \<Rightarrow> i32_bytes (-1) | Some d \<Rightarrow> saturated d)
     else if option_id = LAST_ENDPOINT then
       Inr (case last_bound_endpoint of None \<Rightarrow> [] | Some s \<Rightarrow> str s)
     else if option_id = TCP_KEEPALIVE then Inr (i32_bytes (tcp_keepalive_enabled options))
     else if option_id = TCP_KEEPALIVE_IDLE then
       Inr (case tcp_keepalive_idle options of None \<Rightarrow> i32_bytes 0 | Some d \<Rightarrow> wrapped (d div 1000))
     else if option_id = TCP_KEEPALIVE_CNT then
       Inr (case tcp_keepalive_count options of None \<Rightarrow> i32_bytes 0 | Some c \<Rightarrow> wrapped c)
     else if option_id = TCP_KEEPALIVE_INTVL then
       Inr (case tcp_keepalive_interval options of None \<Rightarrow> i32_bytes 0 | Some d \<Rightarrow> wrapped (d div 1000))
     else if option_id = HEARTBEAT_IVL then
       Inr (case heartbeat_ivl options of None \<Rightarrow> i32_bytes 0 | Some d \<Rightarrow> wrapped d)
     else if option_id = HEARTBEAT_TIMEOUT then
       Inr (case heartbeat_timeout options of None \<Rightarrow> i32_bytes 0 | Some d \<Rightarrow> wrapped d)
     else if option_id = HANDSHAKE_IVL then
       Inr (case handshake_ivl options of None \<Rightarrow> i32_bytes 0 | Some d \<Rightarrow> wrapped d)
     else if option_id = MAXMSGSIZE then Inr (i64_bytes (maxmsgsize options))
     else if option_id = MAX_CONNECTIONS then
       Inr (case max_connections options of None \<Rightarrow> i32_bytes (-1) | Some n \<Rightarrow> wrapped n)
     else if option_id = TCP_CORK then Inr (i32_bytes (of_bool (tcp_cork options)))
     else if option_id = ZMTP2_ALLOWED then Inr (i32_bytes (of_bool (allow_zmtp2 options)))
     else if option_id = ZAP_DOMAIN then ok_or Internal (zap_domain options)
     else if option_id = PLAIN_SERVER then
       ok_or Internal (map_option (\<lambda>b. i32_bytes (of_bool b)) (plain_server_role (plain_options options)))
     else if option_id = PLAIN_USERNAME then ok_or Internal (plain_username (plain_options options))
     else if option_id = PLAIN_PASSWORD then Inl PermissionDenied
     else if option_id = NOISE_XX_ENABLED then Inr (i32_bytes (of_bool (noise_enabled (noise_xx_options options))))
     else if option_id = NOISE_XX_STATIC_SECRET_KEY then Inl PermissionDenied
     else if option_id = NOISE_XX_REMOTE_STATIC_PUBLIC_KEY then
       ok_or Internal (remote_static_public_key_bytes (noise_xx_options options))
     else if option_id = IO_URING_SESSION_ENABLED then Inr (i32_bytes (of_bool (session_enabled (io_uring options))))
     else if option_id = IO_URING_SNDZEROCOPY then Inr (i32_bytes (of_bool (send_zerocopy (io_uring options))))
     else if option_id = IO_URING_RCVMULTISHOT then Inr (i32_bytes (of_bool (recv_multishot (io_uring options))))
     else if option_id = ZMQ_TYPE then Inr (i32_bytes socket_type)
     else if option_id \<in> {SUBSCRIBE, UNSUBSCRIBE, ROUTER_MANDATORY, AUTO_DELIMITER} then
       Inl (UnsupportedOption option_id)
     else Inl (InvalidOption option_id))"


section \<open>Integer encodings\<close>

lemma signed_int_bounds: "w > 0 \<Longrightarrow> - (2 ^ (w - 1)) \<le> signed_int w n \<and> signed_int w n < 2 ^ (w - 1)"
proof -
  have half: "- h \<le> (if m < h then m else m - k) \<and> (if m < h then m else m - k) < h"
    if "0 \<le> m" "m < k" "k = 2 * h" for m h k :: int
    using that by auto
  assume "w > 0"
  then have "(2::int) ^ w = 2 * 2 ^ (w - 1)" by (cases w) simp_all
  then show ?thesis
    unfolding signed_int_def Let_def by (intro half) simp_all
qed

lemma signed_int_mod: "signed_int w n mod 2 ^ w = n mod 2 ^ w"
  by (simp add: signed_int_def Let_def)

lemma signed_int_id: "- (2 ^ (w - 1)) \<le> n \<Longrightarrow> n < 2 ^ (w - 1) \<Longrightarrow> w > 0 \<Longrightarrow> signed_int w n = n"
proof -
  assume a: "- (2 ^ (w - 1)) \<le> n" "n < 2 ^ (w - 1)" "w > 0"
  have w: "(2::int) ^ w = 2 * 2 ^ (w - 1)" using a(3) by (cases w) simp_all
  show ?thesis
  proof (cases "n \<ge> 0")
    case True
    then have "n mod 2 ^ w = n" using a w by simp
    then show ?thesis using a by (simp add: signed_int_def)
  next
    case False
    then have "n mod 2 ^ w = n + 2 ^ w"
      using a w by (intro int_mod_pos_eq [symmetric, of n "2 ^ w" "-1" "n + 2 ^ w", THEN sym]) auto
    then show ?thesis using a w False by (simp add: signed_int_def)
  qed
qed

lemma i32_of_i32_bytes: "- (2 ^ 31) \<le> n \<Longrightarrow> n < 2 ^ 31 \<Longrightarrow> i32_of_bytes (i32_bytes n) = n"
proof -
  assume a: "- (2 ^ 31) \<le> n" "n < 2 ^ 31"
  have "int (le_nat (i32_bytes n)) = n mod 2 ^ 32"
    by (simp add: i32_bytes_def le_nat_le_bytes nat_mod_as_int)
  then have "i32_of_bytes (i32_bytes n) = signed_int 32 n"
    by (simp add: i32_of_bytes_def signed_int_def)
  then show ?thesis using signed_int_id [of 32 n] a by simp
qed


lemma i32_bytes_of:
  assumes "length v = 4"
  shows "i32_bytes (i32_of_bytes v) = v" "- (2 ^ 31) \<le> i32_of_bytes v" "i32_of_bytes v < 2 ^ 31"
proof -
  have "nat (i32_of_bytes v mod 2 ^ 32) = le_nat v mod 2 ^ 32"
    unfolding i32_of_bytes_def signed_int_mod by (simp add: nat_mod_as_int)
  moreover have "le_nat v < 2 ^ 32"
    using be_nat_bound [of "rev v"] assms by (simp add: le_nat_def)
  ultimately show "i32_bytes (i32_of_bytes v) = v"
    using be_bytes_be_nat [of "rev v"] assms by (simp add: i32_bytes_def le_bytes_def le_nat_def)
  show "- (2 ^ 31) \<le> i32_of_bytes v" "i32_of_bytes v < 2 ^ 31"
    using signed_int_bounds [of 32] by (simp_all add: i32_of_bytes_def)
qed

lemma i64_bytes_of: "length v = 8 \<Longrightarrow> i64_bytes (i64_of_bytes v) = v"
proof -
  assume l: "length v = 8"
  have "nat (i64_of_bytes v mod 2 ^ 64) = le_nat v mod 2 ^ 64"
    unfolding i64_of_bytes_def signed_int_mod by (simp add: nat_mod_as_int)
  moreover have "le_nat v < 2 ^ 64"
    using be_nat_bound [of "rev v"] l by (simp add: le_nat_def)
  ultimately show ?thesis
    using be_bytes_be_nat [of "rev v"] l by (simp add: i64_bytes_def le_bytes_def le_nat_def)
qed

lemma parse_i32_Inr:
  "parse_i32_option v = Inr n \<Longrightarrow> v = i32_bytes n \<and> - (2 ^ 31) \<le> n \<and> n < 2 ^ 31"
  using i32_bytes_of [of v] by (auto simp: parse_i32_option_def split: if_splits)

lemma wrapped_nat: "0 \<le> n \<Longrightarrow> n < 2 ^ 31 \<Longrightarrow> wrapped (nat n) = i32_bytes n"
  using signed_int_id [of 32 n] by (simp add: wrapped_def)

lemma saturated_nat: "0 \<le> n \<Longrightarrow> n < 2 ^ 31 \<Longrightarrow> saturated (nat n) = i32_bytes n"
  by (simp add: saturated_def I32_MAX_def)

lemma wrapped_max: "n < 2 ^ 31 \<Longrightarrow> wrapped (nat (max n 0)) = i32_bytes (max n 0)"
  by (rule wrapped_nat) simp_all

lemma wrapped_saturated_0: "wrapped 0 = i32_bytes 0" "saturated 0 = i32_bytes 0"
  using wrapped_nat [of 0] saturated_nat [of 0] by simp_all

lemma map_ok_Inr: "map_ok f r = Inr b \<longleftrightarrow> (\<exists>a. r = Inr a \<and> b = f a)"
  by (cases r) (auto simp: map_ok_def)

lemma for_option_Inr: "for_option i r = Inr a \<longleftrightarrow> r = Inr a"
  by (cases r) (auto simp: for_option_def)

lemmas option_parsers = parse_bool_option_def parse_duration_ms_option_def parse_secs_duration_option_def
  parse_timeout_option_def parse_linger_option_def parse_u32_option_def parse_keepalive_mode_option_def
  parse_blob_option_def parse_heartbeat_option_def parse_handshake_option_def parse_reconnect_ivl_option_def
  parse_reconnect_ivl_max_option_def parse_maxmsgsize_option_def parse_max_connections_option_def
  parse_key_option_def parse_string_option_def


section \<open>Properties\<close>

text \<open>What reading an option gives after it was set to \<open>v\<close>.\<close>

definition normal_value :: "int \<Rightarrow> bytes \<Rightarrow> bytes" where
  "normal_value option_id v =
    (if option_id \<in> {SNDHWM, RCVHWM} then i32_bytes (max (i32_of_bytes v) 0)
     else if option_id = RECONNECT_IVL then i32_bytes (max (i32_of_bytes v) 0)
     else if option_id \<in> {TCP_CORK, ZMTP2_ALLOWED, PLAIN_SERVER, NOISE_XX_ENABLED, IO_URING_SESSION_ENABLED,
       IO_URING_SNDZEROCOPY, IO_URING_RCVMULTISHOT} then i32_bytes (of_bool (i32_of_bytes v = 1))
     else v)"

definition hidden_options :: "int set" where
  "hidden_options = {PLAIN_PASSWORD, NOISE_XX_STATIC_SECRET_KEY, CURVE_SERVER, CURVE_SECRET_KEY, CURVE_SERVER_KEY}"


definition settable_options :: "int set" where
  "settable_options = {SNDHWM, RCVHWM, LINGER, ROUTING_ID, RECONNECT_IVL, RECONNECT_IVL_MAX, RCVTIMEO, SNDTIMEO,
    TCP_KEEPALIVE, TCP_KEEPALIVE_IDLE, TCP_KEEPALIVE_CNT, TCP_KEEPALIVE_INTVL, HEARTBEAT_IVL, HEARTBEAT_TIMEOUT,
    HANDSHAKE_IVL, MAXMSGSIZE, MAX_CONNECTIONS, TCP_CORK, ZMTP2_ALLOWED, ZAP_DOMAIN, PLAIN_SERVER, PLAIN_USERNAME,
    PLAIN_PASSWORD, CURVE_SERVER, CURVE_SECRET_KEY, CURVE_SERVER_KEY, NOISE_XX_ENABLED, NOISE_XX_STATIC_SECRET_KEY,
    NOISE_XX_REMOTE_STATIC_PUBLIC_KEY, IO_URING_SESSION_ENABLED, IO_URING_SNDZEROCOPY, IO_URING_RCVMULTISHOT}"

lemma settable: "apply_core_option_value options option_id v = Inr options' \<Longrightarrow> option_id \<in> settable_options"
  by (rule ccontr) (simp add: settable_options_def apply_core_option_value_def split: if_split_asm)

lemmas parsed_simps = map_ok_Inr and_then_Inr_iff for_option_Inr option_parsers

text \<open>
  C25. Setting an option and reading it back: whenever a value is accepted for an option that can be read,
  reading returns exactly the bytes that were set, up to the documented normalisation (a negative
  high-water mark or reconnect interval reads as 0, a boolean as 0 or 1).
\<close>

theorem option_set_get:
  assumes set: "apply_core_option_value options option_id v = Inr options'"
    and readable: "option_id \<notin> hidden_options"
  shows "retrieve_core_option_value options' ep ty option_id = Inr (normal_value option_id v)"
  using settable [OF set, unfolded settable_options_def] set readable
  apply (elim insertE emptyE)
  apply (simp_all only:)
  apply (simp_all add: apply_core_option_value_def retrieve_core_option_value_def normal_value_def
      hidden_options_def option_ids)
  apply (simp_all add: parsed_simps)
  apply (auto split: if_splits dest!: parse_i32_Inr
      simp: i32_of_i32_bytes wrapped_nat wrapped_max wrapped_saturated_0 saturated_nat i64_bytes_of)
  done

theorem option_set_get_witness:
  "retrieve_core_option_value (options_default\<lparr>rcvhwm := 7\<rparr>) None 0 RCVHWM = Inr [7, 0, 0, 0]"
proof -
  have "apply_core_option_value options_default RCVHWM [7, 0, 0, 0] = Inr (options_default\<lparr>rcvhwm := 7\<rparr>)"
    by (simp add: apply_core_option_value_def option_ids parse_i32_option_def map_ok_def i32_of_bytes_def
        signed_int_def le_nat_def be_nat_def)
  from option_set_get [OF this, of None 0] show ?thesis
    by (simp add: hidden_options_def option_ids normal_value_def i32_of_bytes_def i32_bytes_def signed_int_def
        le_nat_def be_nat_def le_bytes_def wire_eval)
qed

text \<open>
  Options are independent and secrets are write-only: setting one option leaves what any other
  option reads unchanged, and a password or secret key can be read through no option at all.
\<close>

theorem option_frame:
  assumes set: "apply_core_option_value options option_id v = Inr options'"
    and other: "other_id \<noteq> option_id \<or> option_id \<in> {PLAIN_PASSWORD, CURVE_SECRET_KEY, NOISE_XX_STATIC_SECRET_KEY}"
  shows "retrieve_core_option_value options' ep ty other_id = retrieve_core_option_value options ep ty other_id"
  using settable [OF set, unfolded settable_options_def] set other
  apply (elim insertE emptyE)
  apply (simp_all only:)
  apply (simp_all add: apply_core_option_value_def map_ok_Inr option_ids)
  by (elim exE conjE; simp add: retrieve_core_option_value_def option_ids cong: if_cong
      split del: if_split split_of_bool)+

theorem option_frame_witness:
  "retrieve_core_option_value
    (options_default\<lparr>plain_options := (plain_options options_default)\<lparr>plain_password := Some [112], plain_enabled := True\<rparr>\<rparr>)
    None 0 PLAIN_PASSWORD = retrieve_core_option_value options_default None 0 PLAIN_PASSWORD"
proof -
  have "apply_core_option_value options_default PLAIN_PASSWORD [112] =
      Inr (options_default\<lparr>plain_options := (plain_options options_default)\<lparr>plain_password := Some [112], plain_enabled := True\<rparr>\<rparr>)"
    by (simp add: apply_core_option_value_def option_ids parse_string_option_def map_ok_def)
  from option_frame [OF this, of PLAIN_PASSWORD None 0] show ?thesis by simp
qed


section \<open>Security once enabled\<close>

text \<open>A configuration session: options set one after another, rejected ones leaving the options as they were.\<close>

definition configure_option :: "SocketOptions \<Rightarrow> int \<times> bytes \<Rightarrow> SocketOptions" where
  "configure_option options x =
    (case apply_core_option_value options (fst x) (snd x) of Inl _ \<Rightarrow> options | Inr options' \<Rightarrow> options')"

definition plain_or_curve :: "SocketOptions \<Rightarrow> bool" where
  "plain_or_curve options \<longleftrightarrow> plain_enabled (plain_options options) \<or> curve_enabled (curve_options options)"

lemma apply_keeps_security:
  assumes set: "apply_core_option_value options option_id v = Inr options'" and on: "plain_or_curve options"
  shows "plain_or_curve options'"
  using settable [OF set, unfolded settable_options_def] set on
  apply (elim insertE emptyE)
  apply (simp_all only:)
  apply (simp_all add: apply_core_option_value_def map_ok_Inr option_ids)
  apply (auto simp: plain_or_curve_def)
  done

lemma set_options_keep_security: "plain_or_curve options \<Longrightarrow> plain_or_curve (foldl configure_option options xs)"
  by (induction xs arbitrary: options)
    (auto simp: configure_option_def apply_keeps_security split: sum.splits)

lemma apply_enables_security:
  assumes "apply_core_option_value options option_id v = Inr options'"
    and "option_id \<in> {PLAIN_SERVER, PLAIN_USERNAME, PLAIN_PASSWORD, CURVE_SERVER, CURVE_SECRET_KEY, CURVE_SERVER_KEY}"
  shows "plain_or_curve options'"
  using assms by (auto simp: apply_core_option_value_def map_ok_Inr option_ids plain_or_curve_def)

text \<open>
  Security cannot be lost by configuring: once any PLAIN or CURVE option was accepted, every engine
  configuration derived later, whatever options are set in between, has security enabled and one of the
  two mechanisms in use.
\<close>

theorem security_stays_enabled:
  assumes "apply_core_option_value options option_id v = Inr options'"
    and "option_id \<in> {PLAIN_SERVER, PLAIN_USERNAME, PLAIN_PASSWORD, CURVE_SERVER, CURVE_SECRET_KEY, CURVE_SERVER_KEY}"
  shows "let cfg = engine_config (foldl configure_option options' xs)
    in security_enabled cfg \<and> (use_plain cfg \<or> use_curve cfg)"
proof -
  have "plain_or_curve options'" using assms by (rule apply_enables_security)
  then have "plain_or_curve (foldl configure_option options' xs)"
    by (rule set_options_keep_security)
  then show ?thesis by (auto simp: plain_or_curve_def engine_config_def Let_def)
qed

theorem security_stays_enabled_witness:
  "let cfg = engine_config (foldl configure_option
      (options_default\<lparr>plain_options := (plain_options options_default)\<lparr>plain_password := Some [112], plain_enabled := True\<rparr>\<rparr>)
      [(NOISE_XX_ENABLED, [0, 0, 0, 0])])
    in security_enabled cfg \<and> (use_plain cfg \<or> use_curve cfg)"
proof -
  have "apply_core_option_value options_default PLAIN_PASSWORD [112] =
      Inr (options_default\<lparr>plain_options := (plain_options options_default)\<lparr>plain_password := Some [112], plain_enabled := True\<rparr>\<rparr>)"
    by (simp add: apply_core_option_value_def option_ids parse_string_option_def map_ok_def)
  from security_stays_enabled [OF this, of "[(NOISE_XX_ENABLED, [0, 0, 0, 0])]"] show ?thesis by simp
qed

end
