(* ===== verification/Plain.thy ===== *)
theory Plain
  imports Framer Options
begin

text \<open>
  The interface of the security mechanisms (\<^verbatim>\<open>core/src/security/mechanism.rs\<close>) and the two mechanisms without
  encryption, NULL (\<^verbatim>\<open>core/src/security/null.rs\<close>) and PLAIN (\<^verbatim>\<open>core/src/security/plain.rs\<close>), with their
  initialisation from the engine configuration (\<^verbatim>\<open>core/src/security/mod.rs\<close>).  The recorded reason of an
  error is kept without its text.
\<close>

section \<open>The mechanism interface\<close>

datatype MechanismStatus = StInitializing | StHandshaking | StAuthenticating | StReady | StError

datatype ProcessTokenAction = ContinueWaiting | ProduceAndSend | HandshakeComplete

definition mech_name_bytes :: "string \<Rightarrow> bytes" where
  "mech_name_bytes name = str name @ replicate (20 - length name) 0"


section \<open>NULL\<close>

datatype NullMechanism = NullMechanism

definition NULL_NAME_BYTES :: bytes where "NULL_NAME_BYTES = mech_name_bytes ''NULL''"

definition null_process_token :: "NullMechanism \<Rightarrow> bytes \<Rightarrow> NullMechanism \<times> ProcessTokenAction res" where
  "null_process_token m token = (m, Inr HandshakeComplete)"

definition null_produce_token :: "NullMechanism \<Rightarrow> NullMechanism \<times> bytes option res" where
  "null_produce_token m = (m, Inr None)"

definition null_status :: "NullMechanism \<Rightarrow> MechanismStatus" where
  "null_status m = StReady"

definition null_into_framer :: "NullMechanism \<Rightarrow> int \<Rightarrow> (NullFramer \<times> bytes option) res" where
  "null_into_framer m limit = Inr (null_framer_new limit, None)"


section \<open>PLAIN\<close>

datatype PlainState = PlainInitializing | ClientSendHello | ClientExpectWelcome
  | ServerExpectHello | ServerSendWelcome | PlainReady | PlainError

record PlainMechanism =
  pm_is_server :: bool
  pm_state :: PlainState
  pm_username :: "bytes option"
  pm_password :: "bytes option"
  expected_username :: "bytes option"
  expected_password :: "bytes option"
  pm_error_reason :: "unit option"

definition PLAIN_NAME_BYTES :: bytes where "PLAIN_NAME_BYTES = mech_name_bytes ''PLAIN''"
definition CMD_HELLO :: bytes where "CMD_HELLO = str ''HELLO''"
definition CMD_WELCOME :: bytes where "CMD_WELCOME = str ''WELCOME''"
definition CMD_ERROR :: bytes where "CMD_ERROR = str ''ERROR''"

definition plain_new :: "bool \<Rightarrow> PlainMechanism" where
  "plain_new is_server =
    \<lparr>pm_is_server = is_server, pm_state = (if is_server then ServerExpectHello else ClientSendHello),
     pm_username = None, pm_password = None, expected_username = None, expected_password = None,
     pm_error_reason = None\<rparr>"

definition set_client_credentials :: "bytes option \<Rightarrow> bytes option \<Rightarrow> PlainMechanism \<Rightarrow> PlainMechanism" where
  "set_client_credentials username password m =
    (if \<not> pm_is_server m then m\<lparr>pm_username := username, pm_password := password\<rparr> else m)"

definition set_server_expected_credentials :: "bytes option \<Rightarrow> bytes option \<Rightarrow> PlainMechanism \<Rightarrow> PlainMechanism" where
  "set_server_expected_credentials username password m =
    (if pm_is_server m then m\<lparr>expected_username := username, expected_password := password\<rparr> else m)"

definition parse_hello_body :: "bytes \<Rightarrow> (bytes \<times> bytes) res" where
  "parse_hello_body body =
    (if length body < 2 then Inl SecurityError
     else
       let user_len = unat (hd body); cur = tl body
       in if length cur < user_len + 1 then Inl SecurityError
          else
            let username = take user_len cur; cur = drop user_len cur;
                pass_len = unat (hd cur); cur = tl cur
            in if length cur < pass_len then Inl SecurityError
               else Inr (username, take pass_len cur))"

definition create_hello_body :: "bytes \<Rightarrow> bytes \<Rightarrow> bytes" where
  "create_hello_body username password =
    (let user_len = min (length username) 255; pass_len = min (length password) 255
     in be_bytes 1 user_len @ take user_len username @ be_bytes 1 pass_len @ take pass_len password)"

definition plain_set_error :: "PlainMechanism \<Rightarrow> PlainMechanism" where
  "plain_set_error m = m\<lparr>pm_error_reason := Some (), pm_state := PlainError\<rparr>"

definition plain_process_token :: "PlainMechanism \<Rightarrow> bytes \<Rightarrow> PlainMechanism \<times> ProcessTokenAction res" where
  "plain_process_token m token =
    (case token of
       [] \<Rightarrow> (plain_set_error m, Inl SecurityError)
     | b # rest \<Rightarrow>
         (let command_len = unat b
          in if length token < 1 + command_len then (plain_set_error m, Inl SecurityError)
             else
               let command_name = take command_len rest; body = drop command_len rest
               in if pm_is_server m then
                    (case pm_state m of
                       ServerExpectHello \<Rightarrow>
                         if command_name = CMD_HELLO then
                           (case parse_hello_body body of
                              Inr (username, password) \<Rightarrow>
                                if expected_username m = Some username \<and> expected_password m = Some password
                                then (m\<lparr>pm_username := Some username, pm_password := Some password,
                                        pm_state := ServerSendWelcome\<rparr>, Inr ProduceAndSend)
                                else (plain_set_error m, Inl AuthenticationFailure)
                            | Inl e \<Rightarrow> (plain_set_error m, Inl e))
                         else (plain_set_error m, Inl SecurityError)
                     | _ \<Rightarrow> (plain_set_error m, Inl SecurityError))
                  else
                    (case pm_state m of
                       ClientExpectWelcome \<Rightarrow>
                         if command_name = CMD_WELCOME then (m\<lparr>pm_state := PlainReady\<rparr>, Inr HandshakeComplete)
                         else if command_name = CMD_ERROR then (plain_set_error m, Inl AuthenticationFailure)
                         else (plain_set_error m, Inl SecurityError)
                     | _ \<Rightarrow> (plain_set_error m, Inl SecurityError))))"

definition plain_produce_token :: "PlainMechanism \<Rightarrow> PlainMechanism \<times> bytes option res" where
  "plain_produce_token m =
    (case pm_state m of
       ClientSendHello \<Rightarrow>
         (let username = (case pm_username m of None \<Rightarrow> [] | Some u \<Rightarrow> u);
              password = (case pm_password m of None \<Rightarrow> [] | Some p \<Rightarrow> p);
              frame = be_bytes 1 (length CMD_HELLO) @ CMD_HELLO @ create_hello_body username password
          in (m\<lparr>pm_state := ClientExpectWelcome\<rparr>, Inr (Some frame)))
     | ServerSendWelcome \<Rightarrow>
         (m\<lparr>pm_state := PlainReady\<rparr>, Inr (Some (be_bytes 1 (length CMD_WELCOME) @ CMD_WELCOME)))
     | _ \<Rightarrow> (m, Inr None))"

definition plain_status :: "PlainMechanism \<Rightarrow> MechanismStatus" where
  "plain_status m =
    (case pm_state m of PlainReady \<Rightarrow> StReady | PlainError \<Rightarrow> StError | _ \<Rightarrow> StHandshaking)"

definition plain_into_framer :: "PlainMechanism \<Rightarrow> int \<Rightarrow> (NullFramer \<times> bytes option) res" where
  "plain_into_framer m limit =
    (if plain_status m \<noteq> StReady then Inl InvalidState
     else Inr (null_framer_new limit, pm_username m))"

definition initialize_plain :: "bool \<Rightarrow> ZmtpEngineConfig \<Rightarrow> PlainMechanism res" where
  "initialize_plain is_server local_config =
    (let user_bytes = plain_username_for_engine local_config; pass_bytes = plain_password_for_engine local_config;
         plain_mech = plain_new is_server
     in Inr (if is_server then set_server_expected_credentials user_bytes pass_bytes plain_mech
             else set_client_credentials user_bytes pass_bytes plain_mech))"


section \<open>The exchange of tokens ends\<close>

text \<open>
  What the handshake driver relies on to finish: every token that is produced, and every received token
  that is accepted, brings the mechanism closer to its end.
\<close>

datatype mech_event = Receive bytes | Produce

fun mech_run :: "('m \<Rightarrow> bytes \<Rightarrow> 'm \<times> 'a res) \<Rightarrow> ('m \<Rightarrow> 'm \<times> bytes option res) \<Rightarrow> mech_event list \<Rightarrow> 'm \<Rightarrow> 'm \<times> nat" where
  "mech_run process produce [] m = (m, 0)"
| "mech_run process produce (Receive t # es) m =
    (case process m t of
       (m', Inl _) \<Rightarrow> mech_run process produce es m'
     | (m', Inr _) \<Rightarrow> (case mech_run process produce es m' of (m2, n) \<Rightarrow> (m2, Suc n)))"
| "mech_run process produce (Produce # es) m =
    (case produce m of
       (m', Inr (Some _)) \<Rightarrow> (case mech_run process produce es m' of (m2, n) \<Rightarrow> (m2, Suc n))
     | (m', _) \<Rightarrow> mech_run process produce es m')"

lemma mech_run_fst:
  "fst (mech_run process produce (Receive t # es) m) = fst (mech_run process produce es (fst (process m t)))"
  "fst (mech_run process produce (Produce # es) m) = fst (mech_run process produce es (fst (produce m)))"
  by (simp_all split: prod.splits sum.splits option.splits)

locale handshake_mechanism =
  fixes process :: "'m \<Rightarrow> bytes \<Rightarrow> 'm \<times> 'a res"
    and produce :: "'m \<Rightarrow> 'm \<times> bytes option res"
    and rank :: "'m \<Rightarrow> nat"
  assumes accepted: "process m t = (m', Inr a) \<Longrightarrow> rank m' < rank m"
    and rejected: "process m t = (m', Inl e) \<Longrightarrow> rank m' \<le> rank m"
    and produced: "produce m = (m', Inr (Some t)) \<Longrightarrow> rank m' < rank m"
    and idle: "produce m = (m', r) \<Longrightarrow> r = Inr None \<or> r = Inl e \<Longrightarrow> rank m' \<le> rank m"
begin

lemma steps_bounded: "mech_run process produce es m = (m', n) \<Longrightarrow> n + rank m' \<le> rank m"
proof (induction es arbitrary: m n)
  case (Cons ev es)
  show ?case
  proof (cases ev)
    case (Receive t)
    obtain m1 r where p: "process m t = (m1, r)" by fastforce
    then show ?thesis
      using Cons Receive accepted rejected by (cases r) (fastforce split: prod.splits)+
  next
    case Produce
    obtain m1 r where p: "produce m = (m1, r)" by fastforce
    then show ?thesis
      using Cons.prems Cons.IH Produce produced [of m m1] idle [of m m1 r]
      by (cases r) (fastforce split: prod.splits option.splits)+
  qed
qed simp

end

definition plain_rank :: "PlainMechanism \<Rightarrow> nat" where
  "plain_rank m =
    (case pm_state m of ClientSendHello \<Rightarrow> 2 | ClientExpectWelcome \<Rightarrow> 1 | ServerExpectHello \<Rightarrow> 2
     | ServerSendWelcome \<Rightarrow> 1 | _ \<Rightarrow> 0)"

lemmas plain_steps = plain_process_token_def plain_produce_token_def plain_set_error_def

interpretation plain: handshake_mechanism plain_process_token plain_produce_token plain_rank
  by unfold_locales
    (auto simp: plain_steps plain_rank_def Let_def split: list.splits if_splits PlainState.splits sum.splits)


section \<open>Properties\<close>

abbreviation plain_run :: "mech_event list \<Rightarrow> PlainMechanism \<Rightarrow> PlainMechanism" where
  "plain_run es m \<equiv> fst (mech_run plain_process_token plain_produce_token es m)"

fun first_token :: "mech_event list \<Rightarrow> bytes option" where
  "first_token [] = None"
| "first_token (Receive t # es) = Some t"
| "first_token (Produce # es) = first_token es"

lemma plain_error_final: "pm_state m = PlainError \<Longrightarrow> pm_state (plain_run es m) = PlainError"
proof (induction es arbitrary: m)
  case (Cons ev es)
  have "pm_state (fst (plain_process_token m t)) = PlainError" for t
    using Cons.prems by (auto simp: plain_steps Let_def split: list.splits)
  moreover have "fst (plain_produce_token m) = m" using Cons.prems by (simp add: plain_steps)
  ultimately show ?case using Cons by (cases ev) (simp_all add: mech_run_fst del: mech_run.simps)
qed simp

lemma plain_process_hello:
  assumes "pm_is_server m" "pm_state m = ServerExpectHello"
  obtains (accepted) u p body where "t = be_bytes 1 5 @ CMD_HELLO @ body" "parse_hello_body body = Inr (u, p)"
      "expected_username m = Some u" "expected_password m = Some p"
      "plain_process_token m t = (m\<lparr>pm_username := Some u, pm_password := Some p, pm_state := ServerSendWelcome\<rparr>,
        Inr ProduceAndSend)"
  | (refused) "pm_state (fst (plain_process_token m t)) = PlainError"
proof (cases t)
  case Nil
  then show ?thesis using refused by (simp add: plain_steps)
next
  case (Cons b rest)
  show ?thesis
  proof (cases "unat b \<le> length rest \<and> take (unat b) rest = CMD_HELLO")
    case True
    have "length (take (unat b) rest) = unat b" using conjunct1 [OF True] by simp
    then have u: "unat b = 5" using True by (simp add: CMD_HELLO_def)
    then have b: "b = 5" by (simp add: word_unat_eq_iff)
    have t: "t = be_bytes 1 5 @ CMD_HELLO @ drop 5 rest"
      using True u b Cons append_take_drop_id [of 5 rest] by simp
    show ?thesis
    proof (cases "parse_hello_body (drop 5 rest)")
      case (Inl e)
      then show ?thesis using refused assms Cons True u by (simp add: plain_steps Let_def)
    next
      case (Inr up)
      obtain a q where up: "up = (a, q)" by (cases up)
      show ?thesis
      proof (cases "expected_username m = Some a \<and> expected_password m = Some q")
        case True
        then show ?thesis
          using accepted [OF t, of a q] assms Cons \<open>unat b \<le> length rest \<and> _\<close> u Inr up
          by (simp add: plain_steps Let_def)
      next
        case False
        then show ?thesis
          using refused assms Cons \<open>unat b \<le> length rest \<and> _\<close> u Inr up by (simp add: plain_steps Let_def)
      qed
    qed
  next
    case False
    then show ?thesis using refused assms Cons by (auto simp: plain_steps Let_def)
  qed
qed

lemma plain_process_token_Inr:
  assumes "pm_is_server m" "pm_state m = ServerExpectHello" "plain_process_token m t = (m', Inr a)"
  shows "\<exists>u p body. t = be_bytes 1 5 @ CMD_HELLO @ body \<and> parse_hello_body body = Inr (u, p) \<and>
    expected_username m = Some u \<and> expected_password m = Some p"
  using assms(1,2)
proof (cases rule: plain_process_hello [where t = t])
  case refused
  then have "pm_state m' = PlainError" using assms(3) by simp
  moreover have "pm_state m' \<noteq> PlainError"
    using assms by (auto simp: plain_steps Let_def split: list.splits if_splits sum.splits)
  ultimately show ?thesis by simp
qed blast

lemma plain_server_ready:
  assumes "pm_is_server m" "pm_state m = ServerExpectHello" "plain_status (plain_run es m) = StReady"
  shows "\<exists>u p body. expected_username m = Some u \<and> expected_password m = Some p \<and>
    first_token es = Some (be_bytes 1 5 @ CMD_HELLO @ body) \<and> parse_hello_body body = Inr (u, p)"
  using assms(3)
proof (induction es)
  case Nil
  then show ?case using assms(2) by (simp add: plain_status_def)
next
  case (Cons ev es)
  show ?case
  proof (cases ev)
    case Produce
    then have "plain_run (ev # es) m = plain_run es m"
      using assms(2) by (simp add: mech_run_fst plain_produce_token_def del: mech_run.simps)
    then show ?thesis using Cons Produce by (simp del: mech_run.simps)
  next
    case (Receive t)
    then have run: "plain_run (ev # es) m = plain_run es (fst (plain_process_token m t))"
      by (simp add: mech_run_fst del: mech_run.simps)
    from assms(1,2) show ?thesis
    proof (cases rule: plain_process_hello [where t = t])
      case (accepted u p body)
      then show ?thesis using Receive by auto
    next
      case refused
      then have "plain_status (plain_run (ev # es) m) = StError"
        by (simp add: run plain_status_def plain_error_final del: mech_run.simps)
      then show ?thesis using Cons.prems by simp
    qed
  qed
qed

text \<open>
  Nobody passes PLAIN without the credentials: whatever tokens a peer sends and however they
  interleave with the server's own, the server becomes ready only if both a user name and a password are
  configured and the very first token received is a HELLO that carries exactly these two.
\<close>

theorem plain_server_authenticates:
  assumes "initialize_plain True cfg = Inr m"
    and "plain_status (fst (mech_run plain_process_token plain_produce_token es m)) = StReady"
  shows "\<exists>u p body. plain_username_for_engine cfg = Some u \<and> plain_password_for_engine cfg = Some p \<and>
    first_token es = Some (be_bytes 1 5 @ CMD_HELLO @ body) \<and> parse_hello_body body = Inr (u, p)"
proof -
  have "pm_is_server m" "pm_state m = ServerExpectHello"
      "expected_username m = plain_username_for_engine cfg" "expected_password m = plain_password_for_engine cfg"
    using assms(1) by (auto simp: initialize_plain_def set_server_expected_credentials_def plain_new_def Let_def)
  then show ?thesis using plain_server_ready [OF _ _ assms(2)] by auto
qed

definition example_plain_config :: "bytes option \<Rightarrow> bytes option \<Rightarrow> ZmtpEngineConfig" where
  "example_plain_config u p =
    (engine_config options_default)\<lparr>plain_username_for_engine := u, plain_password_for_engine := p\<rparr>"

theorem plain_server_authenticates_witness:
  "\<exists>u p body. Some [117] = Some u \<and> Some [112] = Some p \<and>
    first_token [Receive [5, 72, 69, 76, 76, 79, 1, 117, 1, 112], Produce] = Some (be_bytes 1 5 @ CMD_HELLO @ body) \<and>
    parse_hello_body body = Inr (u, p)"
proof -
  let ?cfg = "example_plain_config (Some [117]) (Some [112])"
  let ?m = "set_server_expected_credentials (Some [117]) (Some [112]) (plain_new True)"
  let ?es = "[Receive [5, 72, 69, 76, 76, 79, 1, 117, 1, 112], Produce]"
  have i: "initialize_plain True ?cfg = Inr ?m"
    by (simp add: initialize_plain_def example_plain_config_def)
  have "plain_status (fst (mech_run plain_process_token plain_produce_token ?es ?m)) = StReady"
    by (simp add: plain_steps plain_status_def set_server_expected_credentials_def plain_new_def CMD_HELLO_def
        str_def parse_hello_body_def)
  from plain_server_authenticates [OF i this] show ?thesis by (simp add: example_plain_config_def)
qed

lemma parse_create_hello:
  assumes "length u \<le> 255" "length p \<le> 255"
  shows "parse_hello_body (create_hello_body u p) = Inr (u, p)"
proof -
  have "unat (of_nat (length u) :: byte) = length u" "unat (of_nat (length p) :: byte) = length p"
    using assms by (simp_all add: unat_byte_of_nat)
  then show ?thesis using assms by (simp add: create_hello_body_def parse_hello_body_def Let_def)
qed

text \<open>
  A PLAIN exchange between a client and a server ends for both sides with the same verdict: with
  equal credentials (absent ones of the client counting as empty) both become ready and the server knows
  the client's user name; otherwise the server fails with an authentication failure and sends no
  WELCOME.
\<close>

theorem plain_exchange:
  assumes "u = (case cu of None \<Rightarrow> [] | Some x \<Rightarrow> x)" and "p = (case cp of None \<Rightarrow> [] | Some x \<Rightarrow> x)"
    and "length u \<le> 255" and "length p \<le> 255"
  shows "\<exists>c1 hello s1 r. plain_produce_token (set_client_credentials cu cp (plain_new False)) = (c1, Inr (Some hello)) \<and>
    plain_process_token (set_server_expected_credentials su sp (plain_new True)) hello = (s1, r) \<and>
    (if su = Some u \<and> sp = Some p
     then r = Inr ProduceAndSend \<and>
       (\<exists>s2 welcome c2. plain_produce_token s1 = (s2, Inr (Some welcome)) \<and>
          plain_process_token c1 welcome = (c2, Inr HandshakeComplete) \<and>
          plain_status c2 = StReady \<and> plain_status s2 = StReady \<and> pm_username s2 = Some u)
     else r = Inl AuthenticationFailure \<and> plain_status s1 = StError \<and> plain_produce_token s1 = (s1, Inr None))"
proof -
  let ?c = "set_client_credentials cu cp (plain_new False)"
  let ?s = "set_server_expected_credentials su sp (plain_new True)"
  let ?hello = "be_bytes 1 (length CMD_HELLO) @ CMD_HELLO @ create_hello_body u p"
  have "plain_produce_token ?c = (?c\<lparr>pm_state := ClientExpectWelcome\<rparr>, Inr (Some ?hello))"
    by (simp add: plain_produce_token_def set_client_credentials_def plain_new_def Let_def assms(1,2))
  moreover have "?hello = 5 # CMD_HELLO @ create_hello_body u p" "length CMD_HELLO = 5" "CMD_WELCOME \<noteq> CMD_HELLO"
      "length CMD_WELCOME = 7"
    by (simp_all add: CMD_HELLO_def CMD_WELCOME_def str_def)
  ultimately show ?thesis
    using parse_create_hello [OF assms(3,4)]
    by (auto simp: plain_steps set_server_expected_credentials_def set_client_credentials_def plain_new_def
        plain_status_def Let_def)
qed

theorem plain_exchange_witness:
  "\<exists>c1 hello s1 r. plain_produce_token (set_client_credentials (Some [117]) None (plain_new False)) = (c1, Inr (Some hello)) \<and>
    plain_process_token (set_server_expected_credentials (Some [117]) (Some [1]) (plain_new True)) hello = (s1, r) \<and>
    r = Inl AuthenticationFailure"
  using plain_exchange [of "[117]" "Some [117]" "[]" None "Some [117]" "Some [1]"] by auto

end
