(* ===== verification/Curve.thy ===== *)
theory Curve
  imports Plain
begin

text \<open>
  The CURVE mechanism: the handshake (\<^verbatim>\<open>core/src/security/curve/handshake.rs\<close>), its wrapper
  (\<^verbatim>\<open>core/src/security/curve/mechanism.rs\<close>) and the cipher of the data phase
  (\<^verbatim>\<open>core/src/security/curve/cipher.rs\<close>).

  The cryptography is the \<^verbatim>\<open>dryoc\<close> crate's, the parameter \<open>dryoc\<close>; \<open>dryoc_laws\<close> states what it documents.
  The random ephemeral key pair is an argument.  Handshake steps that can panic return an option:
  \<^const>\<open>None\<close> is the panic.
\<close>

section \<open>Parameters\<close>

type_synonym key = bytes

record dryoc =
  pk_of :: "key \<Rightarrow> key"
  beforenm :: "key \<Rightarrow> key \<Rightarrow> key"
  box_seal :: "bytes \<Rightarrow> bytes \<Rightarrow> key \<Rightarrow> bytes \<times> bytes"
  box_open :: "nat \<Rightarrow> bytes \<Rightarrow> bytes \<Rightarrow> bytes \<Rightarrow> key \<Rightarrow> bytes option"
  kx_client :: "key \<Rightarrow> key \<Rightarrow> key \<Rightarrow> (key \<times> key) option"
  kx_server :: "key \<Rightarrow> key \<Rightarrow> key \<Rightarrow> (key \<times> key) option"
  wrong_length :: ZmqError

text \<open>
  Public keys have 32 bytes; the two sides of a key agreement compute the same key; a box opens to what
  was sealed, with a tag of 16 bytes and a ciphertext as long as the message; the session keys of the
  server are those of the client with the directions exchanged.
\<close>

definition dryoc_laws :: "dryoc \<Rightarrow> bool" where
  "dryoc_laws X \<longleftrightarrow>
    (\<forall>sk. length (pk_of X sk) = 32) \<and>
    (\<forall>a b. beforenm X (pk_of X a) b = beforenm X (pk_of X b) a) \<and>
    (\<forall>m n k. case box_seal X m n k of (mac, ct) \<Rightarrow>
       length mac = 16 \<and> length ct = length m \<and> box_open X (length ct) mac ct n k = Some m) \<and>
    (\<forall>c s. kx_server X (pk_of X s) s (pk_of X c) =
       map_option (\<lambda>(rx, tx). (tx, rx)) (kx_client X (pk_of X c) c (pk_of X s)))"


section \<open>Metadata\<close>

fun encode_metadata :: "(bytes \<times> bytes) list \<Rightarrow> bytes" where
  "encode_metadata [] = []"
| "encode_metadata ((k, v) # m) = be_bytes 1 (length k) @ k @ be_bytes 4 (length v) @ v @ encode_metadata m"

function decode_metadata_loop :: "(bytes \<times> bytes) list \<Rightarrow> bytes \<Rightarrow> (bytes \<times> bytes) list res option" where
  "decode_metadata_loop metadata [] = Some (Inr metadata)"
| "decode_metadata_loop metadata (b # data) =
    (if b = 0 then Some (Inr metadata)
     else
       let key_len = unat b
       in if length data < key_len then Some (Inl ProtocolViolation)
          else if \<not> utf8_valid (take key_len data) then None
          else
            let key = take key_len data; data = drop key_len data
            in if length data < 4 then Some (Inl ProtocolViolation)
               else
                 let value_len = be_nat (take 4 data); data = drop 4 data
                 in if length data < value_len then Some (Inl ProtocolViolation)
                    else decode_metadata_loop (alist_put key (take value_len data) metadata) (drop value_len data))"
  by pat_completeness auto
termination
  by (relation "measure (\<lambda>(m, d). length d)") auto

declare decode_metadata_loop.simps(2) [simp del]

definition decode_metadata :: "bytes \<Rightarrow> (bytes \<times> bytes) list res option" where
  "decode_metadata data = decode_metadata_loop [] data"


section \<open>The handshake\<close>

datatype CurveHandshakePhase = ClientStart | ClientSentHello | ClientReadyToProduceInitiate
  | ServerStart | ServerReadyToProduceWelcome | ServerAwaitingInitiate | CurveComplete | CurveError

record Keypair =
  public_key :: key
  secret_key :: key

record CurveHandshake =
  ch_phase :: CurveHandshakePhase
  ch_is_server :: bool
  local_static_keypair :: Keypair
  remote_static_public_key :: "key option"
  local_ephemeral_keypair :: Keypair
  remote_ephemeral_public_key :: "key option"
  precomputed_key :: "key option"
  ch_send_nonce :: "64 word"
  ch_recv_nonce :: "64 word"

definition HELLO_PREFIX :: bytes where "HELLO_PREFIX = 5 # str ''HELLO''"
definition WELCOME_PREFIX :: bytes where "WELCOME_PREFIX = 7 # str ''WELCOME''"
definition INITIATE_PREFIX :: bytes where "INITIATE_PREFIX = 8 # str ''INITIATE''"
definition COOKIE_NONCE_PREFIX :: bytes where "COOKIE_NONCE_PREFIX = str ''COOKIE--''"

definition curve_new :: "dryoc \<Rightarrow> Keypair \<Rightarrow> bool \<Rightarrow> ZmtpEngineConfig \<Rightarrow> CurveHandshake res" where
  "curve_new X ephemeral is_server config =
    (case curve_local_secret_key config of
       None \<Rightarrow> Inl InvalidCurveKey
     | Some sk \<Rightarrow>
         and_then (if is_server then Inr None
                   else (case curve_remote_public_key config of None \<Rightarrow> Inl InvalidCurveKey | Some pk \<Rightarrow> Inr (Some pk)))
           (\<lambda>remote. Inr
             \<lparr>ch_phase = (if is_server then ServerStart else ClientStart), ch_is_server = is_server,
              local_static_keypair = \<lparr>public_key = pk_of X sk, secret_key = sk\<rparr>,
              remote_static_public_key = remote,
              local_ephemeral_keypair = ephemeral,
              remote_ephemeral_public_key = None, precomputed_key = None, ch_send_nonce = 1, ch_recv_nonce = 1\<rparr>))"

definition resize :: "nat \<Rightarrow> bytes \<Rightarrow> bytes" where
  "resize n v = take n v @ replicate (n - length v) 0"

definition build_client_hello :: "CurveHandshake \<Rightarrow> bytes" where
  "build_client_hello h =
    resize (192 + 6) (HELLO_PREFIX @
      encode_metadata [(str ''Public-Key-Client'', public_key (local_ephemeral_keypair h))])"

definition starts_with :: "bytes \<Rightarrow> bytes \<Rightarrow> bool" where
  "starts_with token pre = (take (length pre) token = pre)"

definition to_public_key :: "dryoc \<Rightarrow> bytes \<Rightarrow> key res" where
  "to_public_key X v = (if length v = 32 then Inr v else Inl (wrong_length X))"

text \<open>The value stored under a key in the metadata after a command's prefix.\<close>

definition command_metadata :: "bytes \<Rightarrow> bytes \<Rightarrow> bytes \<Rightarrow> bytes res option" where
  "command_metadata pre name token =
    (if \<not> starts_with token pre then Some (Inl ProtocolViolation)
     else
       (case decode_metadata (drop (length pre) token) of
          None \<Rightarrow> None
        | Some (Inl e) \<Rightarrow> Some (Inl e)
        | Some (Inr metadata) \<Rightarrow> Some (ok_or ProtocolViolation (map_of metadata name))))"

definition process_client_hello :: "dryoc \<Rightarrow> CurveHandshake \<Rightarrow> bytes \<Rightarrow> (CurveHandshake \<times> unit res) option" where
  "process_client_hello X h token =
    (case command_metadata HELLO_PREFIX (str ''Public-Key-Client'') token of
       None \<Rightarrow> None
     | Some (Inl e) \<Rightarrow> Some (h, Inl e)
     | Some (Inr key_bytes) \<Rightarrow>
         (case to_public_key X key_bytes of
            Inl e \<Rightarrow> Some (h, Inl e)
          | Inr pk \<Rightarrow> Some (h\<lparr>remote_ephemeral_public_key := Some pk\<rparr>, Inr ())))"

definition cookie_nonce :: bytes where
  "cookie_nonce = COOKIE_NONCE_PREFIX @ replicate 16 0"

definition build_server_welcome :: "dryoc \<Rightarrow> CurveHandshake \<Rightarrow> bytes option" where
  "build_server_welcome X h =
    (case remote_ephemeral_public_key h of
       None \<Rightarrow> None
     | Some client_eph_pk \<Rightarrow>
         (let k = beforenm X client_eph_pk (secret_key (local_static_keypair h))
          in case box_seal X (public_key (local_ephemeral_keypair h)) cookie_nonce k of (mac, ct) \<Rightarrow>
               Some (resize (128 + 8) (WELCOME_PREFIX @ encode_metadata [(str ''Cookie'', mac @ ct)]))))"

definition process_server_welcome :: "dryoc \<Rightarrow> CurveHandshake \<Rightarrow> bytes \<Rightarrow> (CurveHandshake \<times> unit res) option" where
  "process_server_welcome X h token =
    (case command_metadata WELCOME_PREFIX (str ''Cookie'') token of
       None \<Rightarrow> None
     | Some (Inl e) \<Rightarrow> Some (h, Inl e)
     | Some (Inr cookie) \<Rightarrow>
         (case remote_static_public_key h of
            None \<Rightarrow> None
          | Some server_static_pk \<Rightarrow>
              (let k = beforenm X server_static_pk (secret_key (local_ephemeral_keypair h))
               in if length cookie < 16 then None
                  else
                    (case box_open X 32 (take 16 cookie) (drop 16 cookie) cookie_nonce k of
                       None \<Rightarrow> Some (h, Inl SecurityError)
                     | Some eph \<Rightarrow>
                         (case to_public_key X eph of
                            Inl e \<Rightarrow> Some (h, Inl e)
                          | Inr pk \<Rightarrow>
                              Some (h\<lparr>remote_ephemeral_public_key := Some pk,
                                      precomputed_key := Some (beforenm X pk (secret_key (local_static_keypair h)))\<rparr>,
                                Inr ()))))))"

definition next_send_nonce :: "CurveHandshake \<Rightarrow> CurveHandshake \<times> bytes" where
  "next_send_nonce h =
    (h\<lparr>ch_send_nonce := ch_send_nonce h + 1\<rparr>, replicate 16 0 @ le_bytes 8 (unat (ch_send_nonce h)))"

definition next_recv_nonce :: "CurveHandshake \<Rightarrow> CurveHandshake \<times> bytes" where
  "next_recv_nonce h =
    (h\<lparr>ch_recv_nonce := ch_recv_nonce h + 1\<rparr>, replicate 16 0 @ le_bytes 8 (unat (ch_recv_nonce h)))"

definition build_client_initiate :: "dryoc \<Rightarrow> CurveHandshake \<Rightarrow> (CurveHandshake \<times> bytes) option" where
  "build_client_initiate X h =
    (case remote_static_public_key h of
       None \<Rightarrow> None
     | Some server_static_pk \<Rightarrow>
         (let initiate_key = beforenm X server_static_pk (secret_key (local_ephemeral_keypair h))
          in case next_send_nonce h of (h', nonce) \<Rightarrow>
               let metadata_bytes = encode_metadata
                     [(str ''Public-Key-Client'', public_key (local_static_keypair h'))]
               in case box_seal X metadata_bytes nonce initiate_key of (mac, ct) \<Rightarrow>
                    Some (h', resize (128 + 9) (INITIATE_PREFIX @ encode_metadata [(str ''Ciphertext'', mac @ ct)]))))"

definition process_client_initiate :: "dryoc \<Rightarrow> CurveHandshake \<Rightarrow> bytes \<Rightarrow> (CurveHandshake \<times> unit res) option" where
  "process_client_initiate X h token =
    (case command_metadata INITIATE_PREFIX (str ''Ciphertext'') token of
       None \<Rightarrow> None
     | Some (Inl e) \<Rightarrow> Some (h, Inl e)
     | Some (Inr ciphertext_with_mac) \<Rightarrow>
         (case remote_ephemeral_public_key h of
            None \<Rightarrow> None
          | Some client_eph_pk \<Rightarrow>
              (let initial_k = beforenm X client_eph_pk (secret_key (local_static_keypair h))
               in if length ciphertext_with_mac < 16 then None
                  else
                    let mac = take 16 ciphertext_with_mac; ciphertext = drop 16 ciphertext_with_mac
                    in case next_recv_nonce h of (h, nonce) \<Rightarrow>
                         (case box_open X (length ciphertext) mac ciphertext nonce initial_k of
                            None \<Rightarrow> Some (h, Inl SecurityError)
                          | Some decrypted \<Rightarrow>
                              (case decode_metadata decrypted of
                                 None \<Rightarrow> None
                               | Some (Inl e) \<Rightarrow> Some (h, Inl e)
                               | Some (Inr metadata) \<Rightarrow>
                                   (case map_of metadata (str ''Public-Key-Client'') of
                                      None \<Rightarrow> Some (h, Inl ProtocolViolation)
                                    | Some key_bytes \<Rightarrow>
                                        (case to_public_key X key_bytes of
                                           Inl e \<Rightarrow> Some (h, Inl e)
                                         | Inr pk \<Rightarrow>
                                             Some (h\<lparr>remote_static_public_key := Some pk,
                                               precomputed_key := Some (beforenm X pk (secret_key (local_ephemeral_keypair h)))\<rparr>,
                                               Inr ()))))))))"

definition into_session_keys :: "dryoc \<Rightarrow> CurveHandshake \<Rightarrow> (key \<times> key) res" where
  "into_session_keys X h =
    (if ch_phase h \<noteq> CurveComplete then Inl InvalidState
     else
       (case remote_static_public_key h of
          None \<Rightarrow> Inl InvalidState
        | Some remote_pk \<Rightarrow>
            ok_or SecurityError
              (if ch_is_server h
               then kx_server X (public_key (local_static_keypair h)) (secret_key (local_static_keypair h)) remote_pk
               else kx_client X (public_key (local_static_keypair h)) (secret_key (local_static_keypair h)) remote_pk)))"


section \<open>The data cipher\<close>

record CurveDataCipher =
  encode_key :: key
  decode_key :: key
  send_nonce_counter :: "64 word"
  recv_nonce_counter :: "64 word"

definition curve_cipher_new :: "key \<Rightarrow> key \<Rightarrow> CurveDataCipher" where
  "curve_cipher_new ek dk = \<lparr>encode_key = ek, decode_key = dk, send_nonce_counter = 1, recv_nonce_counter = 1\<rparr>"

definition construct_nonce :: "64 word \<Rightarrow> bytes" where
  "construct_nonce counter = str ''CurveZMQ-Encrypt'' @ le_bytes 8 (unat counter)"

definition curve_encrypt :: "dryoc \<Rightarrow> CurveDataCipher \<Rightarrow> bytes \<Rightarrow> CurveDataCipher \<times> bytes res" where
  "curve_encrypt X c plaintext =
    (case box_seal X plaintext (construct_nonce (send_nonce_counter c)) (encode_key c) of (mac, ct) \<Rightarrow>
       (c\<lparr>send_nonce_counter := send_nonce_counter c + 1\<rparr>, Inr (mac @ ct)))"

definition curve_decrypt :: "dryoc \<Rightarrow> CurveDataCipher \<Rightarrow> bytes \<Rightarrow> CurveDataCipher \<times> bytes res" where
  "curve_decrypt X c ciphertext_with_mac =
    (if length ciphertext_with_mac < 16 then (c, Inl InvalidMessage)
     else
       let mac = take 16 ciphertext_with_mac; ct = drop 16 ciphertext_with_mac
       in case box_open X (length ct) mac ct (construct_nonce (recv_nonce_counter c)) (decode_key c) of
            None \<Rightarrow> (c, Inl AuthenticationFailure)
          | Some decrypted \<Rightarrow> (c\<lparr>recv_nonce_counter := recv_nonce_counter c + 1\<rparr>, Inr decrypted))"

definition curve_cipher :: "dryoc \<Rightarrow> CurveDataCipher data_cipher" where
  "curve_cipher X = \<lparr>cipher_encrypt = curve_encrypt X, cipher_decrypt = curve_decrypt X\<rparr>"

definition into_data_cipher :: "dryoc \<Rightarrow> CurveHandshake \<Rightarrow> CurveDataCipher res" where
  "into_data_cipher X h = and_then (into_session_keys X h) (\<lambda>(rx, tx). Inr (curve_cipher_new tx rx))"


section \<open>The mechanism\<close>

record CurveMechanism =
  cm_handshake :: CurveHandshake
  cm_status :: MechanismStatus
  cm_error_reason :: "unit option"

definition CURVE_NAME_BYTES :: bytes where "CURVE_NAME_BYTES = mech_name_bytes ''CURVE''"

definition initialize_curve :: "dryoc \<Rightarrow> Keypair \<Rightarrow> bool \<Rightarrow> ZmtpEngineConfig \<Rightarrow> CurveMechanism res" where
  "initialize_curve X ephemeral is_server local_config =
    and_then (curve_new X ephemeral is_server local_config)
      (\<lambda>h. Inr \<lparr>cm_handshake = h, cm_status = StHandshaking, cm_error_reason = None\<rparr>)"

definition curve_produce_token :: "dryoc \<Rightarrow> CurveMechanism \<Rightarrow> (CurveMechanism \<times> bytes option res) option" where
  "curve_produce_token X m =
    (let h = cm_handshake m
     in case ch_phase h of
          ClientStart \<Rightarrow>
            Some (m\<lparr>cm_handshake := h\<lparr>ch_phase := ClientSentHello\<rparr>\<rparr>, Inr (Some (build_client_hello h)))
        | ServerReadyToProduceWelcome \<Rightarrow>
            (case build_server_welcome X h of
               None \<Rightarrow> None
             | Some body \<Rightarrow> Some (m\<lparr>cm_handshake := h\<lparr>ch_phase := ServerAwaitingInitiate\<rparr>\<rparr>, Inr (Some body)))
        | ClientReadyToProduceInitiate \<Rightarrow>
            (case build_client_initiate X h of
               None \<Rightarrow> None
             | Some (h', body) \<Rightarrow>
                 Some (m\<lparr>cm_handshake := h'\<lparr>ch_phase := CurveComplete\<rparr>, cm_status := StReady\<rparr>, Inr (Some body)))
        | _ \<Rightarrow> Some (m, Inr None))"

definition curve_process_token :: "dryoc \<Rightarrow> CurveMechanism \<Rightarrow> bytes \<Rightarrow> (CurveMechanism \<times> ProcessTokenAction res) option" where
  "curve_process_token X m token =
    (let h = cm_handshake m
     in case ch_phase h of
          ServerStart \<Rightarrow>
            (case process_client_hello X h token of
               None \<Rightarrow> None
             | Some (h', Inl e) \<Rightarrow> Some (m\<lparr>cm_handshake := h'\<rparr>, Inl e)
             | Some (h', Inr _) \<Rightarrow>
                 Some (m\<lparr>cm_handshake := h'\<lparr>ch_phase := ServerReadyToProduceWelcome\<rparr>\<rparr>, Inr ProduceAndSend))
        | ClientSentHello \<Rightarrow>
            (case process_server_welcome X h token of
               None \<Rightarrow> None
             | Some (h', Inl e) \<Rightarrow> Some (m\<lparr>cm_handshake := h'\<rparr>, Inl e)
             | Some (h', Inr _) \<Rightarrow>
                 Some (m\<lparr>cm_handshake := h'\<lparr>ch_phase := ClientReadyToProduceInitiate\<rparr>\<rparr>, Inr ProduceAndSend))
        | ServerAwaitingInitiate \<Rightarrow>
            (case process_client_initiate X h token of
               None \<Rightarrow> None
             | Some (h', Inl e) \<Rightarrow> Some (m\<lparr>cm_handshake := h'\<rparr>, Inl e)
             | Some (h', Inr _) \<Rightarrow>
                 Some (m\<lparr>cm_handshake := h'\<lparr>ch_phase := CurveComplete\<rparr>, cm_status := StReady\<rparr>, Inr HandshakeComplete))
        | _ \<Rightarrow> Some (m, Inl InvalidState))"

definition curve_set_error :: "CurveMechanism \<Rightarrow> CurveMechanism" where
  "curve_set_error m =
    (if cm_status m \<noteq> StError
     then m\<lparr>cm_status := StError, cm_error_reason := Some (), cm_handshake := (cm_handshake m)\<lparr>ch_phase := CurveError\<rparr>\<rparr>
     else m)"

definition curve_peer_identity :: "CurveMechanism \<Rightarrow> bytes option" where
  "curve_peer_identity m = remote_static_public_key (cm_handshake m)"

definition curve_into_framer ::
  "dryoc \<Rightarrow> CurveMechanism \<Rightarrow> int \<Rightarrow> (CurveDataCipher LengthPrefixedFramer \<times> bytes option) res" where
  "curve_into_framer X m limit =
    (if cm_status m \<noteq> StReady then Inl InvalidState
     else
       let peer_identity = remote_static_public_key (cm_handshake m)
       in and_then (into_data_cipher X (cm_handshake m)) (\<lambda>c. Inr (lp_framer_new c limit, peer_identity)))"


section \<open>Commands on the wire\<close>

lemma decode_metadata_zeros: "decode_metadata_loop m (replicate n 0) = Some (Inr m)"
  by (cases n) (simp_all add: decode_metadata_loop.simps(2))

lemma decode_metadata_single:
  assumes "utf8_valid k" "0 < length k" "length k < 256" "length v < 2 ^ 32"
  shows "decode_metadata (encode_metadata [(k, v)] @ replicate n 0) = Some (Inr [(k, v)])"
proof -
  have "unat (of_nat (length k) :: byte) = length k" using assms(3) by (simp add: unat_byte_of_nat)
  moreover from this have "(of_nat (length k) :: byte) \<noteq> 0" using assms(2) by (metis less_irrefl unat_0)
  moreover have "be_nat (be_bytes 4 (length v)) = length v" using assms(4) by (simp add: be_nat_be_bytes)
  ultimately show ?thesis
    using assms(1) by (simp add: decode_metadata_def decode_metadata_loop.simps(2) Let_def decode_metadata_zeros)
qed

lemma length_encode_metadata_single: "length (encode_metadata [(k, v)]) = 5 + length k + length v"
  by simp

lemma metadata_names:
  "utf8_valid (str ''Public-Key-Client'')" "utf8_valid (str ''Cookie'')" "utf8_valid (str ''Ciphertext'')"
  by (simp_all add: str_def)

lemma command_metadata_padded:
  assumes "utf8_valid k" "0 < length k" "length k < 256" "length v < 2 ^ 32"
    and "length pre + 5 + length k + length v \<le> n"
  shows "command_metadata pre k (resize n (pre @ encode_metadata [(k, v)])) = Some (Inr v)"
proof -
  have "resize n (pre @ encode_metadata [(k, v)]) =
      pre @ encode_metadata [(k, v)] @ replicate (n - (length pre + (5 + length k + length v))) 0"
    using assms(5) unfolding resize_def by (simp del: encode_metadata.simps add: length_encode_metadata_single)
  then show ?thesis
    using decode_metadata_single [OF assms(1-4)]
    by (simp add: command_metadata_def starts_with_def del: encode_metadata.simps)
qed

lemmas dryoc_box_law =
  iffD1 [OF dryoc_laws_def, THEN conjunct2, THEN conjunct2, THEN conjunct1, THEN spec, THEN spec, THEN spec]

lemma dryoc_pk_length: "dryoc_laws X \<Longrightarrow> length (pk_of X sk) = 32"
  and dryoc_agree: "dryoc_laws X \<Longrightarrow> beforenm X (pk_of X a) b = beforenm X (pk_of X b) a"
  and dryoc_kx: "dryoc_laws X \<Longrightarrow> kx_server X (pk_of X s) s (pk_of X c) =
       map_option (\<lambda>(rx, tx). (tx, rx)) (kx_client X (pk_of X c) c (pk_of X s))"
  by (simp_all add: dryoc_laws_def)

lemma dryoc_box:
  assumes "dryoc_laws X" "box_seal X m n k = (mac, ct)"
  shows "length mac = 16" "length ct = length m" "box_open X (length m) mac ct n k = Some m"
  using dryoc_box_law [OF assms(1), of m n k] assms(2) by auto


section \<open>The exchange of a client and a server\<close>

definition deliver_token :: "dryoc \<Rightarrow> CurveMechanism \<Rightarrow> CurveMechanism \<Rightarrow> (CurveMechanism \<times> CurveMechanism) option" where
  "deliver_token X a b =
    (case curve_produce_token X a of
       Some (a', Inr (Some token)) \<Rightarrow>
         (case curve_process_token X b token of Some (b', Inr _) \<Rightarrow> Some (a', b') | _ \<Rightarrow> None)
     | _ \<Rightarrow> None)"

definition curve_exchange :: "dryoc \<Rightarrow> CurveMechanism \<Rightarrow> CurveMechanism \<Rightarrow> (CurveMechanism \<times> CurveMechanism) option" where
  "curve_exchange X c s =
    (case deliver_token X c s of
       None \<Rightarrow> None
     | Some (c, s) \<Rightarrow>
         (case deliver_token X s c of
            None \<Rightarrow> None
          | Some (s, c) \<Rightarrow> deliver_token X c s))"

definition key_pair :: "dryoc \<Rightarrow> key \<Rightarrow> Keypair" where
  "key_pair X sk = \<lparr>public_key = pk_of X sk, secret_key = sk\<rparr>"

lemma hello_received:
  assumes "dryoc_laws X" "local_ephemeral_keypair c = key_pair X ce"
  shows "process_client_hello X s (build_client_hello c) =
    Some (s\<lparr>remote_ephemeral_public_key := Some (pk_of X ce)\<rparr>, Inr ())"
proof -
  have "command_metadata HELLO_PREFIX (str ''Public-Key-Client'') (build_client_hello c) = Some (Inr (pk_of X ce))"
    unfolding build_client_hello_def assms(2) key_pair_def Keypair.simps
    by (rule command_metadata_padded) (simp_all add: metadata_names dryoc_pk_length [OF assms(1)] HELLO_PREFIX_def)
  then show ?thesis by (simp add: process_client_hello_def to_public_key_def dryoc_pk_length [OF assms(1)])
qed

lemma welcome_received:
  assumes laws: "dryoc_laws X" and s: "remote_ephemeral_public_key s = Some (pk_of X ce)"
    "local_static_keypair s = key_pair X ss" "local_ephemeral_keypair s = key_pair X se"
    and c: "remote_static_public_key c = Some (pk_of X ss)" "local_ephemeral_keypair c = key_pair X ce"
    "local_static_keypair c = key_pair X cs"
  shows "\<exists>w. build_server_welcome X s = Some w \<and>
    process_server_welcome X c w =
      Some (c\<lparr>remote_ephemeral_public_key := Some (pk_of X se), precomputed_key := Some (beforenm X (pk_of X se) cs)\<rparr>, Inr ())"
proof -
  let ?k = "beforenm X (pk_of X ce) ss"
  obtain mac ct where b: "box_seal X (pk_of X se) cookie_nonce ?k = (mac, ct)" by fastforce
  note box = dryoc_box [OF laws b] and pk = dryoc_pk_length [OF laws]
  let ?w = "resize (128 + 8) (WELCOME_PREFIX @ encode_metadata [(str ''Cookie'', mac @ ct)])"
  have w: "build_server_welcome X s = Some ?w"
    using s b by (simp add: build_server_welcome_def key_pair_def del: encode_metadata.simps)
  have "command_metadata WELCOME_PREFIX (str ''Cookie'') ?w = Some (Inr (mac @ ct))"
    by (rule command_metadata_padded) (simp_all add: metadata_names box pk WELCOME_PREFIX_def)
  then have "process_server_welcome X c ?w =
      Some (c\<lparr>remote_ephemeral_public_key := Some (pk_of X se), precomputed_key := Some (beforenm X (pk_of X se) cs)\<rparr>, Inr ())"
    using c box pk dryoc_agree [OF laws, of ss ce]
    by (simp add: process_server_welcome_def to_public_key_def key_pair_def Let_def)
  with w show ?thesis by blast
qed

lemma initiate_received:
  assumes laws: "dryoc_laws X" and s: "remote_ephemeral_public_key s = Some (pk_of X ce)"
    "local_static_keypair s = key_pair X ss" "local_ephemeral_keypair s = key_pair X se" "ch_recv_nonce s = n"
    and c: "remote_static_public_key c = Some (pk_of X ss)" "local_ephemeral_keypair c = key_pair X ce"
    "local_static_keypair c = key_pair X cs" "ch_send_nonce c = n"
  shows "\<exists>w. build_client_initiate X c = Some (c\<lparr>ch_send_nonce := n + 1\<rparr>, w) \<and>
    process_client_initiate X s w =
      Some (s\<lparr>ch_recv_nonce := n + 1, remote_static_public_key := Some (pk_of X cs),
        precomputed_key := Some (beforenm X (pk_of X cs) se)\<rparr>, Inr ())"
proof -
  let ?k = "beforenm X (pk_of X ss) ce" and ?n = "replicate 16 0 @ le_bytes 8 (unat n)"
  let ?m = "encode_metadata [(str ''Public-Key-Client'', pk_of X cs)]"
  obtain mac ct where b: "box_seal X ?m ?n ?k = (mac, ct)" by fastforce
  note box = dryoc_box [OF laws b] and pk = dryoc_pk_length [OF laws]
  let ?w = "resize (128 + 9) (INITIATE_PREFIX @ encode_metadata [(str ''Ciphertext'', mac @ ct)])"
  have w: "build_client_initiate X c = Some (c\<lparr>ch_send_nonce := n + 1\<rparr>, ?w)"
    using c b by (simp add: build_client_initiate_def next_send_nonce_def key_pair_def Let_def del: encode_metadata.simps)
  have len: "length ?m = 54" by (simp add: pk)
  have "command_metadata INITIATE_PREFIX (str ''Ciphertext'') ?w = Some (Inr (mac @ ct))"
    by (rule command_metadata_padded) (simp_all add: metadata_names box(1) box(2) [unfolded len] INITIATE_PREFIX_def)
  moreover have "decode_metadata ?m = Some (Inr [(str ''Public-Key-Client'', pk_of X cs)])"
    using decode_metadata_single [of "str ''Public-Key-Client''" "pk_of X cs" 0]
    by (simp add: metadata_names pk del: encode_metadata.simps)
  ultimately have "process_client_initiate X s ?w =
      Some (s\<lparr>ch_recv_nonce := n + 1, remote_static_public_key := Some (pk_of X cs),
        precomputed_key := Some (beforenm X (pk_of X cs) se)\<rparr>, Inr ())"
    using s box pk dryoc_agree [OF laws, of ss ce]
    by (simp add: process_client_initiate_def next_recv_nonce_def to_public_key_def key_pair_def Let_def
        del: encode_metadata.simps)
  with w show ?thesis by blast
qed


lemma curve_exchange_result:
  assumes laws: "dryoc_laws X"
    and c: "initialize_curve X (key_pair X ce) False ccfg = Inr c"
    and s: "initialize_curve X (key_pair X se) True scfg = Inr s"
    and keys: "curve_local_secret_key ccfg = Some cs" "curve_remote_public_key ccfg = Some (pk_of X ss)"
      "curve_local_secret_key scfg = Some ss"
  shows "\<exists>c' s'. curve_exchange X c s = Some (c', s') \<and> cm_status c' = StReady \<and> cm_status s' = StReady \<and>
    (let hc = cm_handshake c'; hs = cm_handshake s'
     in ch_phase hc = CurveComplete \<and> ch_phase hs = CurveComplete \<and> \<not> ch_is_server hc \<and> ch_is_server hs \<and>
        local_static_keypair hc = key_pair X cs \<and> local_static_keypair hs = key_pair X ss \<and>
        remote_static_public_key hc = Some (pk_of X ss) \<and> remote_static_public_key hs = Some (pk_of X cs) \<and>
        precomputed_key hc = precomputed_key hs \<and> precomputed_key hc \<noteq> None)"
proof -
  have hc: "c = \<lparr>cm_handshake = \<lparr>ch_phase = ClientStart, ch_is_server = False, local_static_keypair = key_pair X cs,
      remote_static_public_key = Some (pk_of X ss), local_ephemeral_keypair = key_pair X ce,
      remote_ephemeral_public_key = None, precomputed_key = None, ch_send_nonce = 1, ch_recv_nonce = 1\<rparr>,
      cm_status = StHandshaking, cm_error_reason = None\<rparr>" (is "c = \<lparr>cm_handshake = ?hc, cm_status = _, cm_error_reason = _\<rparr>")
    using c keys by (auto simp: initialize_curve_def curve_new_def key_pair_def)
  have hs: "s = \<lparr>cm_handshake = \<lparr>ch_phase = ServerStart, ch_is_server = True, local_static_keypair = key_pair X ss,
      remote_static_public_key = None, local_ephemeral_keypair = key_pair X se,
      remote_ephemeral_public_key = None, precomputed_key = None, ch_send_nonce = 1, ch_recv_nonce = 1\<rparr>,
      cm_status = StHandshaking, cm_error_reason = None\<rparr>" (is "s = \<lparr>cm_handshake = ?hs, cm_status = _, cm_error_reason = _\<rparr>")
    using s keys by (auto simp: initialize_curve_def curve_new_def key_pair_def)
  let ?hs1 = "?hs\<lparr>remote_ephemeral_public_key := Some (pk_of X ce), ch_phase := ServerReadyToProduceWelcome\<rparr>"
  let ?hc1 = "?hc\<lparr>ch_phase := ClientSentHello\<rparr>"
  let ?hs2 = "?hs1\<lparr>ch_phase := ServerAwaitingInitiate\<rparr>"
  let ?hc2 = "?hc1\<lparr>remote_ephemeral_public_key := Some (pk_of X se),
      precomputed_key := Some (beforenm X (pk_of X se) cs), ch_phase := ClientReadyToProduceInitiate\<rparr>"
  have 1: "deliver_token X c s = Some (c\<lparr>cm_handshake := ?hc1\<rparr>, s\<lparr>cm_handshake := ?hs1\<rparr>)"
    using hello_received [OF laws, of ?hc ce ?hs]
    by (simp add: hc hs deliver_token_def curve_produce_token_def curve_process_token_def)
  obtain w where "build_server_welcome X ?hs1 = Some w" "process_server_welcome X ?hc1 w =
      Some (?hc1\<lparr>remote_ephemeral_public_key := Some (pk_of X se), precomputed_key := Some (beforenm X (pk_of X se) cs)\<rparr>, Inr ())"
    using welcome_received [OF laws, of ?hs1 ce ss se ?hc1 cs] by auto
  then have 2: "deliver_token X (s\<lparr>cm_handshake := ?hs1\<rparr>) (c\<lparr>cm_handshake := ?hc1\<rparr>) =
      Some (s\<lparr>cm_handshake := ?hs2\<rparr>, c\<lparr>cm_handshake := ?hc2\<rparr>)"
    by (simp add: hc hs deliver_token_def curve_produce_token_def curve_process_token_def)
  obtain w' where "build_client_initiate X ?hc2 = Some (?hc2\<lparr>ch_send_nonce := 1 + 1\<rparr>, w')"
      "process_client_initiate X ?hs2 w' = Some (?hs2\<lparr>ch_recv_nonce := 1 + 1, remote_static_public_key := Some (pk_of X cs),
        precomputed_key := Some (beforenm X (pk_of X cs) se)\<rparr>, Inr ())"
    using initiate_received [OF laws, of ?hs2 ce ss se 1 ?hc2 cs] by auto
  then have "\<exists>c' s'. deliver_token X (c\<lparr>cm_handshake := ?hc2\<rparr>) (s\<lparr>cm_handshake := ?hs2\<rparr>) = Some (c', s') \<and>
      cm_handshake c' = ?hc2\<lparr>ch_send_nonce := 1 + 1, ch_phase := CurveComplete\<rparr> \<and> cm_status c' = StReady \<and>
      cm_handshake s' = ?hs2\<lparr>ch_recv_nonce := 1 + 1, remote_static_public_key := Some (pk_of X cs),
        precomputed_key := Some (beforenm X (pk_of X cs) se), ch_phase := CurveComplete\<rparr> \<and> cm_status s' = StReady"
    by (simp add: hc hs deliver_token_def curve_produce_token_def curve_process_token_def)
  then show ?thesis
    using 1 2 dryoc_agree [OF laws, of se cs] by (auto simp: curve_exchange_def Let_def)
qed

text \<open>
  C11. The CURVE handshake succeeds and agrees: a client that knows the server's public key and a server
  that knows only its own secret key complete the three-message exchange; each then knows the other's
  long-term public key, and both computed the same ephemeral key.
\<close>

theorem curve_agreement:
  assumes "dryoc_laws X"
    and "initialize_curve X (key_pair X ce) False ccfg = Inr c"
    and "initialize_curve X (key_pair X se) True scfg = Inr s"
    and "curve_local_secret_key ccfg = Some cs" and "curve_remote_public_key ccfg = Some (pk_of X ss)"
    and "curve_local_secret_key scfg = Some ss"
  shows "\<exists>c' s'. curve_exchange X c s = Some (c', s') \<and> cm_status c' = StReady \<and> cm_status s' = StReady \<and>
    curve_peer_identity c' = Some (pk_of X ss) \<and> curve_peer_identity s' = Some (pk_of X cs) \<and>
    precomputed_key (cm_handshake c') = precomputed_key (cm_handshake s') \<and>
    precomputed_key (cm_handshake c') \<noteq> None"
  using curve_exchange_result [OF assms] by (auto simp: curve_peer_identity_def Let_def)

text \<open>A concrete instance of the parameters, without any secrecy, that satisfies the laws.\<close>

definition toy_norm :: "bytes \<Rightarrow> bytes" where
  "toy_norm b = take 32 (b @ replicate 32 0)"

definition toy_dryoc :: dryoc where
  "toy_dryoc =
    \<lparr>pk_of = toy_norm, beforenm = \<lambda>a b. map2 (+) (toy_norm a) (toy_norm b),
     box_seal = \<lambda>m n k. (replicate 16 0, m), box_open = \<lambda>l mac ct n k. Some ct,
     kx_client = \<lambda>pk sk peer. Some (peer, pk), kx_server = \<lambda>pk sk peer. Some (peer, pk),
     wrong_length = SecurityError\<rparr>"

lemma toy_norm_simps [simp]: "length (toy_norm b) = 32" "toy_norm (toy_norm b) = toy_norm b"
  by (simp_all add: toy_norm_def)

lemma map2_add_commute: "map2 (+) a b = map2 (+) b (a :: byte list)"
  by (induction a b rule: list_induct2') (auto simp: add.commute)

lemma toy_dryoc_laws: "dryoc_laws toy_dryoc"
  using map2_add_commute by (auto simp: dryoc_laws_def toy_dryoc_def)

definition example_curve_config :: "bytes \<Rightarrow> bytes option \<Rightarrow> ZmtpEngineConfig" where
  "example_curve_config sk pk =
    (engine_config options_default)\<lparr>curve_local_secret_key := Some sk, curve_remote_public_key := pk\<rparr>"

theorem curve_agreement_witness:
  "\<exists>c s c' s'. initialize_curve toy_dryoc (key_pair toy_dryoc [3]) False (example_curve_config [1] (Some (pk_of toy_dryoc [2]))) = Inr c \<and>
    initialize_curve toy_dryoc (key_pair toy_dryoc [4]) True (example_curve_config [2] None) = Inr s \<and>
    curve_exchange toy_dryoc c s = Some (c', s') \<and> curve_peer_identity s' = Some (toy_norm [1])"
proof -
  obtain c where c: "initialize_curve toy_dryoc (key_pair toy_dryoc [3]) False
      (example_curve_config [1] (Some (pk_of toy_dryoc [2]))) = Inr c"
    by (simp add: initialize_curve_def curve_new_def example_curve_config_def)
  obtain s where s: "initialize_curve toy_dryoc (key_pair toy_dryoc [4]) True (example_curve_config [2] None) = Inr s"
    by (simp add: initialize_curve_def curve_new_def example_curve_config_def)
  from curve_agreement [OF toy_dryoc_laws c s, of "[1]" "[2]"] c s show ?thesis
    by (auto simp: example_curve_config_def toy_dryoc_def)
qed


section \<open>The data phase\<close>

definition curve_in_step :: "CurveDataCipher \<Rightarrow> CurveDataCipher \<Rightarrow> bool" where
  "curve_in_step s r \<longleftrightarrow> encode_key s = decode_key r \<and> send_nonce_counter s = recv_nonce_counter r"

lemma curve_cipher_in_step: "dryoc_laws X \<Longrightarrow> cipher_in_step (curve_cipher X) (curve_cipher X) curve_in_step"
proof -
  assume laws: "dryoc_laws X"
  show ?thesis
    unfolding cipher_in_step_def
  proof (intro allI impI)
    fix s r p s' out
    assume R: "curve_in_step s r" and e: "cipher_encrypt (curve_cipher X) s p = (s', Inr out)"
    obtain mac ct where b: "box_seal X p (construct_nonce (send_nonce_counter s)) (encode_key s) = (mac, ct)"
      by fastforce
    show "\<exists>r'. cipher_decrypt (curve_cipher X) r out = (r', Inr p) \<and> curve_in_step s' r'"
      using e b R dryoc_box [OF laws b]
      by (auto simp: curve_cipher_def curve_encrypt_def curve_decrypt_def curve_in_step_def)
  qed
qed




text \<open>The nonces a cipher uses for its next messages.\<close>

fun nonces_used :: "dryoc \<Rightarrow> nat \<Rightarrow> CurveDataCipher \<Rightarrow> bytes list" where
  "nonces_used X 0 c = []"
| "nonces_used X (Suc n) c = construct_nonce (send_nonce_counter c) # nonces_used X n (fst (curve_encrypt X c []))"

lemma nonces_used_eq:
  "nonces_used X n c = map (\<lambda>i. construct_nonce (send_nonce_counter c + of_nat i)) [0..<n]"
proof (induction n arbitrary: c)
  case (Suc n)
  have "send_nonce_counter (fst (curve_encrypt X c [])) = send_nonce_counter c + 1"
    by (simp add: curve_encrypt_def split: prod.splits)
  then show ?case
    using Suc.IH [of "fst (curve_encrypt X c [])"]
    by (simp add: upt_conv_Cons map_Suc_upt [symmetric] algebra_simps del: upt_Suc)
qed simp

lemma unat_less_two_power: "unat (w :: 'a::len word) < 2 ^ LENGTH('a)"
  by (rule unsigned_less)

lemma construct_nonce_inj: "construct_nonce a = construct_nonce b \<Longrightarrow> a = b"
proof -
  assume "construct_nonce a = construct_nonce b"
  then have "le_bytes 8 (unat a) = le_bytes 8 (unat b)" by (simp add: construct_nonce_def)
  moreover have "unat a < 256 ^ 8" "unat b < 256 ^ 8" using unat_less_two_power [of a] unat_less_two_power [of b] by simp_all
  ultimately show ?thesis by (metis le_bytes_inj word_unat_eq_iff)
qed



text \<open>
  C37. Across connections nonces and keys are reused: the keys of the data phase depend on the long-term
  keys only, not on the ephemeral ones, and the counter restarts at 1.  Two connections between the same
  two parties therefore seal their first messages under the same key with the same nonce.
\<close>

theorem curve_sessions_share_keystream:
  assumes "ch_phase h1 = CurveComplete" and "ch_phase h2 = CurveComplete"
    and "ch_is_server h1 = ch_is_server h2" and "local_static_keypair h1 = local_static_keypair h2"
    and "remote_static_public_key h1 = remote_static_public_key h2"
    and "into_data_cipher X h1 = Inr c1"
  shows "\<exists>c2. into_data_cipher X h2 = Inr c2 \<and>
    (\<exists>k n. snd (curve_encrypt X c1 m1) = (case box_seal X m1 n k of (mac, ct) \<Rightarrow> Inr (mac @ ct)) \<and>
      snd (curve_encrypt X c2 m2) = (case box_seal X m2 n k of (mac, ct) \<Rightarrow> Inr (mac @ ct)))"
proof -
  have "into_data_cipher X h2 = Inr c1"
    using assms(6) unfolding into_data_cipher_def into_session_keys_def assms(1-5) .
  moreover have "snd (curve_encrypt X c1 m) =
      (case box_seal X m (construct_nonce (send_nonce_counter c1)) (encode_key c1) of (mac, ct) \<Rightarrow> Inr (mac @ ct))" for m
    by (simp add: curve_encrypt_def split: prod.splits)
  ultimately show ?thesis by blast
qed

definition example_complete :: "Keypair \<Rightarrow> CurveHandshake" where
  "example_complete e =
    \<lparr>ch_phase = CurveComplete, ch_is_server = False, local_static_keypair = key_pair toy_dryoc [1],
     remote_static_public_key = Some (toy_norm [2]), local_ephemeral_keypair = e,
     remote_ephemeral_public_key = None, precomputed_key = None, ch_send_nonce = 2, ch_recv_nonce = 1\<rparr>"

theorem curve_sessions_share_keystream_witness:
  "\<exists>c2. into_data_cipher toy_dryoc (example_complete (key_pair toy_dryoc [9])) = Inr c2 \<and>
    (\<exists>k n. snd (curve_encrypt toy_dryoc (curve_cipher_new (toy_norm [1]) (toy_norm [2])) [10]) =
        (case box_seal toy_dryoc [10] n k of (mac, ct) \<Rightarrow> Inr (mac @ ct)) \<and>
      snd (curve_encrypt toy_dryoc c2 [11]) = (case box_seal toy_dryoc [11] n k of (mac, ct) \<Rightarrow> Inr (mac @ ct)))"
proof -
  have "into_data_cipher toy_dryoc (example_complete (key_pair toy_dryoc [8])) =
      Inr (curve_cipher_new (toy_norm [1]) (toy_norm [2]))"
    by (simp add: into_data_cipher_def into_session_keys_def example_complete_def key_pair_def toy_dryoc_def)
  then show ?thesis
    by (intro curve_sessions_share_keystream [where ?h1.0 = "example_complete (key_pair toy_dryoc [8])"])
      (simp_all add: example_complete_def)
qed


section \<open>Errors and termination\<close>



text \<open>A panic ends the task, so for the token exchange it counts as a failed step.\<close>

definition curve_process_step :: "dryoc \<Rightarrow> CurveMechanism \<Rightarrow> bytes \<Rightarrow> CurveMechanism \<times> ProcessTokenAction res" where
  "curve_process_step X m t = (case curve_process_token X m t of None \<Rightarrow> (m, Inl Internal) | Some r \<Rightarrow> r)"

definition curve_produce_step :: "dryoc \<Rightarrow> CurveMechanism \<Rightarrow> CurveMechanism \<times> bytes option res" where
  "curve_produce_step X m = (case curve_produce_token X m of None \<Rightarrow> (m, Inl Internal) | Some r \<Rightarrow> r)"

definition curve_rank :: "CurveMechanism \<Rightarrow> nat" where
  "curve_rank m =
    (case ch_phase (cm_handshake m) of
       ClientStart \<Rightarrow> 3 | ClientSentHello \<Rightarrow> 2 | ClientReadyToProduceInitiate \<Rightarrow> 1
     | ServerStart \<Rightarrow> 3 | ServerReadyToProduceWelcome \<Rightarrow> 2 | ServerAwaitingInitiate \<Rightarrow> 1 | _ \<Rightarrow> 0)"

lemma curve_phase_kept:
  "process_client_hello X h t = Some (h', r) \<Longrightarrow> ch_phase h' = ch_phase h"
  "process_server_welcome X h t = Some (h', r) \<Longrightarrow> ch_phase h' = ch_phase h"
  "process_client_initiate X h t = Some (h', r) \<Longrightarrow> ch_phase h' = ch_phase h"
  by (auto simp: process_client_hello_def process_server_welcome_def process_client_initiate_def next_recv_nonce_def
      Let_def split: option.splits sum.splits if_splits)

interpretation curve: handshake_mechanism "curve_process_step X" "curve_produce_step X" curve_rank for X
  by unfold_locales
    (auto simp: curve_process_step_def curve_produce_step_def curve_process_token_def curve_produce_token_def
      curve_rank_def Let_def curve_phase_kept split: CurveHandshakePhase.splits option.splits sum.splits)

text \<open>
  Security handshakes are finite: whatever the peer sends, a PLAIN mechanism makes at most two and a
  CURVE mechanism at most three successful steps (tokens produced or accepted), so the handshake cannot
  be kept going by a peer.
\<close>

theorem handshake_steps_bounded:
  "snd (mech_run plain_process_token plain_produce_token es p) \<le> 2 \<and>
   snd (mech_run (curve_process_step X) (curve_produce_step X) es c) \<le> 3"
proof -
  have "plain_rank p \<le> 2" "curve_rank c \<le> 3"
    by (auto simp: plain_rank_def curve_rank_def split: PlainState.split CurveHandshakePhase.split)
  moreover have "snd (mech_run plain_process_token plain_produce_token es p) \<le> plain_rank p"
    using plain.steps_bounded [of es p] by (cases "mech_run plain_process_token plain_produce_token es p") auto
  moreover have "snd (mech_run (curve_process_step X) (curve_produce_step X) es c) \<le> curve_rank c"
    using curve.steps_bounded [of X es c] by (cases "mech_run (curve_process_step X) (curve_produce_step X) es c") auto
  ultimately show ?thesis by linarith
qed

end
