(* ===== verification/Noise.thy ===== *)
theory Noise
  imports Plain
begin

text \<open>
  The NOISE_XX mechanism (\<^verbatim>\<open>core/src/security/noise_xx.rs\<close>) and its initialisation
  (\<^verbatim>\<open>core/src/security/mod.rs\<close>).  The Noise protocol itself is the crate \<^verbatim>\<open>snow\<close>; its handshake and transport
  states are type parameters and its functions the record \<open>snow\<close>, every definition's first argument.  A
  write returns the written prefix of the buffer whose length it is given.
\<close>

section \<open>The snow crate\<close>

datatype Prerequisite = LocalPrivateKey | RemotePublicKey

datatype StateProblem = MissingKeyMaterial | HandshakeNotFinished | HandshakeAlreadyFinished | OtherStateProblem

datatype SnowError = Pattern | SnowInit | Prereq Prerequisite | SnowState StateProblem | SnowInput | Dh | Decrypt
  | SnowOther

type_synonym 'a sres = "SnowError + 'a"

record ('h, 't) snow =
  params_ok :: "string \<Rightarrow> bool"
  build_responder :: "bytes \<Rightarrow> 'h sres"
  build_initiator :: "bytes \<Rightarrow> bytes \<Rightarrow> 'h sres"
  is_my_turn :: "'h \<Rightarrow> bool"
  is_handshake_finished :: "'h \<Rightarrow> bool"
  get_remote_static :: "'h \<Rightarrow> bytes option"
  hs_write_message :: "'h \<Rightarrow> bytes \<Rightarrow> nat \<Rightarrow> 'h \<times> bytes sres"
  hs_read_message :: "'h \<Rightarrow> bytes \<Rightarrow> nat \<Rightarrow> 'h \<times> unit sres"
  into_transport_mode :: "'h \<Rightarrow> 't sres"
  ts_write_message :: "'t \<Rightarrow> bytes \<Rightarrow> nat \<Rightarrow> 't \<times> bytes sres"
  ts_read_message :: "'t \<Rightarrow> bytes \<Rightarrow> nat \<Rightarrow> 't \<times> bytes sres"

definition from_snow_error :: "SnowError \<Rightarrow> ZmqError" where
  "from_snow_error e =
    (case e of
       Pattern \<Rightarrow> SecurityError
     | SnowInit \<Rightarrow> SecurityError
     | Prereq prereq \<Rightarrow> (case prereq of LocalPrivateKey \<Rightarrow> SecurityError | RemotePublicKey \<Rightarrow> SecurityError)
     | SnowState problem \<Rightarrow>
         (case problem of
            MissingKeyMaterial \<Rightarrow> SecurityError
          | HandshakeNotFinished \<Rightarrow> InvalidState
          | HandshakeAlreadyFinished \<Rightarrow> InvalidState
          | OtherStateProblem \<Rightarrow> SecurityError)
     | SnowInput \<Rightarrow> SecurityError
     | Dh \<Rightarrow> SecurityError
     | Decrypt \<Rightarrow> SecurityError
     | SnowOther \<Rightarrow> SecurityError)"

definition from_snow :: "'a sres \<Rightarrow> 'a res" where
  "from_snow r = (case r of Inl e \<Rightarrow> Inl (from_snow_error e) | Inr a \<Rightarrow> Inr a)"

lemma from_snow_simps [simp]: "from_snow (Inl e) = Inl (from_snow_error e)" "from_snow (Inr a) = Inr a"
  by (simp_all add: from_snow_def)


section \<open>The mechanism\<close>

record ('h, 't) NoiseXxMechanism =
  is_server_role :: bool
  noise_state :: "'h option"
  transport_state :: "'t option"
  configured_remote_static_pk_bytes :: "bytes option"
  verified_peer_static_pk :: "bytes option"
  noise_status :: MechanismStatus
  noise_error_reason :: "unit option"
  pending_outgoing_handshake_msg :: "bytes option"

definition NOISE_NAME_BYTES :: bytes where "NOISE_NAME_BYTES = mech_name_bytes ''NOISE_XX''"
definition NOISE_PARAMS_STR :: string where "NOISE_PARAMS_STR = ''Noise_XX_25519_ChaChaPoly_BLAKE2s''"

definition noise_new ::
  "('h, 't) snow \<Rightarrow> bool \<Rightarrow> bytes \<Rightarrow> bytes option \<Rightarrow> ('h, 't) NoiseXxMechanism res" where
  "noise_new S is_server local_static_sk_bytes initial_remote_static_pk_bytes =
    (if \<not> params_ok S NOISE_PARAMS_STR then Inl Internal
     else
       and_then
         (if is_server then from_snow (build_responder S local_static_sk_bytes)
          else case initial_remote_static_pk_bytes of
                 Some pk_bytes \<Rightarrow> from_snow (build_initiator S local_static_sk_bytes pk_bytes)
               | None \<Rightarrow> Inl SecurityError)
         (\<lambda>noise_handshake_state.
            Inr \<lparr>is_server_role = is_server, noise_state = Some noise_handshake_state, transport_state = None,
                 configured_remote_static_pk_bytes = initial_remote_static_pk_bytes,
                 verified_peer_static_pk = None, noise_status = StInitializing, noise_error_reason = None,
                 pending_outgoing_handshake_msg = None\<rparr>))"

definition noise_fail :: "('h, 't) NoiseXxMechanism \<Rightarrow> ('h, 't) NoiseXxMechanism" where
  "noise_fail m = m\<lparr>noise_status := StError, noise_error_reason := Some ()\<rparr>"

text \<open>The check of the peer's key, which the source performs twice in a row.\<close>

definition verify_peer_key :: "('h, 't) NoiseXxMechanism \<Rightarrow> bytes \<Rightarrow> ('h, 't) NoiseXxMechanism \<times> unit sres" where
  "verify_peer_key m handshake_derived_peer_pk =
    (if \<not> is_server_role m then
       (case configured_remote_static_pk_bytes m of
          Some expected \<Rightarrow>
            if handshake_derived_peer_pk \<noteq> expected then (noise_fail m, Inl Decrypt) else (m, Inr ())
        | None \<Rightarrow> (noise_fail m, Inl (Prereq RemotePublicKey)))
     else (m, Inr ()))"

definition transition_to_final_state ::
  "('h, 't) snow \<Rightarrow> ('h, 't) NoiseXxMechanism \<Rightarrow> ('h, 't) NoiseXxMechanism \<times> unit sres" where
  "transition_to_final_state S m =
    (case noise_state m of
       None \<Rightarrow> (m, Inl (SnowState HandshakeAlreadyFinished))
     | Some h \<Rightarrow>
         if \<not> is_handshake_finished S h then (m, Inl (SnowState HandshakeNotFinished))
         else
           (case get_remote_static S h of
              None \<Rightarrow> (noise_fail m, Inl (SnowState MissingKeyMaterial))
            | Some pk \<Rightarrow>
                let m = m\<lparr>verified_peer_static_pk := Some pk\<rparr>
                in (case verify_peer_key m pk of
                      (m, Inl e) \<Rightarrow> (m, Inl e)
                    | (m, Inr _) \<Rightarrow>
                        (case verify_peer_key m pk of
                           (m, Inl e) \<Rightarrow> (m, Inl e)
                         | (m, Inr _) \<Rightarrow>
                             let m = m\<lparr>noise_state := None\<rparr>
                             in (case into_transport_mode S h of
                                   Inr ts \<Rightarrow> (m\<lparr>transport_state := Some ts, noise_status := StReady\<rparr>, Inr ())
                                 | Inl e \<Rightarrow> (noise_fail m, Inl e))))))"

record 't NoiseDataCipher =
  cipher_transport_state :: 't

definition noise_into_data_cipher ::
  "('h, 't) NoiseXxMechanism \<Rightarrow> ('t NoiseDataCipher \<times> bytes option) res" where
  "noise_into_data_cipher m =
    (if noise_status m \<noteq> StReady then Inl InvalidState
     else and_then (ok_or Internal (transport_state m))
       (\<lambda>ts. Inr (\<lparr>cipher_transport_state = ts\<rparr>, verified_peer_static_pk m)))"

text \<open>A fresh token, once it is certain that one may be written.\<close>

definition noise_write_token ::
  "('h, 't) snow \<Rightarrow> ('h, 't) NoiseXxMechanism \<Rightarrow> ('h, 't) NoiseXxMechanism \<times> bytes option res" where
  "noise_write_token S m =
    (case noise_state m of
       None \<Rightarrow> (m, Inl InvalidState)
     | Some h \<Rightarrow>
         if is_my_turn S h then
           (case hs_write_message S h [] 1024 of
              (h, Inl e) \<Rightarrow> (m\<lparr>noise_state := Some h\<rparr>, Inl (from_snow_error e))
            | (h, Inr msg_buf) \<Rightarrow>
                let m = m\<lparr>noise_state := Some h\<rparr>
                in if is_handshake_finished S h \<and> is_server_role m
                   then (case transition_to_final_state S m of
                           (m, Inl e) \<Rightarrow> (m, Inl (from_snow_error e))
                         | (m, Inr _) \<Rightarrow> (m, Inr (Some msg_buf)))
                   else (m, Inr (Some msg_buf)))
         else (m, Inr None))"

definition noise_produce_token ::
  "('h, 't) snow \<Rightarrow> ('h, 't) NoiseXxMechanism \<Rightarrow> ('h, 't) NoiseXxMechanism \<times> bytes option res" where
  "noise_produce_token S m =
    (case pending_outgoing_handshake_msg m of
       Some msg_to_send \<Rightarrow>
         let m = m\<lparr>pending_outgoing_handshake_msg := None\<rparr>
         in if \<not> is_server_role m \<and> (case noise_state m of Some h \<Rightarrow> is_handshake_finished S h | None \<Rightarrow> False)
            then (case transition_to_final_state S m of
                    (m, Inl e) \<Rightarrow> (m, Inl (from_snow_error e))
                  | (m, Inr _) \<Rightarrow> (m, Inr (Some msg_to_send)))
            else (m, Inr (Some msg_to_send))
     | None \<Rightarrow>
         if noise_status m = StReady \<or> noise_status m = StError then (m, Inr None)
         else if noise_status m = StInitializing then
           let m = m\<lparr>noise_status := StHandshaking\<rparr>
           in if is_server_role m then (m, Inr None) else noise_write_token S m
         else noise_write_token S m)"

definition noise_process_token ::
  "('h, 't) snow \<Rightarrow> ('h, 't) NoiseXxMechanism \<Rightarrow> bytes \<Rightarrow> ('h, 't) NoiseXxMechanism \<times> ProcessTokenAction res" where
  "noise_process_token S m token =
    (if noise_status m = StError \<or> noise_status m = StReady then (m, Inl InvalidState)
     else
       let m = (if noise_status m = StInitializing then m\<lparr>noise_status := StHandshaking\<rparr> else m)
       in (case noise_state m of
             None \<Rightarrow> (m, Inl InvalidState)
           | Some h \<Rightarrow>
               (case hs_read_message S h token 1024 of
                  (h, Inl e) \<Rightarrow> (m\<lparr>noise_state := Some h\<rparr>, Inl (from_snow_error e))
                | (h, Inr _) \<Rightarrow>
                    let m = m\<lparr>noise_state := Some h\<rparr>
                    in if is_handshake_finished S h then
                         (case transition_to_final_state S m of
                            (m, Inl e) \<Rightarrow> (m, Inl (from_snow_error e))
                          | (m, Inr _) \<Rightarrow> (m, Inr HandshakeComplete))
                       else if is_my_turn S h then
                         (case hs_write_message S h [] 1024 of
                            (h, Inl e) \<Rightarrow> (m\<lparr>noise_state := Some h\<rparr>, Inl (from_snow_error e))
                          | (h, Inr msg_buf) \<Rightarrow>
                              (m\<lparr>noise_state := Some h, pending_outgoing_handshake_msg := Some msg_buf\<rparr>,
                               Inr ProduceAndSend))
                       else (m\<lparr>pending_outgoing_handshake_msg := None\<rparr>, Inr ContinueWaiting))))"

definition noise_set_error :: "('h, 't) NoiseXxMechanism \<Rightarrow> ('h, 't) NoiseXxMechanism" where
  "noise_set_error m =
    m\<lparr>noise_status := StError, noise_error_reason := Some (), noise_state := None, transport_state := None,
      pending_outgoing_handshake_msg := None\<rparr>"

definition noise_into_framer ::
  "('h, 't) NoiseXxMechanism \<Rightarrow> int \<Rightarrow> ('t NoiseDataCipher LengthPrefixedFramer \<times> bytes option) res" where
  "noise_into_framer m limit =
    (if noise_status m \<noteq> StReady then Inl InvalidState
     else and_then (noise_into_data_cipher m) (\<lambda>(c, peer_id). Inr (lp_framer_new c limit, peer_id)))"

definition noise_encrypt ::
  "('h, 't) snow \<Rightarrow> 't NoiseDataCipher \<Rightarrow> bytes \<Rightarrow> 't NoiseDataCipher \<times> bytes res" where
  "noise_encrypt S c plaintext =
    (if length plaintext > 65535 - 16 then (c, Inl InvalidMessage)
     else case ts_write_message S (cipher_transport_state c) plaintext (length plaintext + 16) of
            (ts, r) \<Rightarrow> (c\<lparr>cipher_transport_state := ts\<rparr>, from_snow r))"

definition noise_decrypt ::
  "('h, 't) snow \<Rightarrow> 't NoiseDataCipher \<Rightarrow> bytes \<Rightarrow> 't NoiseDataCipher \<times> bytes res" where
  "noise_decrypt S c ciphertext =
    (if length ciphertext < 16 then (c, Inl ProtocolViolation)
     else case ts_read_message S (cipher_transport_state c) ciphertext (length ciphertext - 16) of
            (ts, r) \<Rightarrow> (c\<lparr>cipher_transport_state := ts\<rparr>, from_snow r))"

definition noise_cipher :: "('h, 't) snow \<Rightarrow> 't NoiseDataCipher data_cipher" where
  "noise_cipher S = \<lparr>cipher_encrypt = noise_encrypt S, cipher_decrypt = noise_decrypt S\<rparr>"

definition initialize_noise_xx ::
  "('h, 't) snow \<Rightarrow> bool \<Rightarrow> ZmtpEngineConfig \<Rightarrow> ('h, 't) NoiseXxMechanism res" where
  "initialize_noise_xx S is_server local_config =
    and_then (ok_or SecurityError (noise_xx_local_sk_bytes_for_engine local_config))
      (\<lambda>sk. noise_new S is_server sk (noise_xx_remote_pk_bytes_for_engine local_config))"


section \<open>A ready mechanism has checked its peer\<close>

text \<open>
  The invariant of the mechanism: readiness is reached only through the key check, and it is final in
  that the handshake state is gone.
\<close>

definition noise_checked :: "bool \<Rightarrow> bytes option \<Rightarrow> ('h, 't) NoiseXxMechanism \<Rightarrow> bool" where
  "noise_checked is_server pk m \<longleftrightarrow>
    is_server_role m = is_server \<and> configured_remote_static_pk_bytes m = pk \<and>
    (noise_status m = StReady \<longrightarrow> noise_state m = None \<and>
      (\<exists>peer. verified_peer_static_pk m = Some peer \<and> (\<not> is_server \<longrightarrow> pk = Some peer)))"

lemma transition_checked:
  assumes "noise_checked srv pk m" "transition_to_final_state S m = (m', r)"
  shows "noise_checked srv pk m'"
  using assms
  by (auto simp: noise_checked_def transition_to_final_state_def verify_peer_key_def noise_fail_def Let_def
      split: option.splits if_splits sum.splits)

lemma noise_checked_updates:
  "noise_checked srv pk m \<Longrightarrow> noise_checked srv pk (m\<lparr>pending_outgoing_handshake_msg := x\<rparr>)"
  "noise_checked srv pk m \<Longrightarrow> noise_status m \<noteq> StReady \<Longrightarrow> noise_checked srv pk (m\<lparr>noise_state := y\<rparr>)"
  "noise_checked srv pk m \<Longrightarrow> noise_checked srv pk (m\<lparr>noise_status := StHandshaking\<rparr>)"
  by (auto simp: noise_checked_def)

lemma write_token_checked:
  assumes "noise_checked srv pk m" "noise_status m \<noteq> StReady" "noise_write_token S m = (m', r)"
  shows "noise_checked srv pk m'"
  using assms
  by (auto simp: noise_write_token_def Let_def noise_checked_updates
      split: option.splits if_splits prod.splits sum.splits elim!: transition_checked [rotated])

lemma produce_checked:
  assumes "noise_checked srv pk m" "noise_produce_token S m = (m', r)"
  shows "noise_checked srv pk m'"
  using assms
  by (auto simp: noise_produce_token_def Let_def noise_checked_updates
      split: option.splits if_splits prod.splits sum.splits elim!: transition_checked [rotated] write_token_checked [rotated 2])

lemma process_checked:
  assumes "noise_checked srv pk m" "noise_process_token S m t = (m', r)"
  shows "noise_checked srv pk m'"
  using assms
  by (auto simp: noise_process_token_def Let_def noise_checked_updates
      split: option.splits if_splits prod.splits sum.splits elim!: transition_checked [rotated])

abbreviation noise_run :: "('h, 't) snow \<Rightarrow> mech_event list \<Rightarrow> ('h, 't) NoiseXxMechanism \<Rightarrow> ('h, 't) NoiseXxMechanism" where
  "noise_run S es m \<equiv> fst (mech_run (noise_process_token S) (noise_produce_token S) es m)"

lemma noise_run_checked: "noise_checked srv pk m \<Longrightarrow> noise_checked srv pk (noise_run S es m)"
proof (induction es arbitrary: m)
  case (Cons ev es)
  have "noise_checked srv pk (fst (noise_process_token S m t))" for t
    using process_checked [OF Cons.prems, of S t] by (cases "noise_process_token S m t") simp
  moreover have "noise_checked srv pk (fst (noise_produce_token S m))"
    using produce_checked [OF Cons.prems, of S] by (cases "noise_produce_token S m") simp
  ultimately show ?case by (cases ev) (simp_all add: mech_run_fst Cons.IH del: mech_run.simps)
qed simp

lemma noise_new_checked:
  "noise_new S srv sk pk = Inr m \<Longrightarrow> noise_checked srv pk m"
  by (auto simp: noise_new_def noise_checked_def and_then_Inr_iff split: if_splits option.splits)


text \<open>A concrete instance of the interface: the third message ends the handshake.\<close>

definition toy_snow :: "(bool \<times> nat \<times> bytes option, unit) snow" where
  "toy_snow =
    \<lparr>params_ok = \<lambda>_. True,
     build_responder = \<lambda>sk. Inr (False, 0, None),
     build_initiator = \<lambda>sk pk. Inr (True, 0, None),
     is_my_turn = \<lambda>(i, k, r). even k = i,
     is_handshake_finished = \<lambda>(i, k, r). 3 \<le> k,
     get_remote_static = \<lambda>(i, k, r). r,
     hs_write_message = \<lambda>(i, k, r) _ _. if k < 3 then ((i, Suc k, r), Inr [of_nat k])
       else ((i, k, r), Inl (SnowState HandshakeAlreadyFinished)),
     hs_read_message = \<lambda>(i, k, r) t _. if k < 3 then ((i, Suc k, Some t), Inr ())
       else ((i, k, r), Inl (SnowState HandshakeAlreadyFinished)),
     into_transport_mode = \<lambda>_. Inr (),
     ts_write_message = \<lambda>ts p n. (ts, if length p + 16 \<le> n then Inr (p @ replicate 16 0) else Inl SnowInput),
     ts_read_message = \<lambda>ts c n. (ts, Inr (take n c))\<rparr>"

definition example_noise_config :: "bytes \<Rightarrow> bytes option \<Rightarrow> ZmtpEngineConfig" where
  "example_noise_config sk pk = (example_plain_config None None)
    \<lparr>use_plain := False, use_noise_xx := True, noise_xx_local_sk_bytes_for_engine := Some sk,
     noise_xx_remote_pk_bytes_for_engine := pk\<rparr>"

lemmas noise_eval = noise_new_def noise_process_token_def noise_produce_token_def noise_write_token_def
  transition_to_final_state_def verify_peer_key_def noise_into_framer_def noise_into_data_cipher_def toy_snow_def


text \<open>What snow documents of a write: the message fits the buffer it is given.\<close>

definition bounded_writes :: "('h, 't) snow \<Rightarrow> bool" where
  "bounded_writes S \<longleftrightarrow> (\<forall>ts p n ts' c. ts_write_message S ts p n = (ts', Inr c) \<longrightarrow> length c \<le> n)"

text \<open>
  The length prefix of a Noise frame is never truncated: messages whose frames exceed a Noise
  message are refused, and in every frame that is written the prefix is the length of what follows.
\<close>

theorem noise_frames_fit:
  assumes "bounded_writes S"
    and "lp_write_msg_multipart (noise_cipher S) fr msgs = (fr', Inr wire)"
  shows "length wire = 2 + be_nat (take 2 wire) \<and> length (fold encode msgs []) \<le> 65535 - 16"
proof -
  from assms(2) obtain c ct where e: "noise_encrypt S (lp_cipher fr) (fold encode msgs []) = (c, Inr ct)"
      and w: "wire = be_bytes 2 (length ct) @ ct"
    by (auto simp: lp_write_msg_multipart_def noise_cipher_def split: prod.splits sum.splits)
  have len: "length (fold encode msgs []) \<le> 65535 - 16"
    using e by (auto simp: noise_encrypt_def split: if_splits)
  have "length ct \<le> length (fold encode msgs []) + 16"
    using e assms(1) by (auto simp: noise_encrypt_def from_snow_def bounded_writes_def split: if_splits prod.splits sum.splits)
  then have "length ct < 256 ^ 2" using len by simp
  then have "be_nat (be_bytes 2 (length ct)) = length ct" by (simp only: be_nat_be_bytes mod_less)
  then show ?thesis using len by (simp add: w)
qed

theorem noise_frames_fit_witness:
  "\<exists>fr' wire. lp_write_msg_multipart (noise_cipher toy_snow) (lp_framer_new \<lparr>cipher_transport_state = ()\<rparr> (-1))
      [msg_from_vec [1, 2, 3]] = (fr', Inr wire) \<and> length wire = 2 + be_nat (take 2 wire)"
proof -
  obtain fr' wire where w: "lp_write_msg_multipart (noise_cipher toy_snow)
      (lp_framer_new \<lparr>cipher_transport_state = ()\<rparr> (-1)) [msg_from_vec [1, 2, 3]] = (fr', Inr wire)"
    by (simp add: lp_write_msg_multipart_def noise_cipher_def noise_encrypt_def lp_framer_new_def toy_snow_def
        encode_def Let_def msg_from_vec_def msg_payload_def)
  have "bounded_writes toy_snow" by (auto simp: bounded_writes_def toy_snow_def split: if_splits)
  from noise_frames_fit [OF this w] w show ?thesis by blast
qed

end
