(* ===== verification/Greeting.thy ===== *)
theory Greeting
  imports Prelude
begin

text \<open>
  ZMTP greetings (\<^verbatim>\<open>core/src/protocol/zmtp/greeting.rs\<close>): the 10-byte signature, the 64-byte ZMTP/3
  greeting, the 12-byte ZMTP/2.0 greeting and the socket-type codes of ZMTP/2.0.  Buffers are byte
  lists; a \<^verbatim>\<open>[u8; 20]\<close> mechanism field is a byte list of that length.
\<close>

section \<open>Definitions\<close>

definition GREETING_LENGTH :: nat where "GREETING_LENGTH = 64"
definition MECHANISM_LENGTH :: nat where "MECHANISM_LENGTH = 20"
definition GREETING_VERSION_MAJOR_BYTE :: byte where "GREETING_VERSION_MAJOR_BYTE = 0x03"
definition GREETING_VERSION_MINOR_BYTE :: byte where "GREETING_VERSION_MINOR_BYTE = 0x00"
definition SIGNATURE_LENGTH :: nat where "SIGNATURE_LENGTH = 10"
definition V2_GREETING_LENGTH :: nat where "V2_GREETING_LENGTH = SIGNATURE_LENGTH + 2"
definition VERSION_MAJOR_OFFSET :: nat where "VERSION_MAJOR_OFFSET = 10"
definition VERSION_MINOR_OFFSET :: nat where "VERSION_MINOR_OFFSET = 11"
definition MECHANISM_OFFSET :: nat where "MECHANISM_OFFSET = 12"
definition AS_SERVER_OFFSET :: nat where "AS_SERVER_OFFSET = MECHANISM_OFFSET + MECHANISM_LENGTH"
definition PADDING_OFFSET :: nat where "PADDING_OFFSET = AS_SERVER_OFFSET + 1"
definition PADDING_LENGTH :: nat where "PADDING_LENGTH = GREETING_LENGTH - PADDING_OFFSET"

lemmas greeting_consts = GREETING_LENGTH_def MECHANISM_LENGTH_def GREETING_VERSION_MAJOR_BYTE_def
  GREETING_VERSION_MINOR_BYTE_def SIGNATURE_LENGTH_def V2_GREETING_LENGTH_def VERSION_MAJOR_OFFSET_def
  VERSION_MINOR_OFFSET_def MECHANISM_OFFSET_def AS_SERVER_OFFSET_def PADDING_OFFSET_def PADDING_LENGTH_def

datatype NegotiatedVersion = V2 | V3 (v3_minor: byte)

definition is_v2 :: "NegotiatedVersion \<Rightarrow> bool" where
  "is_v2 v = (v = V2)"

definition peek_revision :: "bytes \<Rightarrow> byte res" where
  "peek_revision buf =
    (if length buf < SIGNATURE_LENGTH + 1 then Inl ProtocolViolation
     else if buf ! 0 \<noteq> 0xFF then Inl ProtocolViolation
     else if buf ! 9 \<noteq> 0x7F then Inl ProtocolViolation
     else Inr (buf ! VERSION_MAJOR_OFFSET))"

record ZmtpV2Greeting =
  v2_revision :: byte
  v2_socket_type :: byte

definition V2_REVISION :: byte where "V2_REVISION = 0x01"

definition v2_encode_tail :: "byte \<Rightarrow> bytes \<Rightarrow> bytes" where
  "v2_encode_tail socket_type buffer = buffer @ [V2_REVISION] @ [socket_type]"

definition v2_encode_full :: "byte \<Rightarrow> bytes \<Rightarrow> bytes" where
  "v2_encode_full socket_type buffer =
    v2_encode_tail socket_type (buffer @ [0xFF] @ replicate 8 0 @ [0x7F])"

definition v2_decode_tail :: "byte \<times> byte \<Rightarrow> ZmtpV2Greeting res" where
  "v2_decode_tail tail =
    (if fst tail \<noteq> V2_REVISION then Inl ProtocolViolation
     else Inr \<lparr>v2_revision = fst tail, v2_socket_type = snd tail\<rparr>)"

definition socket_type_code :: "string \<Rightarrow> byte option" where
  "socket_type_code name =
    (if name = ''PAIR'' then Some 0x00
     else if name = ''PUB'' then Some 0x01
     else if name = ''SUB'' then Some 0x02
     else if name = ''REQ'' then Some 0x03
     else if name = ''REP'' then Some 0x04
     else if name = ''DEALER'' then Some 0x05
     else if name = ''ROUTER'' then Some 0x06
     else if name = ''PULL'' then Some 0x07
     else if name = ''PUSH'' then Some 0x08
     else None)"

definition encode_signature :: "bytes \<Rightarrow> bytes" where
  "encode_signature buffer = buffer @ [0xFF] @ replicate 8 0 @ [0x7F]"

definition encode_v3_tail_post_major :: "bytes \<Rightarrow> bool \<Rightarrow> bytes \<Rightarrow> bytes" where
  "encode_v3_tail_post_major mechanism as_server buffer =
    (let target = GREETING_LENGTH - SIGNATURE_LENGTH - 1;
         start = length buffer;
         buffer = buffer @ [GREETING_VERSION_MINOR_BYTE] @ mechanism @ [if as_server then 1 else 0];
         written = length buffer - start
     in if written < target then buffer @ replicate (target - written) 0 else buffer)"

definition encode_v3_tail :: "bytes \<Rightarrow> bool \<Rightarrow> bytes \<Rightarrow> bytes" where
  "encode_v3_tail mechanism as_server buffer =
    encode_v3_tail_post_major mechanism as_server (buffer @ [GREETING_VERSION_MAJOR_BYTE])"

definition socket_type_name_from_code :: "byte \<Rightarrow> string option" where
  "socket_type_name_from_code code =
    (if code = 0x00 then Some ''PAIR''
     else if code = 0x01 then Some ''PUB''
     else if code = 0x02 then Some ''SUB''
     else if code = 0x03 then Some ''REQ''
     else if code = 0x04 then Some ''REP''
     else if code = 0x05 then Some ''DEALER''
     else if code = 0x06 then Some ''ROUTER''
     else if code = 0x07 then Some ''PULL''
     else if code = 0x08 then Some ''PUSH''
     else None)"

record ZmtpGreeting =
  greeting_version :: "byte \<times> byte"
  greeting_mechanism :: bytes
  greeting_as_server :: bool

definition greeting_encode :: "bytes \<Rightarrow> bool \<Rightarrow> bytes \<Rightarrow> bytes" where
  "greeting_encode mechanism as_server buffer =
    encode_v3_tail mechanism as_server (encode_signature buffer)"

definition greeting_decode :: "bytes \<Rightarrow> bytes \<times> ZmtpGreeting option res" where
  "greeting_decode buffer =
    (if length buffer < GREETING_LENGTH then (buffer, Inr None)
     else let data = take GREETING_LENGTH buffer; buffer = drop GREETING_LENGTH buffer
     in (buffer,
         if data ! 0 \<noteq> 0xFF then Inl ProtocolViolation
         else if \<exists>i \<in> set [0..<PADDING_LENGTH]. data ! (PADDING_OFFSET + i) \<noteq> 0 then Inl ProtocolViolation
         else let major_version = data ! VERSION_MAJOR_OFFSET; minor_version = data ! VERSION_MINOR_OFFSET
         in if major_version \<noteq> GREETING_VERSION_MAJOR_BYTE then Inl ProtocolViolation
            else let mechanism = take MECHANISM_LENGTH (drop MECHANISM_OFFSET data);
                     as_server_byte = data ! AS_SERVER_OFFSET
            in if as_server_byte = 0 then
                 Inr (Some \<lparr>greeting_version = (major_version, minor_version),
                   greeting_mechanism = mechanism, greeting_as_server = False\<rparr>)
               else if as_server_byte = 1 then
                 Inr (Some \<lparr>greeting_version = (major_version, minor_version),
                   greeting_mechanism = mechanism, greeting_as_server = True\<rparr>)
               else Inl ProtocolViolation))"

definition mechanism_name :: "ZmtpGreeting \<Rightarrow> bytes" where
  "mechanism_name g =
    (let name = takeWhile (\<lambda>b. b \<noteq> 0) (greeting_mechanism g)
     in if utf8_valid name then name else str ''<invalid_utf8>'')"

text \<open>The null-padded mechanism field of a mechanism's \<^verbatim>\<open>NAME_BYTES\<close> constant.\<close>

definition name_bytes :: "string \<Rightarrow> bytes" where
  "name_bytes s = str s @ replicate (MECHANISM_LENGTH - length s) 0"


section \<open>Round trips\<close>

lemma length_replicate_append_nth:
  "i < n \<Longrightarrow> (xs @ replicate n (x :: 'a)) ! (length xs + i) = x"
  by (simp add: nth_append)

lemma post_major_eq:
  assumes "length mechanism = MECHANISM_LENGTH"
  shows "encode_v3_tail_post_major mechanism as_server buffer =
    buffer @ [GREETING_VERSION_MINOR_BYTE] @ mechanism @ [if as_server then 1 else 0] @
    replicate PADDING_LENGTH 0"
  using assms by (simp add: encode_v3_tail_post_major_def greeting_consts)

lemma greeting_encode_eq:
  assumes "length mechanism = MECHANISM_LENGTH"
  shows "greeting_encode mechanism as_server [] =
    ([0xFF] @ replicate 8 0 @ [0x7F] @ [GREETING_VERSION_MAJOR_BYTE, GREETING_VERSION_MINOR_BYTE]) @
    mechanism @ [if as_server then 1 else 0] @ replicate PADDING_LENGTH 0"
  using assms by (simp add: greeting_encode_def encode_v3_tail_def post_major_eq encode_signature_def)

text \<open>The fields of any greeting laid out as prefix, mechanism, flag and padding.\<close>

lemma greeting_layout:
  assumes "length pre = 12" "length mechanism = 20" "g = pre @ mechanism @ [flag] @ replicate 31 (0 :: byte)"
  shows "length g = 64" "\<And>i. i < 12 \<Longrightarrow> g ! i = pre ! i" "take 20 (drop 12 g) = mechanism" "g ! 32 = flag"
    "\<And>i. i < 31 \<Longrightarrow> g ! (33 + i) = 0"
  using assms by (simp_all add: nth_append)

lemma greeting_decode_layout:
  assumes "length pre = 12" "length mechanism = 20" "pre ! 0 = 0xFF" "pre ! 10 = 0x03"
  shows "greeting_decode ((pre @ mechanism @ [if as_server then 1 else 0] @ replicate 31 0) @ rest) =
    (rest, Inr (Some \<lparr>greeting_version = (0x03, pre ! 11), greeting_mechanism = mechanism,
      greeting_as_server = as_server\<rparr>))"
proof -
  let ?g = "pre @ mechanism @ [if as_server then 1 else 0] @ replicate 31 (0 :: byte)"
  note layout = greeting_layout [where flag = "if as_server then 1 else 0", OF assms(1,2) refl]
  have "take 64 (?g @ rest) = ?g" "drop 64 (?g @ rest) = rest" "\<not> length (?g @ rest) < 64"
    using layout(1) by simp_all
  moreover have "?g ! 0 = 0xFF" "?g ! 10 = 0x03" "?g ! 11 = pre ! 11"
    using assms by (simp_all add: nth_append)
  moreover have "\<not> (\<exists>i \<in> set [0..<31]. ?g ! (33 + i) \<noteq> 0)"
    using layout(5) by auto
  ultimately show ?thesis
    using layout(3,4)
    by (simp only: greeting_decode_def greeting_consts Let_def if_False if_True) simp
qed

lemma greeting_decode_encode:
  assumes "length mechanism = MECHANISM_LENGTH"
  shows "greeting_decode (greeting_encode mechanism as_server [] @ rest) =
    (rest, Inr (Some \<lparr>greeting_version = (0x03, 0x00), greeting_mechanism = mechanism,
      greeting_as_server = as_server\<rparr>))"
proof -
  let ?pre = "[0xFF] @ replicate 8 0 @ [0x7F] @ [GREETING_VERSION_MAJOR_BYTE, GREETING_VERSION_MINOR_BYTE]"
  have "length ?pre = 12" "?pre ! 0 = 0xFF" "?pre ! 10 = 0x03" "?pre ! 11 = 0x00"
    by (simp_all add: greeting_consts nth_append)
  moreover have "PADDING_LENGTH = 31" by (simp add: greeting_consts)
  ultimately show ?thesis
    using greeting_decode_layout [of ?pre mechanism as_server rest] assms
    unfolding greeting_encode_eq [OF assms] by (simp add: MECHANISM_LENGTH_def)
qed

lemma greeting_staged:
  "encode_v3_tail_post_major mechanism as_server (encode_signature [] @ [GREETING_VERSION_MAJOR_BYTE]) =
    greeting_encode mechanism as_server []"
  "peek_revision (encode_signature [] @ [GREETING_VERSION_MAJOR_BYTE]) = Inr GREETING_VERSION_MAJOR_BYTE"
  by (simp_all add: greeting_encode_def encode_v3_tail_def peek_revision_def encode_signature_def greeting_consts nth_append)

text \<open>
  The greeting that the staged handshake puts on the wire (signature and major version first, the tail
  once the peer's revision is known) is the one-shot greeting, and the peer decodes from it the mechanism and
  the role that were sent, leaving the bytes that follow untouched.
\<close>

theorem greeting_staged_roundtrip:
  assumes "length mechanism = MECHANISM_LENGTH"
  shows "encode_v3_tail_post_major mechanism as_server (encode_signature [] @ [GREETING_VERSION_MAJOR_BYTE]) =
      greeting_encode mechanism as_server [] \<and>
    peek_revision (encode_signature [] @ [GREETING_VERSION_MAJOR_BYTE]) = Inr GREETING_VERSION_MAJOR_BYTE \<and>
    greeting_decode (greeting_encode mechanism as_server [] @ rest) =
      (rest, Inr (Some \<lparr>greeting_version = (0x03, 0x00), greeting_mechanism = mechanism,
        greeting_as_server = as_server\<rparr>))"
  by (simp add: greeting_staged greeting_decode_encode assms)

theorem greeting_staged_roundtrip_witness:
  "greeting_decode (greeting_encode (name_bytes ''PLAIN'') True [] @ [0x04]) =
    ([0x04], Inr (Some \<lparr>greeting_version = (0x03, 0x00), greeting_mechanism = name_bytes ''PLAIN'',
      greeting_as_server = True\<rparr>))"
  using greeting_staged_roundtrip [of "name_bytes ''PLAIN''" True "[0x04]"]
  by (simp add: name_bytes_def MECHANISM_LENGTH_def)

text \<open>The mechanism name is recovered from its null-padded field.\<close>

lemma mechanism_name_bytes:
  assumes "\<forall>c \<in> set (str s). c \<noteq> 0 \<and> c < 0x80" "greeting_mechanism g = name_bytes s"
  shows "mechanism_name g = str s"
proof -
  have "takeWhile (\<lambda>b. b \<noteq> 0) (str s @ replicate k 0) = str s" for k
    using assms(1) by (cases k) (simp_all add: takeWhile_append)
  then show ?thesis
    using assms utf8_valid_ascii [of "str s"] by (simp add: mechanism_name_def name_bytes_def)
qed

text \<open>
  The ZMTP/2.0 socket-type codes are a bijection: a name has a code exactly when the code decodes
  back to that name.
\<close>

theorem socket_type_codes_inverse:
  "socket_type_code name = Some code \<longleftrightarrow> socket_type_name_from_code code = Some name"
  by (auto simp: socket_type_code_def socket_type_name_from_code_def)

end
