(* ===== verification/Negotiation.thy ===== *)
theory Negotiation
  imports Curve Noise Greeting
begin

text \<open>
  The choice of the security mechanism (\<^verbatim>\<open>core/src/security/mod.rs\<close>) and the mechanism and framer that a
  session holds as trait objects (\<^verbatim>\<open>core/src/security/mechanism.rs\<close>, \<^verbatim>\<open>core/src/security/framer.rs\<close>).  A panic is the
  value \<open>None\<close>.  What the session takes from outside the crate is the record \<open>env\<close>: the two
  cryptographic libraries, the key pair that the random generator gives to this connection, and the order in
  which a hash map lists its entries.
\<close>

record ('h, 't) env =
  env_dryoc :: dryoc
  env_ephemeral :: Keypair
  env_snow :: "('h, 't) snow"
  env_order :: "(bytes \<times> bytes) list \<Rightarrow> (bytes \<times> bytes) list"

section \<open>Mechanisms and framers as trait objects\<close>

datatype ('h, 't) Mechanism = MNull NullMechanism | MPlain PlainMechanism | MCurve CurveMechanism
  | MNoise "('h, 't) NoiseXxMechanism"

datatype 't SecureFramer = FNull NullFramer | FCurve "CurveDataCipher LengthPrefixedFramer"
  | FNoise "'t NoiseDataCipher LengthPrefixedFramer"

fun mech_name :: "('h, 't) Mechanism \<Rightarrow> string" where
  "mech_name (MNull _) = ''NULL''"
| "mech_name (MPlain _) = ''PLAIN''"
| "mech_name (MCurve _) = ''CURVE''"
| "mech_name (MNoise _) = ''NOISE_XX''"

fun mech_process_token ::
  "('h, 't) env \<Rightarrow> ('h, 't) Mechanism \<Rightarrow> bytes \<Rightarrow> (('h, 't) Mechanism \<times> ProcessTokenAction res) option" where
  "mech_process_token X (MNull m) t = Some (apfst MNull (null_process_token m t))"
| "mech_process_token X (MPlain m) t = Some (apfst MPlain (plain_process_token m t))"
| "mech_process_token X (MCurve m) t = map_option (apfst MCurve) (curve_process_token (env_dryoc X) m t)"
| "mech_process_token X (MNoise m) t = Some (apfst MNoise (noise_process_token (env_snow X) m t))"

fun mech_produce_token ::
  "('h, 't) env \<Rightarrow> ('h, 't) Mechanism \<Rightarrow> (('h, 't) Mechanism \<times> bytes option res) option" where
  "mech_produce_token X (MNull m) = Some (apfst MNull (null_produce_token m))"
| "mech_produce_token X (MPlain m) = Some (apfst MPlain (plain_produce_token m))"
| "mech_produce_token X (MCurve m) = map_option (apfst MCurve) (curve_produce_token (env_dryoc X) m)"
| "mech_produce_token X (MNoise m) = Some (apfst MNoise (noise_produce_token (env_snow X) m))"

fun mech_status :: "('h, 't) Mechanism \<Rightarrow> MechanismStatus" where
  "mech_status (MNull m) = null_status m"
| "mech_status (MPlain m) = plain_status m"
| "mech_status (MCurve m) = cm_status m"
| "mech_status (MNoise m) = noise_status m"

definition mech_is_complete :: "('h, 't) Mechanism \<Rightarrow> bool" where
  "mech_is_complete m = (mech_status m = StReady)"

definition mech_is_error :: "('h, 't) Mechanism \<Rightarrow> bool" where
  "mech_is_error m = (mech_status m = StError)"

fun mech_into_framer ::
  "('h, 't) env \<Rightarrow> ('h, 't) Mechanism \<Rightarrow> int \<Rightarrow> ('t SecureFramer \<times> bytes option) res" where
  "mech_into_framer X (MNull m) limit = and_then (null_into_framer m limit) (\<lambda>(f, i). Inr (FNull f, i))"
| "mech_into_framer X (MPlain m) limit = and_then (plain_into_framer m limit) (\<lambda>(f, i). Inr (FNull f, i))"
| "mech_into_framer X (MCurve m) limit =
    and_then (curve_into_framer (env_dryoc X) m limit) (\<lambda>(f, i). Inr (FCurve f, i))"
| "mech_into_framer X (MNoise m) limit = and_then (noise_into_framer m limit) (\<lambda>(f, i). Inr (FNoise f, i))"

fun framer_try_read_msg ::
  "('h, 't) env \<Rightarrow> 't SecureFramer \<Rightarrow> bytes \<Rightarrow> 't SecureFramer \<times> bytes \<times> Msg option res" where
  "framer_try_read_msg X (FNull f) b = apfst FNull (null_try_read_msg f b)"
| "framer_try_read_msg X (FCurve f) b = apfst FCurve (lp_try_read_msg (curve_cipher (env_dryoc X)) f b)"
| "framer_try_read_msg X (FNoise f) b = apfst FNoise (lp_try_read_msg (noise_cipher (env_snow X)) f b)"

fun framer_write_msg_multipart ::
  "('h, 't) env \<Rightarrow> 't SecureFramer \<Rightarrow> Msg list \<Rightarrow> 't SecureFramer \<times> bytes res" where
  "framer_write_msg_multipart X (FNull f) msgs = apfst FNull (null_write_msg_multipart f msgs)"
| "framer_write_msg_multipart X (FCurve f) msgs =
    apfst FCurve (lp_write_msg_multipart (curve_cipher (env_dryoc X)) f msgs)"
| "framer_write_msg_multipart X (FNoise f) msgs =
    apfst FNoise (lp_write_msg_multipart (noise_cipher (env_snow X)) f msgs)"


section \<open>Negotiation\<close>

definition initialize_null :: "bool \<Rightarrow> ZmtpEngineConfig \<Rightarrow> NullMechanism res" where
  "initialize_null is_server local_config = Inr NullMechanism"

record ('h, 't) KnownMechanismDescriptor =
  name_static_bytes :: bytes
  mech_initializer :: "bool \<Rightarrow> ZmtpEngineConfig \<Rightarrow> ('h, 't) Mechanism res"
  is_locally_enabled :: "ZmtpEngineConfig \<Rightarrow> bool"

definition KNOWN_MECHANISMS :: "('h, 't) env \<Rightarrow> ('h, 't) KnownMechanismDescriptor list" where
  "KNOWN_MECHANISMS X =
    [\<lparr>name_static_bytes = NULL_NAME_BYTES,
      mech_initializer = \<lambda>srv cfg. and_then (initialize_null srv cfg) (\<lambda>m. Inr (MNull m)),
      is_locally_enabled = \<lambda>cfg. \<not> security_enabled cfg\<rparr>,
     \<lparr>name_static_bytes = PLAIN_NAME_BYTES,
      mech_initializer = \<lambda>srv cfg. and_then (initialize_plain srv cfg) (\<lambda>m. Inr (MPlain m)),
      is_locally_enabled = \<lambda>cfg. use_plain cfg\<rparr>,
     \<lparr>name_static_bytes = CURVE_NAME_BYTES,
      mech_initializer = \<lambda>srv cfg. and_then (initialize_curve (env_dryoc X) (env_ephemeral X) srv cfg) (\<lambda>m. Inr (MCurve m)),
      is_locally_enabled = \<lambda>cfg. use_curve cfg\<rparr>,
     \<lparr>name_static_bytes = NOISE_NAME_BYTES,
      mech_initializer = \<lambda>srv cfg. and_then (initialize_noise_xx (env_snow X) srv cfg) (\<lambda>m. Inr (MNoise m)),
      is_locally_enabled = \<lambda>cfg. use_noise_xx cfg\<rparr>]"

fun negotiate_loop ::
  "('h, 't) KnownMechanismDescriptor list \<Rightarrow> bool \<Rightarrow> ZmtpEngineConfig \<Rightarrow> bytes \<Rightarrow> ('h, 't) Mechanism res" where
  "negotiate_loop [] is_server local_config proposed = Inl SecurityError"
| "negotiate_loop (d # ds) is_server local_config proposed =
    (if name_static_bytes d = proposed then
       (if is_locally_enabled d local_config then mech_initializer d is_server local_config
        else Inl SecurityError)
     else negotiate_loop ds is_server local_config proposed)"

definition negotiate_security_mechanism ::
  "('h, 't) env \<Rightarrow> bool \<Rightarrow> ZmtpEngineConfig \<Rightarrow> ZmtpGreeting \<Rightarrow> ('h, 't) Mechanism res" where
  "negotiate_security_mechanism X is_server local_config peer_greeting =
    negotiate_loop (KNOWN_MECHANISMS X) is_server local_config (greeting_mechanism peer_greeting)"

text \<open>Whether the configuration asks for a mechanism.\<close>

fun mech_enabled :: "ZmtpEngineConfig \<Rightarrow> ('h, 't) Mechanism \<Rightarrow> bool" where
  "mech_enabled cfg (MNull _) = (\<not> security_enabled cfg)"
| "mech_enabled cfg (MPlain _) = use_plain cfg"
| "mech_enabled cfg (MCurve _) = use_curve cfg"
| "mech_enabled cfg (MNoise _) = use_noise_xx cfg"

lemma negotiate_enabled:
  "negotiate_security_mechanism X srv cfg g = Inr m \<Longrightarrow>
    mech_enabled cfg m \<and> greeting_mechanism g = mech_name_bytes (mech_name m)"
  by (auto simp: negotiate_security_mechanism_def KNOWN_MECHANISMS_def and_then_Inr_iff NULL_NAME_BYTES_def
      PLAIN_NAME_BYTES_def CURVE_NAME_BYTES_def NOISE_NAME_BYTES_def split: if_splits)

text \<open>
  C26. A peer cannot talk a secured socket out of its security: once a PLAIN or CURVE option was accepted
  on the socket, whatever options are set afterwards and whatever mechanism a peer proposes in its
  greeting, the negotiation either fails or ends in a mechanism other than NULL that the configuration
  enables and the peer proposed.
\<close>

theorem negotiation_never_null:
  assumes "apply_core_option_value options option_id v = Inr options'"
    and "option_id \<in> {PLAIN_SERVER, PLAIN_USERNAME, PLAIN_PASSWORD, CURVE_SERVER, CURVE_SECRET_KEY, CURVE_SERVER_KEY}"
    and "cfg = engine_config (foldl configure_option options' xs)"
    and "negotiate_security_mechanism X is_server cfg greeting = Inr m"
  shows "mech_name m \<noteq> ''NULL'' \<and> mech_enabled cfg m \<and> greeting_mechanism greeting = mech_name_bytes (mech_name m)"
proof -
  have "plain_or_curve (foldl configure_option options' xs)"
    using assms(1,2) by (intro set_options_keep_security) (rule apply_enables_security)
  then have "security_enabled cfg"
    unfolding assms(3) by (auto simp: plain_or_curve_def engine_config_def)
  moreover note negotiate_enabled [OF assms(4)]
  ultimately show ?thesis by (cases m) auto
qed

definition example_env :: "(bool \<times> nat \<times> bytes option, unit) env" where
  "example_env = \<lparr>env_dryoc = toy_dryoc, env_ephemeral = key_pair toy_dryoc [3], env_snow = toy_snow, env_order = id\<rparr>"

definition example_greeting :: "bytes \<Rightarrow> ZmtpGreeting" where
  "example_greeting mechanism = \<lparr>greeting_version = (3, 0), greeting_mechanism = mechanism, greeting_as_server = False\<rparr>"

theorem negotiation_never_null_witness:
  "\<exists>options' m. apply_core_option_value options_default PLAIN_PASSWORD [112] = Inr options' \<and>
    negotiate_security_mechanism example_env True (engine_config (foldl configure_option options' [(SNDHWM, [5, 0, 0, 0])]))
      (example_greeting PLAIN_NAME_BYTES) = Inr m \<and> mech_name m \<noteq> ''NULL''"
proof -
  obtain options' where o: "apply_core_option_value options_default PLAIN_PASSWORD [112] = Inr options'"
      "plain_enabled (plain_options options')"
    by (simp add: apply_core_option_value_def option_ids parse_string_option_def map_ok_def)
  let ?cfg = "engine_config (foldl configure_option options' [(SNDHWM, [5, 0, 0, 0])])"
  have "use_plain ?cfg"
    using o(2)
    by (simp add: configure_option_def apply_core_option_value_def option_ids parse_u32_option_def map_ok_def
        engine_config_def split: sum.split)
  then obtain m where m: "negotiate_security_mechanism example_env True ?cfg (example_greeting PLAIN_NAME_BYTES) = Inr m"
    by (simp add: negotiate_security_mechanism_def KNOWN_MECHANISMS_def example_greeting_def initialize_plain_def
        NULL_NAME_BYTES_def PLAIN_NAME_BYTES_def mech_name_bytes_def str_def Let_def)
  from negotiation_never_null [OF o(1) _ refl m] o(1) m show ?thesis by blast
qed

end
