(* ===== verification/Zmtp_Command.thy ===== *)
theory Zmtp_Command
  imports Zmtp_Codec
begin

text \<open>
  ZMTP commands (\<^verbatim>\<open>core/src/protocol/zmtp/command.rs\<close>): PING, PONG and the READY metadata.  The property
  \<^verbatim>\<open>HashMap\<close> is an association list with distinct keys, listed in the iteration order of the map; a
  Rust \<^verbatim>\<open>String\<close> is its UTF-8 bytes.
\<close>

section \<open>Definitions\<close>

definition ZMTP_CMD_READY_NAME :: bytes where
  "ZMTP_CMD_READY_NAME = str ''READY''"

type_synonym properties = "(bytes \<times> bytes) list"

record ZmtpReady =
  ready_properties :: properties

datatype ZmtpCommand = Ping bytes | Pong bytes | Ready ZmtpReady | Error | Unknown bytes

function parse_properties_loop :: "properties \<Rightarrow> bytes \<Rightarrow> properties res" where
  "parse_properties_loop props [] = Inr props"
| "parse_properties_loop props (l # r) =
    (let name_len = unat l
     in if length r < name_len then Inl ProtocolViolation
        else (let name = take name_len r; r1 = drop name_len r
              in if \<not> utf8_valid name then Inl ProtocolViolation
                 else if length r1 < 4 then Inl ProtocolViolation
                 else (let value_len = be_nat (take 4 r1); r2 = drop 4 r1
                       in if length r2 < value_len then Inl ProtocolViolation
                          else parse_properties_loop (alist_put name (take value_len r2) props)
                                 (drop value_len r2))))"
  by pat_completeness auto

termination parse_properties_loop
  by (relation "measure (\<lambda>(_, b). length b)") auto

definition parse_properties :: "bytes \<Rightarrow> ZmtpReady res" where
  "parse_properties body =
    and_then (parse_properties_loop [] body) (\<lambda>ps. Inr \<lparr>ready_properties = ps\<rparr>)"

fun encode_properties_loop :: "properties \<Rightarrow> bytes \<Rightarrow> bytes" where
  "encode_properties_loop [] dst = dst"
| "encode_properties_loop ((name, val) # ps) dst =
    (if length name > 255 then encode_properties_loop ps dst
     else encode_properties_loop ps
            (dst @ be_bytes 1 (length name) @ name @ be_bytes 4 (length val) @ val))"

definition encode_properties :: "ZmtpReady \<Rightarrow> bytes \<Rightarrow> bytes" where
  "encode_properties r dst = encode_properties_loop (ready_properties r) dst"

definition ready_create_msg :: "properties \<Rightarrow> Msg" where
  "ready_create_msg ps =
    (let name = ZMTP_CMD_READY_NAME;
         body = encode_properties \<lparr>ready_properties = ps\<rparr> (be_bytes 1 (length name) @ name)
     in set_flags (flags_empty\<lparr>COMMAND := True\<rparr>) (msg_from_bytes body))"

definition command_parse :: "Msg \<Rightarrow> ZmtpCommand option" where
  "command_parse msg =
    (if \<not> is_command msg \<or> is_more msg then None
     else case msg_data msg of
       None \<Rightarrow> None
     | Some body \<Rightarrow>
         if prefix (0x04 # str ''PING'') body \<and> length body \<ge> 7 then Some (Ping (drop (5 + 2) body))
         else if prefix (0x04 # str ''PONG'') body \<and> length body \<ge> 5 then Some (Pong (drop 5 body))
         else if prefix (0x05 # str ''READY'') body \<and> length body \<ge> 6 then
           (case parse_properties (drop 6 body) of
              Inr ready_cmd \<Rightarrow> Some (Ready ready_cmd)
            | Inl _ \<Rightarrow> None)
         else if prefix (0x05 # str ''ERROR'') body then Some Error
         else Some (Unknown body))"

definition create_ping :: "16 word \<Rightarrow> bytes \<Rightarrow> Msg" where
  "create_ping ttl context =
    set_flags (flags_empty\<lparr>COMMAND := True\<rparr>)
      (msg_from_vec ((0x04 # str ''PING'') @ be_bytes 2 (unat ttl) @ context))"

definition create_pong :: "bytes \<Rightarrow> Msg" where
  "create_pong context =
    set_flags (flags_empty\<lparr>COMMAND := True\<rparr>) (msg_from_vec ((0x04 # str ''PONG'') @ context))"

declare parse_properties_loop.simps(2) [simp del]


section \<open>READY metadata\<close>

text \<open>The properties a READY command can carry: valid UTF-8 names and values below \<open>2 ^ 32\<close> bytes.\<close>

definition wf_properties :: "properties \<Rightarrow> bool" where
  "wf_properties ps = (distinct (map fst ps) \<and>
    (\<forall>(n, v) \<in> set ps. utf8_valid n \<and> length v < 2 ^ 32))"

definition wire_properties :: "properties \<Rightarrow> properties" where
  "wire_properties ps = filter (\<lambda>(n, v). length n \<le> 255) ps"

lemma encode_properties_loop_append:
  "encode_properties_loop ps dst = dst @ encode_properties_loop ps []"
proof (induction ps arbitrary: dst)
  case Nil
  show ?case by simp
next
  case (Cons p ps)
  obtain n v where p: "p = (n, v)" by (cases p)
  let ?e = "be_bytes 1 (length n) @ n @ be_bytes 4 (length v) @ v"
  have "encode_properties_loop (p # ps) dst =
      (if length n > 255 then encode_properties_loop ps dst else encode_properties_loop ps (dst @ ?e))"
    and "encode_properties_loop (p # ps) [] =
      (if length n > 255 then encode_properties_loop ps [] else encode_properties_loop ps ?e)"
    by (simp_all add: p)
  with Cons.IH [of dst] Cons.IH [of "dst @ ?e"] Cons.IH [of ?e] show ?case by simp
qed

lemma parse_properties_entry:
  assumes "length n \<le> 255" "utf8_valid n" "length v < 2 ^ 32"
  shows "parse_properties_loop ps (be_bytes 1 (length n) @ n @ be_bytes 4 (length v) @ v @ rest) =
    parse_properties_loop (alist_put n v ps) rest"
proof -
  have l: "unat (of_nat (length n) :: byte) = length n" using assms by (simp add: unat_byte_of_nat)
  have v: "be_nat (be_bytes 4 (length v)) = length v" using assms by (simp add: be_nat_be_bytes)
  show ?thesis
    by (simp add: parse_properties_loop.simps(2) l v assms Let_def)
qed

lemma alist_put_fresh: "n \<notin> fst ` set ps \<Longrightarrow> alist_put n v ps = ps @ [(n, v)]"
  by (induction n v ps rule: alist_put.induct) auto

lemma parse_encode_properties:
  assumes "wf_properties ps" "fst ` set ps \<inter> fst ` set acc = {}"
  shows "parse_properties_loop acc (encode_properties_loop ps []) = Inr (acc @ wire_properties ps)"
  using assms
proof (induction ps arbitrary: acc)
  case Nil
  show ?case by (simp add: wire_properties_def)
next
  case (Cons p ps)
  obtain n v where p: "p = (n, v)" by (cases p)
  have wf: "wf_properties ps" using Cons.prems(1) by (simp add: wf_properties_def)
  show ?case
  proof (cases "length n > 255")
    case True
    with p Cons.IH [OF wf, of acc] Cons.prems(2) show ?thesis by (simp add: wire_properties_def)
  next
    case False
    have e: "encode_properties_loop (p # ps) [] =
        be_bytes 1 (length n) @ n @ be_bytes 4 (length v) @ v @ encode_properties_loop ps []"
      using False p encode_properties_loop_append [of ps "be_bytes 1 (length n) @ n @ be_bytes 4 (length v) @ v"]
      by simp
    have "n \<notin> fst ` set acc" using Cons.prems p by auto
    then have "parse_properties_loop acc (encode_properties_loop (p # ps) []) =
        parse_properties_loop (acc @ [(n, v)]) (encode_properties_loop ps [])"
      unfolding e using Cons.prems(1) p False
      by (subst parse_properties_entry) (auto simp: wf_properties_def alist_put_fresh)
    moreover have "fst ` set ps \<inter> fst ` set (acc @ [(n, v)]) = {}"
      using Cons.prems p by (auto simp: wf_properties_def)
    ultimately show ?thesis
      using Cons.IH [OF wf, of "acc @ [(n, v)]"] p False by (simp add: wire_properties_def)
  qed
qed

lemma command_names [wire_eval]:
  "str ''PING'' = [0x50, 0x49, 0x4E, 0x47]" "str ''PONG'' = [0x50, 0x4F, 0x4E, 0x47]"
  "str ''READY'' = [0x52, 0x45, 0x41, 0x44, 0x59]" "str ''ERROR'' = [0x45, 0x52, 0x52, 0x4F, 0x52]"
  by (simp_all add: str_def)

lemma command_parse_ready:
  assumes "wf_properties ps"
  shows "command_parse (ready_create_msg ps) = Some (Ready \<lparr>ready_properties = wire_properties ps\<rparr>)"
proof -
  have "encode_properties \<lparr>ready_properties = ps\<rparr> (be_bytes 1 (length ZMTP_CMD_READY_NAME) @ ZMTP_CMD_READY_NAME) =
      (0x05 # str ''READY'') @ encode_properties_loop ps []"
    by (simp add: encode_properties_def ZMTP_CMD_READY_NAME_def
        encode_properties_loop_append [of ps "_ # _"])
  then show ?thesis
    using parse_encode_properties [OF assms, of "[]"]
    by (simp add: command_parse_def ready_create_msg_def parse_properties_def msg_defs command_names Let_def)
qed

lemma command_parse_ping_pong:
  "command_parse (create_ping ttl ctx) = Some (Ping ctx)" "command_parse (create_pong ctx) = Some (Pong ctx)"
proof -
  have "prefix (0x04 # str ''PING'') ((0x04 # str ''PING'') @ be_bytes 2 (unat ttl) @ ctx)" by simp
  then show "command_parse (create_ping ttl ctx) = Some (Ping ctx)"
    by (simp add: command_parse_def create_ping_def msg_defs)
  show "command_parse (create_pong ctx) = Some (Pong ctx)"
    by (simp add: command_parse_def create_pong_def msg_defs command_names)
qed

text \<open>
  C27. A READY command built from a property map is parsed back by the peer to exactly that map, except that
  names longer than 255 bytes, which the format cannot carry, are left out.
\<close>

theorem ready_roundtrip:
  assumes "wf_properties ps"
  shows "command_parse (ready_create_msg ps) = Some (Ready \<lparr>ready_properties = wire_properties ps\<rparr>)"
  using assms by (rule command_parse_ready)

theorem ready_roundtrip_witness:
  "command_parse (ready_create_msg [(str ''Socket-Type'', str ''REQ''), (str ''Identity'', [])]) =
    Some (Ready \<lparr>ready_properties = [(str ''Socket-Type'', str ''REQ''), (str ''Identity'', [])]\<rparr>)"
  using ready_roundtrip [of "[(str ''Socket-Type'', str ''REQ''), (str ''Identity'', [])]"]
  by (simp add: wf_properties_def wire_properties_def str_def)

text \<open>
  PING and PONG carry their context: a parsed PING yields the context it was created with, whatever
  the TTL, and a parsed PONG likewise.
\<close>

theorem ping_pong_parse:
  "command_parse (create_ping ttl ctx) = Some (Ping ctx) \<and>
   command_parse (create_pong ctx) = Some (Pong ctx)"
  by (simp add: command_parse_ping_pong)

end
