(* ===== verification/Session_Net.thy ===== *)
theory Session_Net
  imports Negotiation Zmtp_Command
begin

text \<open>
  The state of a session's protocol handler (\<^verbatim>\<open>core/src/sessionx/protocol_handler/mod.rs\<close>,
  \<^verbatim>\<open>core/src/sessionx/types.rs\<close>, \<^verbatim>\<open>core/src/sessionx/cork.rs\<close>) and the stream it works on.  The stream belongs to the
  runtime and the operating system; it appears here as the record \<open>net\<close>: what the next reads
  deliver and when, the bytes written so far, how the next writes and the next changes of the cork option
  end (successfully, where nothing is listed).  A read of no bytes is the end of the stream.  The field
  \<open>now\<close> is the clock that \<^verbatim>\<open>Instant::now\<close> reads, in milliseconds; only reads let time pass.  An awaited
  operation of an actor runs to its end: its cancellation by another arm of \<^verbatim>\<open>tokio::select!\<close> between two
  reads is not modelled.
\<close>

section \<open>The stream\<close>

datatype IoErrorKind = KAddrInUse | KAddrNotAvailable | KConnectionRefused | KPermissionDenied | KTimedOut
  | KConnectionReset | KBrokenPipe | KOther

definition from_io_endpoint :: "IoErrorKind \<Rightarrow> string \<Rightarrow> ZmqError" where
  "from_io_endpoint kind endpoint =
    (case kind of
       KAddrInUse \<Rightarrow> AddrInUse endpoint
     | KAddrNotAvailable \<Rightarrow> AddrNotAvailable endpoint
     | KConnectionRefused \<Rightarrow> ConnectionRefused endpoint
     | KPermissionDenied \<Rightarrow> PermissionDenied
     | KTimedOut \<Rightarrow> Timeout
     | KConnectionReset \<Rightarrow> ConnectionClosed
     | KBrokenPipe \<Rightarrow> ConnectionClosed
     | KOther \<Rightarrow> IoError)"

text \<open>A write that fails, or does not end in time, may have written a prefix.\<close>

datatype write_result = WriteOk | WriteErr nat IoErrorKind | WriteStuck nat

record net =
  rx :: "(nat \<times> (IoErrorKind + bytes)) list"
  tx :: bytes
  write_results :: "write_result list"
  cork_results :: "bool list"

definition next_write_result :: "net \<Rightarrow> write_result" where
  "next_write_result n = (case write_results n of [] \<Rightarrow> WriteOk | r # _ \<Rightarrow> r)"

definition timed_write_all :: "string \<Rightarrow> bytes \<Rightarrow> net \<Rightarrow> net \<times> unit res" where
  "timed_write_all endpoint bs n =
    (let n' = n\<lparr>write_results := tl (write_results n)\<rparr>
     in case next_write_result n of
          WriteOk \<Rightarrow> (n'\<lparr>tx := tx n @ bs\<rparr>, Inr ())
        | WriteErr k kind \<Rightarrow> (n'\<lparr>tx := tx n @ take k bs\<rparr>, Inl (from_io_endpoint kind endpoint))
        | WriteStuck k \<Rightarrow> (n'\<lparr>tx := tx n @ take k bs\<rparr>, Inl Timeout))"

definition timed_flush :: "string \<Rightarrow> net \<Rightarrow> net \<times> unit res" where
  "timed_flush endpoint n = timed_write_all endpoint [] n"

text \<open>A read under \<^verbatim>\<open>tokio::time::timeout\<close>: the clock afterwards, the stream and the bytes.\<close>

definition timed_read_buf :: "string \<Rightarrow> nat \<Rightarrow> nat \<Rightarrow> net \<Rightarrow> nat \<times> net \<times> bytes res" where
  "timed_read_buf endpoint deadline clock n =
    (case rx n of
       [] \<Rightarrow> (max clock deadline, n, Inl Timeout)
     | (t, r) # rest \<Rightarrow>
         if t > deadline then (max clock deadline, n, Inl Timeout)
         else (max clock t, n\<lparr>rx := rest\<rparr>,
               case r of Inl kind \<Rightarrow> Inl (from_io_endpoint kind endpoint) | Inr bs \<Rightarrow> Inr bs))"

lemma timed_read_buf_shorter:
  "timed_read_buf ep dl clock n = (clock', n', Inr bs) \<Longrightarrow> length (rx n') < length (rx n)"
  by (auto simp: timed_read_buf_def split: list.splits if_splits sum.splits)


section \<open>TCP_CORK\<close>

record TcpCorkInfoX =
  is_corked :: bool
  expecting_first_frame_of_new_zmq_message :: bool

definition cork_new :: "int \<Rightarrow> TcpCorkInfoX option" where
  "cork_new fd =
    (if fd < 0 then None else Some \<lparr>is_corked = False, expecting_first_frame_of_new_zmq_message = True\<rparr>)"

definition set_expecting_first_frame :: "bool \<Rightarrow> TcpCorkInfoX \<Rightarrow> TcpCorkInfoX" where
  "set_expecting_first_frame expecting c = c\<lparr>expecting_first_frame_of_new_zmq_message := expecting\<rparr>"

text \<open>
  The result that the stream lists is that of duplicating the descriptor and setting the option together;
  on a failure of either the recorded state stays.
\<close>

definition apply_cork_state :: "bool \<Rightarrow> net \<Rightarrow> TcpCorkInfoX \<Rightarrow> net \<times> TcpCorkInfoX" where
  "apply_cork_state enable n c =
    (if is_corked c = enable then (n, c)
     else
       let n' = n\<lparr>cork_results := tl (cork_results n)\<rparr>
       in if (case cork_results n of [] \<Rightarrow> True | r # _ \<Rightarrow> r) then (n', c\<lparr>is_corked := enable\<rparr>) else (n', c))"

definition try_create_cork_info :: "int option \<Rightarrow> bool \<Rightarrow> TcpCorkInfoX option" where
  "try_create_cork_info stream_option use_cork_config =
    (if \<not> use_cork_config then None else case stream_option of None \<Rightarrow> None | Some fd \<Rightarrow> cork_new fd)"


section \<open>Heartbeats\<close>

record ZmtpHeartbeatStateX =
  last_activity_time :: nat
  last_ping_sent_time :: "nat option"
  waiting_for_pong :: bool
  ivl :: "duration option"
  hb_timeout :: duration

definition heartbeat_new :: "nat \<Rightarrow> duration option \<Rightarrow> duration \<Rightarrow> ZmtpHeartbeatStateX" where
  "heartbeat_new now i t =
    \<lparr>last_activity_time = now, last_ping_sent_time = None, waiting_for_pong = False, ivl = i, hb_timeout = t\<rparr>"

definition record_activity :: "nat \<Rightarrow> ZmtpHeartbeatStateX \<Rightarrow> ZmtpHeartbeatStateX" where
  "record_activity now hb = hb\<lparr>last_activity_time := now\<rparr>"

definition ping_sent :: "nat \<Rightarrow> ZmtpHeartbeatStateX \<Rightarrow> ZmtpHeartbeatStateX" where
  "ping_sent now hb = hb\<lparr>last_ping_sent_time := Some now, waiting_for_pong := True, last_activity_time := now\<rparr>"

definition pong_received :: "ZmtpHeartbeatStateX \<Rightarrow> ZmtpHeartbeatStateX" where
  "pong_received hb = hb\<lparr>waiting_for_pong := False, last_ping_sent_time := None\<rparr>"

definition should_send_ping :: "ZmtpHeartbeatStateX \<Rightarrow> nat \<Rightarrow> bool" where
  "should_send_ping hb now =
    (if waiting_for_pong hb then False
     else case ivl hb of Some interval \<Rightarrow> now - last_activity_time hb \<ge> interval | None \<Rightarrow> False)"

definition has_pong_timed_out :: "ZmtpHeartbeatStateX \<Rightarrow> nat \<Rightarrow> bool" where
  "has_pong_timed_out hb now =
    (if \<not> waiting_for_pong hb then False
     else case last_ping_sent_time hb of Some ping_sent_at \<Rightarrow> now - ping_sent_at \<ge> hb_timeout hb | None \<Rightarrow> False)"

definition get_pong_deadline :: "ZmtpHeartbeatStateX \<Rightarrow> nat option" where
  "get_pong_deadline hb =
    (if waiting_for_pong hb then map_option (\<lambda>sent_at. sent_at + hb_timeout hb) (last_ping_sent_time hb) else None)"


section \<open>The protocol handler\<close>

datatype HandshakeSubPhaseX = GreetingExchange | WaitingForPeerRevision | WaitingForGreeting | SecurityHandshake
  | ReadyExchange | ClientSentReady | ServerReceivedReady | V2IdentityExchange | HsDone

datatype ZmtpHandshakeProgressX = InProgress | IdentityReady bytes | ProgressComplete | ProtocolError
  | FatalError ZmqError

record ZmtpHandshakeStateX =
  sub_phase :: HandshakeSubPhaseX
  peer_socket_type :: "bytes option"
  peer_identity_from_ready :: "bytes option"

definition handshake_state_new :: ZmtpHandshakeStateX where
  "handshake_state_new = \<lparr>sub_phase = GreetingExchange, peer_socket_type = None, peer_identity_from_ready = None\<rparr>"

record ('h, 't) ZmtpProtocolHandlerX =
  config :: ZmtpEngineConfig
  is_server :: bool
  stream :: "net option"
  network_read_buffer :: bytes
  handshake_state :: ZmtpHandshakeStateX
  security_mechanism :: "('h, 't) Mechanism"
  pending_peer_greeting :: "ZmtpGreeting option"
  negotiated_version :: "NegotiatedVersion option"
  zmtp_manual_parser :: ZmtpManualParser
  framer :: "'t SecureFramer"
  heartbeat_state :: ZmtpHeartbeatStateX
  cork_info :: "TcpCorkInfoX option"
  now :: nat

definition effective_heartbeat_timeout :: "ZmtpEngineConfig \<Rightarrow> duration" where
  "effective_heartbeat_timeout cfg =
    (case cfg_heartbeat_timeout cfg of
       Some t \<Rightarrow> t
     | None \<Rightarrow> (case cfg_heartbeat_ivl cfg of None \<Rightarrow> 30 * 1000 | Some i \<Rightarrow> max i 100))"

definition handler_new ::
  "net \<Rightarrow> int \<Rightarrow> ZmtpEngineConfig \<Rightarrow> bool \<Rightarrow> nat \<Rightarrow> ('h, 't) ZmtpProtocolHandlerX" where
  "handler_new n fd cfg srv clock =
    \<lparr>config = cfg, is_server = srv, stream = Some n, network_read_buffer = [],
     handshake_state = handshake_state_new, security_mechanism = MNull NullMechanism,
     pending_peer_greeting = None, negotiated_version = None,
     zmtp_manual_parser = manual_new (cfg_max_msg_size cfg),
     framer = FNull (null_framer_new (cfg_max_msg_size cfg)),
     heartbeat_state = heartbeat_new clock (cfg_heartbeat_ivl cfg) (effective_heartbeat_timeout cfg),
     cork_info = try_create_cork_info (if use_cork cfg then Some fd else None) (use_cork cfg), now = clock\<rparr>"

definition is_handshake_complete :: "('h, 't) ZmtpProtocolHandlerX \<Rightarrow> bool" where
  "is_handshake_complete handler = (sub_phase (handshake_state handler) = HsDone)"

definition activity :: "('h, 't) ZmtpProtocolHandlerX \<Rightarrow> ('h, 't) ZmtpProtocolHandlerX" where
  "activity handler = handler\<lparr>heartbeat_state := record_activity (now handler) (heartbeat_state handler)\<rparr>"

definition set_sub_phase :: "HandshakeSubPhaseX \<Rightarrow> ('h, 't) ZmtpProtocolHandlerX \<Rightarrow> ('h, 't) ZmtpProtocolHandlerX" where
  "set_sub_phase p handler = handler\<lparr>handshake_state := (handshake_state handler)\<lparr>sub_phase := p\<rparr>\<rparr>"

definition clear_handshake_state :: "('h, 't) ZmtpProtocolHandlerX \<Rightarrow> ('h, 't) ZmtpProtocolHandlerX" where
  "clear_handshake_state handler =
    (let handler = handler\<lparr>pending_peer_greeting := None, negotiated_version := None, network_read_buffer := []\<rparr>;
         handler = (if mech_name (security_mechanism handler) \<noteq> ''NULL''
                    then handler\<lparr>security_mechanism := MNull NullMechanism\<rparr> else handler)
     in handler\<lparr>framer := FNull (null_framer_new (cfg_max_msg_size (config handler)))\<rparr>)"

text \<open>The result of \<^verbatim>\<open>shutdown()\<close> on the stream is only logged.\<close>

definition initiate_stream_shutdown ::
  "('h, 't) ZmtpProtocolHandlerX \<Rightarrow> ('h, 't) ZmtpProtocolHandlerX \<times> unit res" where
  "initiate_stream_shutdown handler =
    (let handler = clear_handshake_state handler;
         handler = (case (stream handler, cork_info handler) of
                      (Some n, Some c) \<Rightarrow>
                        if is_corked c then
                          (case apply_cork_state False n c of (n, c) \<Rightarrow> handler\<lparr>stream := Some n, cork_info := Some c\<rparr>)
                        else handler
                    | _ \<Rightarrow> handler)
     in (handler\<lparr>stream := None\<rparr>, Inr ()))"

text \<open>
  One timed write, followed by a flush where the source flushes; the missing stream is reported before
  anything is written.
\<close>

definition send_bytes ::
  "string \<Rightarrow> string option \<Rightarrow> bytes \<Rightarrow> ('h, 't) ZmtpProtocolHandlerX \<Rightarrow> ('h, 't) ZmtpProtocolHandlerX \<times> unit res" where
  "send_bytes endpoint flush_endpoint bs handler =
    (case stream handler of
       None \<Rightarrow> (handler, Inl Internal)
     | Some n \<Rightarrow>
         (case timed_write_all endpoint bs n of
            (n, Inl e) \<Rightarrow> (handler\<lparr>stream := Some n\<rparr>, Inl e)
          | (n, Inr _) \<Rightarrow>
              (case flush_endpoint of
                 None \<Rightarrow> (handler\<lparr>stream := Some n\<rparr>, Inr ())
               | Some ep \<Rightarrow>
                   (case timed_flush ep n of (n, r) \<Rightarrow> (handler\<lparr>stream := Some n\<rparr>, r)))))"

text \<open>
  The loop that reads until the buffer holds a number of bytes, shared by the peek at the peer's revision
  and the reads of the two greetings.
\<close>

function fill_buffer ::
  "string \<Rightarrow> nat \<Rightarrow> nat \<Rightarrow> ('h, 't) ZmtpProtocolHandlerX \<Rightarrow> ('h, 't) ZmtpProtocolHandlerX \<times> unit res" where
  "fill_buffer endpoint deadline len handler =
    (case stream handler of
       None \<Rightarrow> (handler, Inl Internal)
     | Some n \<Rightarrow>
         if length (network_read_buffer handler) \<ge> len then (handler, Inr ())
         else if deadline - now handler = 0 then (handler, Inl Timeout)
         else
           (case timed_read_buf endpoint deadline (now handler) n of
              (clock, n', Inl e) \<Rightarrow> (handler\<lparr>stream := Some n', now := clock\<rparr>, Inl e)
            | (clock, n', Inr bs) \<Rightarrow>
                let handler = handler\<lparr>stream := Some n', now := clock,
                      network_read_buffer := network_read_buffer handler @ bs\<rparr>
                in if bs = [] then (handler, Inl ConnectionClosed)
                   else fill_buffer endpoint deadline len (activity handler)))"
  by pat_completeness auto
termination
  by (relation "measure (\<lambda>(_, _, _, handler). case stream handler of None \<Rightarrow> 0 | Some n \<Rightarrow> length (rx n))")
    (auto simp: activity_def dest!: timed_read_buf_shorter [OF sym])

end
