(* ===== verification/Session_Handshake.thy ===== *)
theory Session_Handshake
  imports Session_Net
begin

text \<open>
  The handshake of a session: staged greeting, security tokens and READY exchange
  (\<^verbatim>\<open>core/src/sessionx/protocol_handler/handshake.rs\<close>) and the ZMTP/2.0 path
  (\<^verbatim>\<open>core/src/sessionx/protocol_handler/v2_path.rs\<close>).  One call of \<open>advance_handshake\<close> is one step of the
  handshake.  The loop that drives the security mechanism runs on fuel; \<open>Spinning\<close> is the
  exhausted fuel and \<open>Panicked\<close> a panic of the task.
\<close>

datatype 'a run = Returned 'a | Panicked | Spinning

section \<open>Command frames\<close>

definition decode_handshake ::
  "('h, 't) ZmtpProtocolHandlerX \<Rightarrow> ('h, 't) ZmtpProtocolHandlerX \<times> Msg option res" where
  "decode_handshake handler =
    (case decode_from_buffer (zmtp_manual_parser handler) (network_read_buffer handler) of
       (p, b, r) \<Rightarrow> (handler\<lparr>zmtp_manual_parser := p, network_read_buffer := b\<rparr>, r))"

lemma decode_handshake_stream: "decode_handshake h = (h', r) \<Longrightarrow> stream h' = stream h"
  by (auto simp: decode_handshake_def split: prod.splits)

function read_handshake_command_frame ::
  "nat \<Rightarrow> ('h, 't) ZmtpProtocolHandlerX \<Rightarrow> ('h, 't) ZmtpProtocolHandlerX \<times> Msg res" where
  "read_handshake_command_frame deadline handler =
    (case stream handler of
       None \<Rightarrow> (handler, Inl Internal)
     | Some n \<Rightarrow>
         (case (if network_read_buffer handler \<noteq> [] then decode_handshake handler else (handler, Inr None)) of
            (handler, Inl e) \<Rightarrow> (handler, Inl e)
          | (handler, Inr (Some msg)) \<Rightarrow>
              let handler = activity handler
              in if \<not> is_command msg then (handler, Inl ProtocolViolation) else (handler, Inr msg)
          | (handler, Inr None) \<Rightarrow>
              if deadline - now handler = 0 then (handler, Inl Timeout)
              else
                (case timed_read_buf ''handshake command read'' deadline (now handler) n of
                   (clock, n', Inl e) \<Rightarrow> (handler\<lparr>stream := Some n', now := clock\<rparr>, Inl e)
                 | (clock, n', Inr bs) \<Rightarrow>
                     let handler = handler\<lparr>stream := Some n', now := clock,
                           network_read_buffer := network_read_buffer handler @ bs\<rparr>
                     in if bs = [] then (handler, Inl ConnectionClosed)
                        else read_handshake_command_frame deadline (activity handler))))"
  by pat_completeness auto
termination
  by (relation "measure (\<lambda>(_, handler). case stream handler of None \<Rightarrow> 0 | Some n \<Rightarrow> length (rx n))")
    (auto simp: activity_def dest!: timed_read_buf_shorter [OF sym])

definition send_handshake_command_frame ::
  "Msg \<Rightarrow> ('h, 't) ZmtpProtocolHandlerX \<Rightarrow> ('h, 't) ZmtpProtocolHandlerX \<times> unit res" where
  "send_handshake_command_frame command_msg handler =
    (case send_bytes ''handshake command send'' None (encode (set_flags (flags_empty\<lparr>COMMAND := True\<rparr>) command_msg) []) handler of
       (handler, Inl e) \<Rightarrow> (handler, Inl e)
     | (handler, Inr _) \<Rightarrow> (activity handler, Inr ()))"


section \<open>Greeting\<close>

definition operation_timeout :: "('h, 't) ZmtpProtocolHandlerX \<Rightarrow> duration" where
  "operation_timeout handler = (case handshake_timeout (config handler) of None \<Rightarrow> 15 * 1000 | Some d \<Rightarrow> d)"

definition send_signature ::
  "('h, 't) ZmtpProtocolHandlerX \<Rightarrow> ('h, 't) ZmtpProtocolHandlerX \<times> ZmtpHandshakeProgressX res" where
  "send_signature handler =
    (case send_bytes ''g sig send'' (Some ''g sig flush'') (encode_signature [] @ [GREETING_VERSION_MAJOR_BYTE]) handler of
       (handler, Inl e) \<Rightarrow> (handler, Inl e)
     | (handler, Inr _) \<Rightarrow>
         (set_sub_phase WaitingForPeerRevision ((activity handler)\<lparr>network_read_buffer := []\<rparr>), Inr InProgress))"

definition read_peer_signature_and_peek_revision ::
  "nat \<Rightarrow> ('h, 't) ZmtpProtocolHandlerX \<Rightarrow> ('h, 't) ZmtpProtocolHandlerX \<times> byte res" where
  "read_peer_signature_and_peek_revision peek_len handler =
    (case fill_buffer ''g peek read'' (now handler + operation_timeout handler) peek_len handler of
       (handler, Inl e) \<Rightarrow> (handler, Inl e)
     | (handler, Inr _) \<Rightarrow> (handler, peek_revision (take peek_len (network_read_buffer handler))))"

definition write_v2_tail_and_advance ::
  "('h, 't) ZmtpProtocolHandlerX \<Rightarrow> ('h, 't) ZmtpProtocolHandlerX \<times> ZmtpHandshakeProgressX res" where
  "write_v2_tail_and_advance handler =
    (if \<not> cfg_allow_zmtp2 (config handler) then (handler, Inl ProtocolViolation)
     else case socket_type_code (cfg_socket_type_name (config handler)) of
            None \<Rightarrow> (handler, Inl ProtocolViolation)
          | Some stype_byte \<Rightarrow>
              (case send_bytes ''g v2 tail send'' (Some ''g v2 tail flush'') [stype_byte] handler of
                 (handler, Inl e) \<Rightarrow> (handler, Inl e)
               | (handler, Inr _) \<Rightarrow>
                   (set_sub_phase V2IdentityExchange (handler\<lparr>negotiated_version := Some V2\<rparr>), Inr InProgress)))"

definition determine_own_greeting_mechanism :: "('h, 't) ZmtpProtocolHandlerX \<Rightarrow> bytes" where
  "determine_own_greeting_mechanism handler =
    (let cfg = config handler;
         can_propose_noise =
           (if is_server handler then noise_xx_local_sk_bytes_for_engine cfg \<noteq> None
            else noise_xx_local_sk_bytes_for_engine cfg \<noteq> None \<and> noise_xx_remote_pk_bytes_for_engine cfg \<noteq> None)
     in if use_noise_xx cfg \<and> can_propose_noise then NOISE_NAME_BYTES
        else if use_curve cfg then CURVE_NAME_BYTES
        else if use_plain cfg then PLAIN_NAME_BYTES
        else NULL_NAME_BYTES)"

definition write_v3_tail_and_advance ::
  "('h, 't) ZmtpProtocolHandlerX \<Rightarrow> ('h, 't) ZmtpProtocolHandlerX \<times> ZmtpHandshakeProgressX res" where
  "write_v3_tail_and_advance handler =
    (case send_bytes ''g v3 tail send'' (Some ''g v3 tail flush'')
            (encode_v3_tail_post_major (determine_own_greeting_mechanism handler) (is_server handler) []) handler of
       (handler, Inl e) \<Rightarrow> (handler, Inl e)
     | (handler, Inr _) \<Rightarrow> (set_sub_phase WaitingForGreeting handler, Inr InProgress))"

definition wait_for_peer_revision ::
  "('h, 't) ZmtpProtocolHandlerX \<Rightarrow> ('h, 't) ZmtpProtocolHandlerX \<times> ZmtpHandshakeProgressX res" where
  "wait_for_peer_revision handler =
    (case read_peer_signature_and_peek_revision (SIGNATURE_LENGTH + 1) handler of
       (handler, Inl e) \<Rightarrow> (handler, Inl e)
     | (handler, Inr peer_revision) \<Rightarrow>
         if peer_revision = V2_REVISION then write_v2_tail_and_advance handler
         else if peer_revision \<ge> GREETING_VERSION_MAJOR_BYTE then write_v3_tail_and_advance handler
         else (handler, Inl ProtocolViolation))"

definition receive_greeting ::
  "('h, 't) ZmtpProtocolHandlerX \<Rightarrow> ('h, 't) ZmtpProtocolHandlerX \<times> ZmtpHandshakeProgressX res" where
  "receive_greeting handler =
    (case fill_buffer ''g read'' (now handler + operation_timeout handler) GREETING_LENGTH handler of
       (handler, Inl e) \<Rightarrow> (handler, Inl e)
     | (handler, Inr _) \<Rightarrow>
         (case greeting_decode (network_read_buffer handler) of (b, r) \<Rightarrow>
            let handler = handler\<lparr>network_read_buffer := b\<rparr>
            in case r of
                 Inl e \<Rightarrow> (handler, Inl e)
               | Inr None \<Rightarrow> (handler, Inl ProtocolViolation)
               | Inr (Some pg) \<Rightarrow>
                   if fst (greeting_version pg) < 3 then (handler, Inl ProtocolViolation)
                   else (set_sub_phase SecurityHandshake
                           (handler\<lparr>negotiated_version := Some (V3 (snd (greeting_version pg))),
                              pending_peer_greeting := Some pg\<rparr>), Inr InProgress)))"


section \<open>Security tokens\<close>

fun security_loop ::
  "nat \<Rightarrow> ('h, 't) env \<Rightarrow> ('h, 't) ZmtpProtocolHandlerX \<Rightarrow> (('h, 't) ZmtpProtocolHandlerX \<times> ZmtpHandshakeProgressX res) run" where
  "security_loop 0 X handler = Spinning"
| "security_loop (Suc n) X handler =
    (if mech_is_complete (security_mechanism handler) then
       (case mech_into_framer X (security_mechanism handler) (cfg_max_msg_size (config handler)) of
          Inl e \<Rightarrow> Returned (handler\<lparr>security_mechanism := MNull NullMechanism\<rparr>, Inl e)
        | Inr (new_framer, id_opt) \<Rightarrow>
            Returned (set_sub_phase ReadyExchange (handler\<lparr>security_mechanism := MNull NullMechanism, framer := new_framer\<rparr>),
              Inr (case id_opt of Some identity \<Rightarrow> IdentityReady identity | None \<Rightarrow> InProgress)))
     else if mech_is_error (security_mechanism handler) then Returned (handler, Inl SecurityError)
     else
       (case mech_produce_token X (security_mechanism handler) of
          None \<Rightarrow> Panicked
        | Some (m, Inl e) \<Rightarrow> Returned (handler\<lparr>security_mechanism := m\<rparr>, Inl e)
        | Some (m, Inr (Some token_to_send)) \<Rightarrow>
            (case send_handshake_command_frame (msg_from_vec token_to_send) (handler\<lparr>security_mechanism := m\<rparr>) of
               (handler, Inl e) \<Rightarrow> Returned (handler, Inl e)
             | (handler, Inr _) \<Rightarrow> security_loop n X handler)
        | Some (m, Inr None) \<Rightarrow>
            (case read_handshake_command_frame (now handler + operation_timeout handler) (handler\<lparr>security_mechanism := m\<rparr>) of
               (handler, Inl e) \<Rightarrow> Returned (handler, Inl e)
             | (handler, Inr received_msg) \<Rightarrow>
                 (case mech_process_token X (security_mechanism handler) (msg_payload received_msg) of
                    None \<Rightarrow> Panicked
                  | Some (m, Inl e) \<Rightarrow> Returned (handler\<lparr>security_mechanism := m\<rparr>, Inl e)
                  | Some (m, Inr ContinueWaiting) \<Rightarrow> security_loop n X (handler\<lparr>security_mechanism := m\<rparr>)
                  | Some (m, Inr HandshakeComplete) \<Rightarrow> security_loop n X (handler\<lparr>security_mechanism := m\<rparr>)
                  | Some (m, Inr ProduceAndSend) \<Rightarrow>
                      (case mech_produce_token X m of
                         None \<Rightarrow> Panicked
                       | Some (m, Inl e) \<Rightarrow> Returned (handler\<lparr>security_mechanism := m\<rparr>, Inl e)
                       | Some (m, Inr None) \<Rightarrow> Returned (handler\<lparr>security_mechanism := m\<rparr>, Inl Internal)
                       | Some (m, Inr (Some token_to_send)) \<Rightarrow>
                           (case send_handshake_command_frame (msg_from_vec token_to_send) (handler\<lparr>security_mechanism := m\<rparr>) of
                              (handler, Inl e) \<Rightarrow> Returned (handler, Inl e)
                            | (handler, Inr _) \<Rightarrow> security_loop n X handler))))))"

definition SECURITY_FUEL :: nat where "SECURITY_FUEL = 8"

definition perform_security_handshake_step ::
  "('h, 't) env \<Rightarrow> ('h, 't) ZmtpProtocolHandlerX \<Rightarrow> (('h, 't) ZmtpProtocolHandlerX \<times> ZmtpHandshakeProgressX res) run" where
  "perform_security_handshake_step X handler =
    (if mech_name (security_mechanism handler) = ''NULL'' then
       (case pending_peer_greeting handler of
          None \<Rightarrow> Returned (handler, Inl Internal)
        | Some peer_greeting \<Rightarrow>
            (case negotiate_security_mechanism X (is_server handler) (config handler) peer_greeting of
               Inl e \<Rightarrow> Returned (handler, Inl e)
             | Inr m \<Rightarrow> security_loop SECURITY_FUEL X (handler\<lparr>security_mechanism := m\<rparr>)))
     else security_loop SECURITY_FUEL X handler)"


section \<open>READY\<close>

definition build_ready_properties :: "('h, 't) ZmtpProtocolHandlerX \<Rightarrow> properties" where
  "build_ready_properties handler =
    (let socket_type = cfg_socket_type_name (config handler);
         props = [(str ''Socket-Type'', str socket_type)]
     in if socket_type = ''REQ'' \<or> socket_type = ''DEALER'' \<or> socket_type = ''ROUTER'' then
          (let identity = (case cfg_routing_id (config handler) of None \<Rightarrow> [] | Some blob \<Rightarrow> blob)
           in if length identity \<le> 255 then alist_put (str ''Identity'') identity props else props)
        else props)"

definition parse_peer_ready_identity :: "ZmtpReady \<Rightarrow> bytes option" where
  "parse_peer_ready_identity peer_ready_data =
    (case map_of (ready_properties peer_ready_data) (str ''Identity'') of
       Some id_v \<Rightarrow> if id_v \<noteq> [] \<and> length id_v \<le> 255 then Some id_v else None
     | None \<Rightarrow> None)"

definition record_peer_socket_type :: "ZmtpReady \<Rightarrow> ('h, 't) ZmtpProtocolHandlerX \<Rightarrow> ('h, 't) ZmtpProtocolHandlerX" where
  "record_peer_socket_type peer_ready_data handler =
    (case map_of (ready_properties peer_ready_data) (str ''Socket-Type'') of
       Some v \<Rightarrow>
         if utf8_valid v then handler\<lparr>handshake_state := (handshake_state handler)\<lparr>peer_socket_type := Some v\<rparr>\<rparr>
         else handler
     | None \<Rightarrow> handler)"

definition progress_of_identity :: "bytes option \<Rightarrow> ZmtpHandshakeProgressX" where
  "progress_of_identity i = (case i of None \<Rightarrow> ProgressComplete | Some b \<Rightarrow> IdentityReady b)"

definition perform_ready_exchange_step ::
  "('h, 't) env \<Rightarrow> ('h, 't) ZmtpProtocolHandlerX \<Rightarrow> ('h, 't) ZmtpProtocolHandlerX \<times> ZmtpHandshakeProgressX res" where
  "perform_ready_exchange_step X handler =
    (if \<not> is_server handler then
       (case send_handshake_command_frame (ready_create_msg (env_order X (build_ready_properties handler))) handler of
          (handler, Inl e) \<Rightarrow> (handler, Inl e)
        | (handler, Inr _) \<Rightarrow> (set_sub_phase ClientSentReady handler, Inr InProgress))
     else
       (case read_handshake_command_frame (now handler + operation_timeout handler) handler of
          (handler, Inl e) \<Rightarrow> (handler, Inl e)
        | (handler, Inr recv_ready_msg) \<Rightarrow>
            (case command_parse recv_ready_msg of
               Some (Ready data) \<Rightarrow>
                 let handler = record_peer_socket_type data handler;
                     handler = handler\<lparr>handshake_state := (handshake_state handler)
                       \<lparr>peer_identity_from_ready := parse_peer_ready_identity data\<rparr>\<rparr>
                 in (set_sub_phase ServerReceivedReady handler, Inr InProgress)
             | _ \<Rightarrow> (handler, Inl ProtocolViolation))))"

definition client_receive_peer_ready ::
  "('h, 't) ZmtpProtocolHandlerX \<Rightarrow> ('h, 't) ZmtpProtocolHandlerX \<times> ZmtpHandshakeProgressX res" where
  "client_receive_peer_ready handler =
    (case read_handshake_command_frame (now handler + operation_timeout handler) handler of
       (handler, Inl e) \<Rightarrow> (handler, Inl e)
     | (handler, Inr recv_ready_msg) \<Rightarrow>
         (case command_parse recv_ready_msg of
            Some (Ready data) \<Rightarrow>
              (set_sub_phase HsDone (record_peer_socket_type data handler),
               Inr (progress_of_identity (parse_peer_ready_identity data)))
          | _ \<Rightarrow> (handler, Inl ProtocolViolation)))"

definition server_send_ready ::
  "('h, 't) env \<Rightarrow> ('h, 't) ZmtpProtocolHandlerX \<Rightarrow> ('h, 't) ZmtpProtocolHandlerX \<times> ZmtpHandshakeProgressX res" where
  "server_send_ready X handler =
    (case send_handshake_command_frame (ready_create_msg (env_order X (build_ready_properties handler))) handler of
       (handler, Inl e) \<Rightarrow> (handler, Inl e)
     | (handler, Inr _) \<Rightarrow>
         let final_peer_id = peer_identity_from_ready (handshake_state handler);
             handler = handler\<lparr>handshake_state := (handshake_state handler)\<lparr>peer_identity_from_ready := None\<rparr>\<rparr>
         in (set_sub_phase HsDone handler, Inr (progress_of_identity final_peer_id)))"


section \<open>ZMTP/2.0\<close>

definition consume_peer_v2_greeting ::
  "('h, 't) ZmtpProtocolHandlerX \<Rightarrow> ('h, 't) ZmtpProtocolHandlerX \<times> byte res" where
  "consume_peer_v2_greeting handler =
    (case fill_buffer ''v2 greeting read'' (now handler + operation_timeout handler) V2_GREETING_LENGTH handler of
       (handler, Inl e) \<Rightarrow> (handler, Inl e)
     | (handler, Inr _) \<Rightarrow>
         (handler\<lparr>network_read_buffer := drop V2_GREETING_LENGTH (network_read_buffer handler)\<rparr>,
          Inr (network_read_buffer handler ! 11)))"

definition v2_compatible :: "string \<Rightarrow> string \<Rightarrow> bool" where
  "v2_compatible own_name peer_name \<longleftrightarrow>
    (own_name, peer_name) \<in> set
      [(''PULL'', ''PUSH''), (''PUSH'', ''PULL''), (''PUB'', ''SUB''), (''SUB'', ''PUB''), (''REQ'', ''REP''),
       (''REP'', ''REQ''), (''REQ'', ''ROUTER''), (''ROUTER'', ''REQ''), (''REP'', ''DEALER''), (''DEALER'', ''REP''),
       (''DEALER'', ''ROUTER''), (''ROUTER'', ''DEALER''), (''DEALER'', ''DEALER''), (''ROUTER'', ''ROUTER''), (''PAIR'', ''PAIR'')]"

definition validate_v2_socket_type_compat :: "string \<Rightarrow> byte \<Rightarrow> unit res" where
  "validate_v2_socket_type_compat own_name peer_byte =
    (case socket_type_name_from_code peer_byte of
       None \<Rightarrow> Inl ProtocolViolation
     | Some peer_name \<Rightarrow> if v2_compatible own_name peer_name then Inr () else Inl ProtocolViolation)"

definition send_empty_identity_frame_v2 ::
  "('h, 't) ZmtpProtocolHandlerX \<Rightarrow> ('h, 't) ZmtpProtocolHandlerX \<times> unit res" where
  "send_empty_identity_frame_v2 handler =
    (case send_bytes ''v2 identity send'' (Some ''v2 identity flush'') [0x00, 0x00] handler of
       (handler, Inl e) \<Rightarrow> (handler, Inl e)
     | (handler, Inr _) \<Rightarrow> (activity handler, Inr ()))"

definition enforce_v2_identity_constraints :: "Msg \<Rightarrow> unit res" where
  "enforce_v2_identity_constraints msg =
    (if COMMAND (msg_flags msg) then Inl ProtocolViolation
     else if MORE (msg_flags msg) then Inl ProtocolViolation
     else if length (msg_payload msg) > 255 then Inl ProtocolViolation
     else Inr ())"

function read_v2_identity_frame ::
  "nat \<Rightarrow> ('h, 't) ZmtpProtocolHandlerX \<Rightarrow> ('h, 't) ZmtpProtocolHandlerX \<times> bytes res" where
  "read_v2_identity_frame deadline handler =
    (case (if network_read_buffer handler \<noteq> [] then decode_handshake handler else (handler, Inr None)) of
       (handler, Inl e) \<Rightarrow> (handler, Inl e)
     | (handler, Inr (Some msg)) \<Rightarrow>
         (case enforce_v2_identity_constraints msg of
            Inl e \<Rightarrow> (handler, Inl e)
          | Inr _ \<Rightarrow> (activity handler, Inr (msg_payload msg)))
     | (handler, Inr None) \<Rightarrow>
         if deadline - now handler = 0 then (handler, Inl Timeout)
         else
           (case stream handler of
              None \<Rightarrow> (handler, Inl Internal)
            | Some n \<Rightarrow>
                (case timed_read_buf ''v2 identity read'' deadline (now handler) n of
                   (clock, n', Inl e) \<Rightarrow> (handler\<lparr>stream := Some n', now := clock\<rparr>, Inl e)
                 | (clock, n', Inr bs) \<Rightarrow>
                     let handler = handler\<lparr>stream := Some n', now := clock,
                           network_read_buffer := network_read_buffer handler @ bs\<rparr>
                     in if bs = [] then (handler, Inl ConnectionClosed)
                        else read_v2_identity_frame deadline (activity handler))))"
  by pat_completeness auto
termination
  by (relation "measure (\<lambda>(_, handler). case stream handler of None \<Rightarrow> 0 | Some n \<Rightarrow> length (rx n))")
    (auto simp: activity_def split: if_splits dest!: timed_read_buf_shorter [OF sym] decode_handshake_stream [OF sym])

definition exchange_v2_identity ::
  "('h, 't) ZmtpProtocolHandlerX \<Rightarrow> ('h, 't) ZmtpProtocolHandlerX \<times> ZmtpHandshakeProgressX res" where
  "exchange_v2_identity handler =
    (case consume_peer_v2_greeting handler of
       (handler, Inl e) \<Rightarrow> (handler, Inl e)
     | (handler, Inr peer_socket_type_byte) \<Rightarrow>
         (case validate_v2_socket_type_compat (cfg_socket_type_name (config handler)) peer_socket_type_byte of
            Inl e \<Rightarrow> (handler, Inl e)
          | Inr _ \<Rightarrow>
              let handler = (case socket_type_name_from_code peer_socket_type_byte of
                               Some name \<Rightarrow> handler\<lparr>handshake_state :=
                                 (handshake_state handler)\<lparr>peer_socket_type := Some (str name)\<rparr>\<rparr>
                             | None \<Rightarrow> handler)
              in (case send_empty_identity_frame_v2 handler of
                    (handler, Inl e) \<Rightarrow> (handler, Inl e)
                  | (handler, Inr _) \<Rightarrow>
                      (case read_v2_identity_frame (now handler + operation_timeout handler) handler of
                         (handler, Inl e) \<Rightarrow> (handler, Inl e)
                       | (handler, Inr peer_identity) \<Rightarrow>
                           let handler = (if peer_identity \<noteq> [] then handler\<lparr>handshake_state :=
                                 (handshake_state handler)\<lparr>peer_identity_from_ready := Some peer_identity\<rparr>\<rparr> else handler);
                               handler = set_sub_phase HsDone handler;
                               taken = peer_identity_from_ready (handshake_state handler)
                           in (handler\<lparr>handshake_state := (handshake_state handler)\<lparr>peer_identity_from_ready := None\<rparr>\<rparr>,
                               Inr (progress_of_identity taken))))))"


section \<open>One step\<close>

definition advance_handshake ::
  "('h, 't) env \<Rightarrow> ('h, 't) ZmtpProtocolHandlerX \<Rightarrow> (('h, 't) ZmtpProtocolHandlerX \<times> ZmtpHandshakeProgressX res) run" where
  "advance_handshake X handler =
    (case sub_phase (handshake_state handler) of
       GreetingExchange \<Rightarrow> Returned (send_signature handler)
     | WaitingForPeerRevision \<Rightarrow> Returned (wait_for_peer_revision handler)
     | WaitingForGreeting \<Rightarrow> Returned (receive_greeting handler)
     | SecurityHandshake \<Rightarrow> perform_security_handshake_step X handler
     | ReadyExchange \<Rightarrow> Returned (perform_ready_exchange_step X handler)
     | ClientSentReady \<Rightarrow> Returned (client_receive_peer_ready handler)
     | ServerReceivedReady \<Rightarrow> Returned (server_send_ready X handler)
     | V2IdentityExchange \<Rightarrow> Returned (exchange_v2_identity handler)
     | HsDone \<Rightarrow> Returned (handler, Inr ProgressComplete))"

text \<open>The steps the session actor performs until the handshake is complete or fails, with fuel.\<close>

fun run_handshake ::
  "nat \<Rightarrow> ('h, 't) env \<Rightarrow> ('h, 't) ZmtpProtocolHandlerX \<Rightarrow> (('h, 't) ZmtpProtocolHandlerX \<times> unit res) run" where
  "run_handshake 0 X handler = Spinning"
| "run_handshake (Suc n) X handler =
    (if is_handshake_complete handler then Returned (handler, Inr ())
     else case advance_handshake X handler of
            Panicked \<Rightarrow> Panicked
          | Spinning \<Rightarrow> Spinning
          | Returned (handler, Inl e) \<Rightarrow> Returned (handler, Inl e)
          | Returned (handler, Inr _) \<Rightarrow> run_handshake n X handler)"

end
