(* ===== verification/Session_Actor.thy ===== *)
theory Session_Actor
  imports Session_Handshake
begin

text \<open>
  The data phase of a session (\<^verbatim>\<open>core/src/sessionx/protocol_handler/data_io.rs\<close>,
  \<^verbatim>\<open>core/src/sessionx/protocol_handler/heartbeat.rs\<close>) and the session actor that drives it
  (\<^verbatim>\<open>core/src/sessionx/actor.rs\<close>, \<^verbatim>\<open>core/src/sessionx/pipe_manager.rs\<close>, \<^verbatim>\<open>core/src/sessionx/states.rs\<close>).  The arms of
  the actor's \<^verbatim>\<open>select!\<close> are the constructors of \<open>sca_event\<close>, each with the time at which it is
  taken; what the actor emits (events on the bus, messages handed to the socket) is recorded in its
  state.  The socket's answer to a message is a parameter.  Release builds: the
  \<^verbatim>\<open>debug_assert\<close> of \<^verbatim>\<open>write_data_msgs_impl\<close> is off.
\<close>

section \<open>Data\<close>

definition MAX_BUFFER_SIZE :: nat where "MAX_BUFFER_SIZE = 16 * 1024 * 1024"

text \<open>Reading has no timeout here: \<open>None\<close> is a read that is still waiting for the peer.\<close>

function read_data_frame ::
  "('h, 't) env \<Rightarrow> ('h, 't) ZmtpProtocolHandlerX \<Rightarrow> ('h, 't) ZmtpProtocolHandlerX \<times> Msg option res option" where
  "read_data_frame X handler =
    (case stream handler of
       None \<Rightarrow> (handler, Some (Inl Internal))
     | Some n \<Rightarrow>
         if length (network_read_buffer handler) > MAX_BUFFER_SIZE then (handler, Some (Inl ResourceLimitReached))
         else
           (case framer_try_read_msg X (framer handler) (network_read_buffer handler) of (f, b, r) \<Rightarrow>
              let handler = handler\<lparr>framer := f, network_read_buffer := b\<rparr>
              in case r of
                   Inr (Some msg) \<Rightarrow> (activity handler, Some (Inr (Some msg)))
                 | Inl e \<Rightarrow> (handler, Some (Inl e))
                 | Inr None \<Rightarrow>
                     (case rx n of
                        [] \<Rightarrow> (handler, None)
                      | (t, Inl kind) # rest \<Rightarrow>
                          (handler\<lparr>stream := Some (n\<lparr>rx := rest\<rparr>), now := max (now handler) t\<rparr>,
                           Some (Inl (from_io_endpoint kind ''data read'')))
                      | (t, Inr bs) # rest \<Rightarrow>
                          let handler = handler\<lparr>stream := Some (n\<lparr>rx := rest\<rparr>), now := max (now handler) t,
                                network_read_buffer := network_read_buffer handler @ bs\<rparr>
                          in if bs = [] then (handler, Some (Inl ConnectionClosed))
                             else read_data_frame X (activity handler))))"
  by pat_completeness auto
termination
  by (relation "measure (\<lambda>(_, handler). case stream handler of None \<Rightarrow> 0 | Some n \<Rightarrow> length (rx n))")
    (auto simp: activity_def)

definition cork_handler :: "bool \<Rightarrow> ('h, 't) ZmtpProtocolHandlerX \<Rightarrow> ('h, 't) ZmtpProtocolHandlerX" where
  "cork_handler enable handler =
    (case (stream handler, cork_info handler) of
       (Some n, Some ci) \<Rightarrow>
         (case apply_cork_state enable n ci of (n, ci) \<Rightarrow> handler\<lparr>stream := Some n, cork_info := Some ci\<rparr>)
     | _ \<Rightarrow> handler)"

definition uncork_after_write :: "('h, 't) ZmtpProtocolHandlerX \<Rightarrow> ('h, 't) ZmtpProtocolHandlerX" where
  "uncork_after_write handler =
    (let handler = (case cork_info handler of
                      Some ci \<Rightarrow> if is_corked ci then cork_handler False handler else handler
                    | None \<Rightarrow> handler)
     in handler\<lparr>cork_info := map_option (set_expecting_first_frame True) (cork_info handler)\<rparr>)"

text \<open>A write that times out returns before the activity is recorded and before the cork is removed.\<close>

definition write_data_msgs ::
  "('h, 't) env \<Rightarrow> Msg list \<Rightarrow> ('h, 't) ZmtpProtocolHandlerX \<Rightarrow> ('h, 't) ZmtpProtocolHandlerX \<times> unit res" where
  "write_data_msgs X msgs handler =
    (if msgs = [] then (handler, Inr ())
     else if stream handler = None then (handler, Inl Internal)
     else
       (case framer_write_msg_multipart X (framer handler) msgs of
          (f, Inl e) \<Rightarrow> (handler\<lparr>framer := f\<rparr>, Inl e)
        | (f, Inr wire_bytes_to_send) \<Rightarrow>
            let handler = cork_handler True (handler\<lparr>framer := f\<rparr>)
            in (case stream handler of
                  None \<Rightarrow> (handler, Inl Internal)
                | Some n \<Rightarrow>
                    let timed_out = (case next_write_result n of WriteStuck _ \<Rightarrow> True | _ \<Rightarrow> False)
                    in (case timed_write_all ''data write'' wire_bytes_to_send n of (n, write_result) \<Rightarrow>
                          let handler = handler\<lparr>stream := Some n\<rparr>
                          in if timed_out then (handler, Inl Timeout)
                             else (uncork_after_write (activity handler), write_result)))))"

definition write_data_msg ::
  "('h, 't) env \<Rightarrow> Msg \<Rightarrow> ('h, 't) ZmtpProtocolHandlerX \<Rightarrow> ('h, 't) ZmtpProtocolHandlerX \<times> bool res" where
  "write_data_msg X msg handler =
    (case write_data_msgs X [msg] handler of
       (handler, Inl e) \<Rightarrow> (handler, Inl e)
     | (handler, Inr _) \<Rightarrow> (handler, Inr (\<not> is_more msg)))"


section \<open>Heartbeats\<close>

definition process_heartbeat_command ::
  "Msg \<Rightarrow> ('h, 't) ZmtpProtocolHandlerX \<Rightarrow> ('h, 't) ZmtpProtocolHandlerX \<times> Msg option res" where
  "process_heartbeat_command cmd_msg handler =
    (case command_parse cmd_msg of
       Some (Ping ping_context_payload) \<Rightarrow> (handler, Inr (Some (create_pong ping_context_payload)))
     | Some (Pong _) \<Rightarrow> (handler\<lparr>heartbeat_state := pong_received (heartbeat_state handler)\<rparr>, Inr None)
     | Some Error \<Rightarrow> (handler, Inl ProtocolViolation)
     | Some _ \<Rightarrow> (handler, Inr None)
     | None \<Rightarrow> (handler, Inl ProtocolViolation))"

definition session_is_v2 :: "('h, 't) ZmtpProtocolHandlerX \<Rightarrow> bool" where
  "session_is_v2 handler = (case negotiated_version handler of None \<Rightarrow> False | Some v \<Rightarrow> is_v2 v)"

definition maybe_send_ping ::
  "('h, 't) env \<Rightarrow> ('h, 't) ZmtpProtocolHandlerX \<Rightarrow> ('h, 't) ZmtpProtocolHandlerX \<times> unit res" where
  "maybe_send_ping X handler =
    (if session_is_v2 handler then (handler, Inr ())
     else if should_send_ping (heartbeat_state handler) (now handler) then
       (case write_data_msg X (create_ping 0 []) handler of
          (handler, Inl e) \<Rightarrow> (handler, Inl e)
        | (handler, Inr _) \<Rightarrow>
            (handler\<lparr>heartbeat_state := ping_sent (now handler) (heartbeat_state handler)\<rparr>, Inr ()))
     else (handler, Inr ()))"


section \<open>The pipe to the socket\<close>

record CorePipeManagerXState =
  rx_from_core :: "unit option"
  core_pipe_read_id_for_incoming_routing :: "nat option"
  is_attached :: bool

definition pipe_manager_new :: CorePipeManagerXState where
  "pipe_manager_new = \<lparr>rx_from_core = None, core_pipe_read_id_for_incoming_routing = None, is_attached = False\<rparr>"

definition pm_attach :: "nat \<Rightarrow> CorePipeManagerXState \<Rightarrow> CorePipeManagerXState" where
  "pm_attach route p =
    (if is_attached p then p
     else p\<lparr>rx_from_core := Some (), core_pipe_read_id_for_incoming_routing := Some route, is_attached := True\<rparr>)"

definition detach_and_clear_pipes :: "CorePipeManagerXState \<Rightarrow> CorePipeManagerXState" where
  "detach_and_clear_pipes p =
    p\<lparr>rx_from_core := None, core_pipe_read_id_for_incoming_routing := None, is_attached := False\<rparr>"


section \<open>The penalty for short sessions\<close>

record SessionRegulator =
  started_at :: nat
  min_lifespan :: duration

definition regulator_new :: "nat \<Rightarrow> duration \<Rightarrow> SessionRegulator" where
  "regulator_new clock d = \<lparr>started_at = clock, min_lifespan = d\<rparr>"

text \<open>The clock after the sleep.\<close>

definition enforce_min_lifespan :: "nat \<Rightarrow> SessionRegulator \<Rightarrow> nat" where
  "enforce_min_lifespan clock g =
    (let uptime = clock - started_at g in if uptime < min_lifespan g then clock + (min_lifespan g - uptime) else clock)"


section \<open>The actor\<close>

datatype ConnectionPhaseX = Initial | HandshakeInProgress | WaitingForPipes | Operational | ShuttingDownStream
  | Terminating

datatype sca_command = ScaInitializePipes nat nat | Stop | OtherCommand

datatype sca_system_event = ContextTerminating | SocketClosing nat | OtherSystemEvent

datatype monitor_event = HandshakeSucceeded string

datatype sca_output = PeerIdentityEstablished nat nat "bytes option" "bytes option" | PipeMessageReceived nat Msg

record ('h, 't) SessionConnectionActorX =
  sca_handle :: nat
  current_phase :: ConnectionPhaseX
  parent_socket_id :: nat
  connected_endpoint_uri :: string
  monitored :: bool
  zmtp_handler :: "('h, 't) ZmtpProtocolHandlerX"
  core_pipe_manager :: CorePipeManagerXState
  pending_peer_identity_from_handshake :: "bytes option"
  error_for_drop_guard :: "ZmqError option"
  ping_check_timer :: "(duration \<times> nat) option"
  handshake_deadline :: "nat option"
  session_regulator :: SessionRegulator
  sca_outputs :: "sca_output list"
  monitor_events :: "monitor_event list"

definition sca_create ::
  "nat \<Rightarrow> nat \<Rightarrow> string \<Rightarrow> bool \<Rightarrow> net \<Rightarrow> int \<Rightarrow> bool \<Rightarrow> ZmtpEngineConfig \<Rightarrow> nat \<Rightarrow>
    ('h, 't) SessionConnectionActorX" where
  "sca_create handle parent uri has_monitor n fd server_role cfg clock =
    \<lparr>sca_handle = handle, current_phase = HandshakeInProgress, parent_socket_id = parent,
     connected_endpoint_uri = uri, monitored = has_monitor,
     zmtp_handler = handler_new n fd cfg server_role clock,
     core_pipe_manager = pipe_manager_new, pending_peer_identity_from_handshake = None, error_for_drop_guard = None,
     ping_check_timer = (case cfg_heartbeat_ivl cfg of
        Some i \<Rightarrow> if i \<noteq> 0 then Some (i, clock + i) else None | None \<Rightarrow> None),
     handshake_deadline = map_option (\<lambda>d. clock + d) (handshake_timeout cfg),
     session_regulator = regulator_new clock 1000, sca_outputs = [], monitor_events = []\<rparr>"

definition transition_to_shutdown_stream ::
  "ZmqError option \<Rightarrow> ('h, 't) SessionConnectionActorX \<Rightarrow> ('h, 't) SessionConnectionActorX" where
  "transition_to_shutdown_stream accompanying_error a =
    (if current_phase a \<noteq> ShuttingDownStream \<and> current_phase a \<noteq> Terminating then
       (let a = (case accompanying_error of
                   Some err \<Rightarrow> if error_for_drop_guard a = None then a\<lparr>error_for_drop_guard := Some err\<rparr> else a
                 | None \<Rightarrow> a)
        in a\<lparr>current_phase := ShuttingDownStream\<rparr>)
     else a)"

definition set_fatal_error :: "ZmqError \<Rightarrow> ('h, 't) SessionConnectionActorX \<Rightarrow> ('h, 't) SessionConnectionActorX" where
  "set_fatal_error e a =
    (let a = (if error_for_drop_guard a = None then a\<lparr>error_for_drop_guard := Some e\<rparr> else a);
         a = a\<lparr>zmtp_handler := fst (initiate_stream_shutdown (zmtp_handler a))\<rparr>
     in transition_to_shutdown_stream None a)"

definition check_and_transition_to_operational ::
  "('h, 't) SessionConnectionActorX \<Rightarrow> ('h, 't) SessionConnectionActorX" where
  "check_and_transition_to_operational a =
    (if current_phase a = WaitingForPipes \<and> is_handshake_complete (zmtp_handler a) \<and> is_attached (core_pipe_manager a) then
       (let a = a\<lparr>current_phase := Operational\<rparr>;
            final_peer_identity = pending_peer_identity_from_handshake a;
            a = a\<lparr>pending_peer_identity_from_handshake := None\<rparr>
        in case core_pipe_read_id_for_incoming_routing (core_pipe_manager a) of
             Some route \<Rightarrow>
               a\<lparr>sca_outputs := sca_outputs a @ [PeerIdentityEstablished (parent_socket_id a) route final_peer_identity
                    (peer_socket_type (handshake_state (zmtp_handler a)))],
                 monitor_events := monitor_events a @ (if monitored a then [HandshakeSucceeded (connected_endpoint_uri a)] else [])\<rparr>
           | None \<Rightarrow> set_fatal_error Internal a)
     else a)"

definition process_command :: "sca_command \<Rightarrow> ('h, 't) SessionConnectionActorX \<Rightarrow> ('h, 't) SessionConnectionActorX" where
  "process_command command a =
    (case command of
       ScaInitializePipes sca_handle_id route \<Rightarrow>
         if sca_handle a \<noteq> sca_handle_id then a
         else if is_attached (core_pipe_manager a) then a
         else if current_phase a = ShuttingDownStream \<or> current_phase a = Terminating then a
         else
           (let a = a\<lparr>core_pipe_manager := pm_attach route (core_pipe_manager a)\<rparr>
            in if current_phase a = WaitingForPipes then check_and_transition_to_operational a
               else if current_phase a = HandshakeInProgress \<and> is_handshake_complete (zmtp_handler a)
               then check_and_transition_to_operational (a\<lparr>current_phase := WaitingForPipes\<rparr>)
               else a)
     | Stop \<Rightarrow> transition_to_shutdown_stream None a
     | OtherCommand \<Rightarrow> a)"

definition process_system_event :: "sca_system_event \<Rightarrow> ('h, 't) SessionConnectionActorX \<Rightarrow> ('h, 't) SessionConnectionActorX" where
  "process_system_event event a =
    (case event of
       ContextTerminating \<Rightarrow> transition_to_shutdown_stream (Some Internal) a
     | SocketClosing socket_id \<Rightarrow>
         if socket_id = parent_socket_id a then transition_to_shutdown_stream (Some Internal) a else a
     | OtherSystemEvent \<Rightarrow> a)"

definition handle_handshake_progression ::
  "ZmtpHandshakeProgressX \<Rightarrow> ('h, 't) SessionConnectionActorX \<Rightarrow> ('h, 't) SessionConnectionActorX" where
  "handle_handshake_progression progress a =
    (if current_phase a \<noteq> HandshakeInProgress then a
     else
       let finish = (\<lambda>a. if is_handshake_complete (zmtp_handler a)
             then check_and_transition_to_operational (a\<lparr>current_phase := WaitingForPipes, handshake_deadline := None\<rparr>) else a)
       in case progress of
            InProgress \<Rightarrow> finish a
          | IdentityReady blob \<Rightarrow> finish (a\<lparr>pending_peer_identity_from_handshake := Some blob\<rparr>)
          | ProgressComplete \<Rightarrow> finish a
          | ProtocolError \<Rightarrow> set_fatal_error ProtocolViolation a
          | FatalError e \<Rightarrow> set_fatal_error e a)"

text \<open>A missing pipe id panics, which is the value \<open>None\<close>.\<close>

definition handle_incoming_from_network ::
  "('h, 't) env \<Rightarrow> (nat \<Rightarrow> Msg \<Rightarrow> unit res) \<Rightarrow> Msg \<Rightarrow> ('h, 't) SessionConnectionActorX \<Rightarrow> ('h, 't) SessionConnectionActorX option" where
  "handle_incoming_from_network X handle_pipe_event msg a =
    (case core_pipe_read_id_for_incoming_routing (core_pipe_manager a) of
       None \<Rightarrow> None
     | Some pipe_read_id \<Rightarrow>
         Some (if is_command msg then
                 if session_is_v2 (zmtp_handler a) then set_fatal_error ProtocolViolation a
                 else
                   (case process_heartbeat_command msg (zmtp_handler a) of
                      (h, Inr (Some pong_reply)) \<Rightarrow>
                        (case write_data_msg X pong_reply h of
                           (h, Inl e) \<Rightarrow> set_fatal_error e (a\<lparr>zmtp_handler := h\<rparr>)
                         | (h, Inr _) \<Rightarrow> a\<lparr>zmtp_handler := h\<rparr>)
                    | (h, Inr None) \<Rightarrow> a\<lparr>zmtp_handler := h\<rparr>
                    | (h, Inl e) \<Rightarrow> set_fatal_error e (a\<lparr>zmtp_handler := h\<rparr>))
               else
                 let a = a\<lparr>sca_outputs := sca_outputs a @ [PipeMessageReceived pipe_read_id msg]\<rparr>
                 in case handle_pipe_event pipe_read_id msg of
                      Inl e \<Rightarrow> set_fatal_error e a
                    | Inr _ \<Rightarrow> a))"

definition perform_final_cleanup_actions :: "('h, 't) SessionConnectionActorX \<Rightarrow> ('h, 't) SessionConnectionActorX" where
  "perform_final_cleanup_actions a =
    (let a = (if stream (zmtp_handler a) \<noteq> None
              then a\<lparr>zmtp_handler := fst (initiate_stream_shutdown (zmtp_handler a))\<rparr> else a)
     in a\<lparr>core_pipe_manager := detach_and_clear_pipes (core_pipe_manager a), current_phase := Terminating\<rparr>)"

definition perform_graceful_shutdown :: "('h, 't) SessionConnectionActorX \<Rightarrow> ('h, 't) SessionConnectionActorX" where
  "perform_graceful_shutdown a =
    (case initiate_stream_shutdown (zmtp_handler a) of
       (h, Inl e) \<Rightarrow>
         let a = a\<lparr>zmtp_handler := h\<rparr>
         in perform_final_cleanup_actions (if error_for_drop_guard a = None then a\<lparr>error_for_drop_guard := Some e\<rparr> else a)
     | (h, Inr _) \<Rightarrow> perform_final_cleanup_actions (a\<lparr>zmtp_handler := h\<rparr>))"


section \<open>The arms of the loop\<close>

datatype sca_event =
    CommandReceived sca_command
  | MailboxClosed
  | SystemEventReceived sca_system_event
  | EventsLagged
  | EventsClosed
  | HandshakeTimeout
  | PingTick
  | PongTimeout
  | NetworkReady
  | FromCore "Msg list"
  | CoreClosed

definition arm_enabled :: "nat \<Rightarrow> sca_event \<Rightarrow> ('h, 't) SessionConnectionActorX \<Rightarrow> bool" where
  "arm_enabled t ev a =
    (case ev of
       HandshakeTimeout \<Rightarrow> current_phase a = HandshakeInProgress \<and>
         (case handshake_deadline a of Some d \<Rightarrow> d \<le> t | None \<Rightarrow> False)
     | PingTick \<Rightarrow> current_phase a = Operational \<and>
         (case ping_check_timer a of Some (_, next) \<Rightarrow> next \<le> t | None \<Rightarrow> False)
     | PongTimeout \<Rightarrow> current_phase a = Operational \<and> waiting_for_pong (heartbeat_state (zmtp_handler a)) \<and>
         (case get_pong_deadline (heartbeat_state (zmtp_handler a)) of Some d \<Rightarrow> d \<le> t | None \<Rightarrow> False)
     | NetworkReady \<Rightarrow> (current_phase a = HandshakeInProgress \<or> current_phase a = Operational) \<and>
         stream (zmtp_handler a) \<noteq> None
     | FromCore _ \<Rightarrow> current_phase a = Operational \<and> is_attached (core_pipe_manager a) \<and>
         rx_from_core (core_pipe_manager a) \<noteq> None
     | CoreClosed \<Rightarrow> current_phase a = Operational \<and> is_attached (core_pipe_manager a)
     | _ \<Rightarrow> current_phase a \<noteq> Terminating)"

definition network_arm ::
  "('h, 't) env \<Rightarrow> (nat \<Rightarrow> Msg \<Rightarrow> unit res) \<Rightarrow> ('h, 't) SessionConnectionActorX \<Rightarrow> ('h, 't) SessionConnectionActorX run" where
  "network_arm X handle_pipe_event a =
    (let failed = (\<lambda>e a. if e = ConnectionClosed then transition_to_shutdown_stream (Some ConnectionClosed) a else set_fatal_error e a)
     in if current_phase a = HandshakeInProgress then
          (case advance_handshake X (zmtp_handler a) of
             Panicked \<Rightarrow> Panicked
           | Spinning \<Rightarrow> Spinning
           | Returned (h, Inl e) \<Rightarrow> Returned (failed e (a\<lparr>zmtp_handler := h\<rparr>))
           | Returned (h, Inr progress) \<Rightarrow> Returned (handle_handshake_progression progress (a\<lparr>zmtp_handler := h\<rparr>)))
        else
          (case read_data_frame X (zmtp_handler a) of
             (h, None) \<Rightarrow> Returned (a\<lparr>zmtp_handler := h\<rparr>)
           | (h, Some (Inl e)) \<Rightarrow> Returned (failed e (a\<lparr>zmtp_handler := h\<rparr>))
           | (h, Some (Inr None)) \<Rightarrow> Returned (a\<lparr>zmtp_handler := h\<rparr>)
           | (h, Some (Inr (Some msg))) \<Rightarrow>
               (case handle_incoming_from_network X handle_pipe_event msg (a\<lparr>zmtp_handler := h\<rparr>) of
                  None \<Rightarrow> Panicked
                | Some a \<Rightarrow> Returned a)))"

definition take_arm ::
  "('h, 't) env \<Rightarrow> (nat \<Rightarrow> Msg \<Rightarrow> unit res) \<Rightarrow> nat \<Rightarrow> sca_event \<Rightarrow> ('h, 't) SessionConnectionActorX \<Rightarrow>
    ('h, 't) SessionConnectionActorX run" where
  "take_arm X handle_pipe_event t ev a =
    (let a = a\<lparr>zmtp_handler := (zmtp_handler a)\<lparr>now := max (now (zmtp_handler a)) t\<rparr>\<rparr>
     in case ev of
          CommandReceived c \<Rightarrow> Returned (process_command c a)
        | MailboxClosed \<Rightarrow> Returned (transition_to_shutdown_stream None a)
        | SystemEventReceived e \<Rightarrow> Returned (process_system_event e a)
        | EventsLagged \<Rightarrow> Returned (set_fatal_error Internal a)
        | EventsClosed \<Rightarrow> Returned (set_fatal_error Internal a)
        | HandshakeTimeout \<Rightarrow> Returned (set_fatal_error Timeout a)
        | PingTick \<Rightarrow>
            let a = a\<lparr>ping_check_timer := map_option (\<lambda>(i, _). (i, now (zmtp_handler a) + i)) (ping_check_timer a)\<rparr>
            in (case maybe_send_ping X (zmtp_handler a) of
                  (h, Inl e) \<Rightarrow> Returned (set_fatal_error e (a\<lparr>zmtp_handler := h\<rparr>))
                | (h, Inr _) \<Rightarrow> Returned (a\<lparr>zmtp_handler := h\<rparr>))
        | PongTimeout \<Rightarrow>
            Returned (if has_pong_timed_out (heartbeat_state (zmtp_handler a)) (now (zmtp_handler a))
                      then set_fatal_error Timeout a else a)
        | NetworkReady \<Rightarrow> network_arm X handle_pipe_event a
        | FromCore msgs \<Rightarrow>
            (case write_data_msgs X msgs (zmtp_handler a) of
               (h, Inl e) \<Rightarrow> Returned (set_fatal_error e (a\<lparr>zmtp_handler := h\<rparr>))
             | (h, Inr _) \<Rightarrow> Returned (a\<lparr>zmtp_handler := h\<rparr>))
        | CoreClosed \<Rightarrow> Returned (transition_to_shutdown_stream (Some ConnectionClosed) a))"

text \<open>One turn of the loop of \<^verbatim>\<open>run_loop\<close>.\<close>

inductive sca_step ::
  "('h, 't) env \<Rightarrow> (nat \<Rightarrow> Msg \<Rightarrow> unit res) \<Rightarrow> ('h, 't) SessionConnectionActorX \<Rightarrow> ('h, 't) SessionConnectionActorX \<Rightarrow> bool"
  for X D where
  shut_down: "current_phase a = ShuttingDownStream \<Longrightarrow> sca_step X D a (perform_graceful_shutdown a)"
| arm: "current_phase a \<noteq> ShuttingDownStream \<Longrightarrow> current_phase a \<noteq> Terminating \<Longrightarrow> arm_enabled t ev a \<Longrightarrow>
    take_arm X D t ev a = Returned a' \<Longrightarrow> sca_step X D a a'"

inductive_cases sca_stepE: "sca_step X D a a'"

text \<open>
  After the loop: the error that the drop guard publishes with \<^verbatim>\<open>ActorStopping\<close> (none after a
  normal end) and the time at which the task ends.
\<close>

record ActorDropGuard =
  stopped_normally :: bool
  guard_error :: "ZmqError option"

definition guard_drop :: "ActorDropGuard \<Rightarrow> ZmqError option" where
  "guard_drop g =
    (if \<not> stopped_normally g then (case guard_error g of Some e \<Rightarrow> Some e | None \<Rightarrow> Some Internal) else None)"

definition run_loop_exit :: "('h, 't) SessionConnectionActorX \<Rightarrow> ZmqError option \<times> nat" where
  "run_loop_exit a =
    (let guard = \<lparr>stopped_normally = False, guard_error = None\<rparr>;
         guard = (case error_for_drop_guard a of
                    Some err \<Rightarrow> guard\<lparr>guard_error := Some err\<rparr>
                  | None \<Rightarrow> guard\<lparr>stopped_normally := True\<rparr>)
     in (guard_drop guard,
         if error_for_drop_guard a \<noteq> None then enforce_min_lifespan (now (zmtp_handler a)) (session_regulator a)
         else now (zmtp_handler a)))"

end
