(* ===== verification/Session_Security.thy ===== *)
theory Session_Security
  imports Session_Handshake
begin

text \<open>
  What the handshake of a session guarantees: it ends whatever the peer does, a server configured for PLAIN
  completes a ZMTP/3 session only with a peer that knows the credentials, and a ZMTP/2.0 session skips
  security altogether.
\<close>

section \<open>Reading preserves the stream\<close>

text \<open>The bytes a stream delivers up to its first error or its end, and all the bytes still to be parsed.\<close>

fun data_of :: "(nat \<times> (IoErrorKind + bytes)) list \<Rightarrow> bytes" where
  "data_of ((t, Inr (b # bs)) # es) = (b # bs) @ data_of es"
| "data_of _ = []"

definition avail :: "('h, 't) ZmtpProtocolHandlerX \<Rightarrow> bytes" where
  "avail h = network_read_buffer h @ (case stream h of None \<Rightarrow> [] | Some n \<Rightarrow> data_of (rx n))"

definition written :: "('h, 't) ZmtpProtocolHandlerX \<Rightarrow> bytes" where
  "written h = (case stream h of None \<Rightarrow> [] | Some n \<Rightarrow> tx n)"

text \<open>A handler up to what reads change.\<close>

definition unread :: "('h, 't) ZmtpProtocolHandlerX \<Rightarrow> ('h, 't) ZmtpProtocolHandlerX" where
  "unread h = h\<lparr>stream := None, network_read_buffer := [], heartbeat_state := heartbeat_new 0 None 0, now := 0,
    zmtp_manual_parser := manual_new 0\<rparr>"

lemma unread_eqD:
  assumes "unread h' = unread h"
  shows "config h' = config h" "is_server h' = is_server h" "handshake_state h' = handshake_state h"
    "security_mechanism h' = security_mechanism h" "pending_peer_greeting h' = pending_peer_greeting h"
    "negotiated_version h' = negotiated_version h" "framer h' = framer h" "cork_info h' = cork_info h"
  using arg_cong [OF assms, of config] arg_cong [OF assms, of is_server] arg_cong [OF assms, of handshake_state]
    arg_cong [OF assms, of security_mechanism] arg_cong [OF assms, of pending_peer_greeting]
    arg_cong [OF assms, of negotiated_version] arg_cong [OF assms, of framer] arg_cong [OF assms, of cork_info]
  by (simp_all add: unread_def)

lemma unread_update [simp]:
  "unread (h\<lparr>stream := n, now := c, network_read_buffer := b\<rparr>) = unread h"
  "unread (h\<lparr>zmtp_manual_parser := p, network_read_buffer := b\<rparr>) = unread h"
  "unread (activity h) = unread h"
  by (simp_all add: unread_def activity_def)

lemma activity_simps [simp]:
  "stream (activity h) = stream h" "network_read_buffer (activity h) = network_read_buffer h"
  "now (activity h) = now h" "zmtp_manual_parser (activity h) = zmtp_manual_parser h"
  "avail (activity h) = avail h" "config (activity h) = config h" "written (activity h) = written h"
  by (simp_all add: activity_def avail_def written_def)

lemma timed_read_buf_data:
  "timed_read_buf ep dl clock n = (clock', n', Inr bs) \<Longrightarrow> bs \<noteq> [] \<Longrightarrow>
    data_of (rx n) = bs @ data_of (rx n') \<and> tx n' = tx n"
  by (cases bs) (auto simp: timed_read_buf_def split: list.splits if_splits sum.splits)

declare fill_buffer.simps [simp del] read_handshake_command_frame.simps [simp del] read_v2_identity_frame.simps [simp del]

lemma fill_buffer_sound:
  "fill_buffer ep dl k h = (h', Inr r) \<Longrightarrow>
    unread h' = unread h \<and> avail h' = avail h \<and> written h' = written h \<and>
    zmtp_manual_parser h' = zmtp_manual_parser h \<and> k \<le> length (network_read_buffer h')"
proof (induction ep dl k h rule: fill_buffer.induct)
  case (1 ep dl k h)
  show ?case
  proof (cases "stream h")
    case None
    then show ?thesis using "1.prems" by (simp add: fill_buffer.simps [of ep dl k h])
  next
    case (Some n)
    show ?thesis
    proof (cases "k \<le> length (network_read_buffer h) \<or> dl - now h = 0")
      case True
      then show ?thesis
        using "1.prems" Some by (auto simp: fill_buffer.simps [of ep dl k h] split: if_splits)
    next
      case False
      obtain c n' q where q: "timed_read_buf ep dl (now h) n = (c, n', q)" by (metis prod_cases3)
      with "1.prems" Some False obtain bs where bs: "q = Inr bs" "bs \<noteq> []"
        by (cases q) (auto simp: fill_buffer.simps [of ep dl k h] Let_def split: if_splits)
      let ?h = "activity (h\<lparr>stream := Some n', now := c, network_read_buffer := network_read_buffer h @ bs\<rparr>)"
      have "fill_buffer ep dl k h = fill_buffer ep dl k ?h"
        using Some False q bs by (simp add: fill_buffer.simps [of ep dl k h])
      moreover have "avail ?h = avail h" "written ?h = written h"
        using timed_read_buf_data [OF q [unfolded bs(1)] bs(2)] Some
        by (simp_all add: avail_def written_def)
      ultimately show ?thesis
        using "1.IH" [OF Some _ _ q [symmetric] refl bs(1) refl bs(2)] False "1.prems" by simp
    qed
  qed
qed

lemma read_turn:
  assumes "stream h = Some n"
  shows "read_handshake_command_frame dl h =
    (case (if network_read_buffer h \<noteq> [] then decode_handshake h else (h, Inr None)) of
       (h, Inl e) \<Rightarrow> (h, Inl e)
     | (h, Inr (Some msg)) \<Rightarrow> if \<not> is_command msg then (activity h, Inl ProtocolViolation) else (activity h, Inr msg)
     | (h, Inr None) \<Rightarrow>
         if dl - now h = 0 then (h, Inl Timeout)
         else
           (case timed_read_buf ''handshake command read'' dl (now h) n of
              (clock, n', Inl e) \<Rightarrow> (h\<lparr>stream := Some n', now := clock\<rparr>, Inl e)
            | (clock, n', Inr bs) \<Rightarrow>
                if bs = [] then (h\<lparr>stream := Some n', now := clock, network_read_buffer := network_read_buffer h @ bs\<rparr>, Inl ConnectionClosed)
                else read_handshake_command_frame dl
                       (activity (h\<lparr>stream := Some n', now := clock, network_read_buffer := network_read_buffer h @ bs\<rparr>))))"
  unfolding read_handshake_command_frame.simps [of dl h] assms option.case Let_def ..

lemma read_command_sound:
  "read_handshake_command_frame dl h = (h', Inr msg) \<Longrightarrow>
    unread h' = unread h \<and> written h' = written h \<and> is_command msg \<and>
    decode_from_buffer (zmtp_manual_parser h) (avail h) = (zmtp_manual_parser h', avail h', Inr (Some msg))"
proof (induction dl h rule: read_handshake_command_frame.induct)
  case (1 dl h)
  show ?case
  proof (cases "stream h")
    case None
    then show ?thesis using "1.prems" by (simp add: read_handshake_command_frame.simps [of dl h])
  next
    case (Some n)
    obtain h1 r where d: "(if network_read_buffer h \<noteq> [] then decode_handshake h else (h, Inr None)) = (h1, r)" by fastforce
    have h1: "unread h1 = unread h" "stream h1 = Some n" "written h1 = written h" "now h1 = now h"
      using d Some by (auto simp: decode_handshake_def written_def split: if_splits prod.splits)
    let ?more = "case stream h of None \<Rightarrow> [] | Some n \<Rightarrow> data_of (rx n)"
    have dec: "decode_from_buffer (zmtp_manual_parser h) (network_read_buffer h) = (zmtp_manual_parser h1, network_read_buffer h1, r)"
      if "network_read_buffer h \<noteq> []"
      using d that by (auto simp: decode_handshake_def split: prod.splits)
    show ?thesis
    proof (cases r)
      case (Inl e)
      then show ?thesis using "1.prems" Some d by (simp add: read_turn)
    next
      case (Inr mo)
      show ?thesis
      proof (cases mo)
        case (Some m)
        then have "network_read_buffer h \<noteq> []" using d Inr by (auto split: if_splits)
        from manual.dec_item [OF dec [OF this, unfolded Inr Some]] show ?thesis
          using "1.prems" \<open>stream h = Some n\<close> d h1 Inr Some
          by (auto simp: read_turn avail_def split: if_splits)
      next
        case None
        obtain c n' q where q: "timed_read_buf ''handshake command read'' dl (now h1) n = (c, n', q)" by (metis prod_cases3)
        have late: "\<not> dl - now h1 = 0"
          using "1.prems" \<open>stream h = Some n\<close> d Inr None by (auto simp: read_turn)
        with "1.prems" \<open>stream h = Some n\<close> d Inr None q obtain bs where bs: "q = Inr bs" "bs \<noteq> []"
          by (cases q) (auto simp: read_turn split: if_splits)
        let ?h = "activity (h1\<lparr>stream := Some n', now := c, network_read_buffer := network_read_buffer h1 @ bs\<rparr>)"
        have "read_handshake_command_frame dl h = read_handshake_command_frame dl ?h"
          using d Inr None late q bs by (simp add: read_turn [OF \<open>stream h = Some n\<close>])
        moreover have "decode_from_buffer (zmtp_manual_parser ?h) (avail ?h) =
            decode_from_buffer (zmtp_manual_parser h) (avail h)"
        proof (cases "network_read_buffer h = []")
          case True
          then show ?thesis
            using timed_read_buf_data [OF q [unfolded bs(1)] bs(2)] d \<open>stream h = Some n\<close> by (simp add: avail_def)
        next
          case False
          from manual.dec_more [OF dec [OF False, unfolded Inr None], of ?more] show ?thesis
            using timed_read_buf_data [OF q [unfolded bs(1)] bs(2)] \<open>stream h = Some n\<close> by (simp add: avail_def)
        qed
        moreover have "written ?h = written h"
          using timed_read_buf_data [OF q [unfolded bs(1)] bs(2)] h1 by (simp add: written_def)
        ultimately show ?thesis
          using "1.IH" [OF \<open>stream h = Some n\<close> d [symmetric] Inr None late q [symmetric] refl bs(1) refl bs(2)] "1.prems" h1
          by simp
      qed
    qed
  qed
qed

lemma send_bytes_sound:
  "send_bytes ep fl bs h = (h', r) \<Longrightarrow>
    unread h' = unread h \<and> avail h' = avail h \<and> zmtp_manual_parser h' = zmtp_manual_parser h \<and>
    network_read_buffer h' = network_read_buffer h \<and> now h' = now h"
  by (auto simp: send_bytes_def timed_write_all_def timed_flush_def unread_def avail_def Let_def
      split: option.splits prod.splits sum.splits write_result.splits)

lemma send_command_sound:
  "send_handshake_command_frame m h = (h', r) \<Longrightarrow>
    unread h' = unread h \<and> avail h' = avail h \<and> zmtp_manual_parser h' = zmtp_manual_parser h"
  by (auto simp: send_handshake_command_frame_def split: prod.splits sum.splits dest!: send_bytes_sound)

lemma set_sub_phase_simps [simp]:
  "config (set_sub_phase p h) = config h" "is_server (set_sub_phase p h) = is_server h"
  "avail (set_sub_phase p h) = avail h" "security_mechanism (set_sub_phase p h) = security_mechanism h"
  "zmtp_manual_parser (set_sub_phase p h) = zmtp_manual_parser h"
  "sub_phase (handshake_state (set_sub_phase p h)) = p" "network_read_buffer (set_sub_phase p h) = network_read_buffer h"
  "written (set_sub_phase p h) = written h" "negotiated_version (set_sub_phase p h) = negotiated_version h"
  by (simp_all add: set_sub_phase_def avail_def written_def)


section \<open>What a step changes\<close>

lemma record_peer_socket_type_simps [simp]:
  "config (record_peer_socket_type d h) = config h" "is_server (record_peer_socket_type d h) = is_server h"
  "sub_phase (handshake_state (record_peer_socket_type d h)) = sub_phase (handshake_state h)"
  by (simp_all add: record_peer_socket_type_def split: option.split)

lemma perform_ready_result:
  "perform_ready_exchange_step X h = (h', Inr p) \<Longrightarrow>
    config h' = config h \<and> is_server h' = is_server h \<and>
    sub_phase (handshake_state h') = (if is_server h then ServerReceivedReady else ClientSentReady)"
  by (auto simp: perform_ready_exchange_step_def Let_def split: if_splits prod.splits sum.splits option.splits ZmtpCommand.splits
      dest!: send_command_sound read_command_sound dest: unread_eqD)

lemma client_receive_result:
  "client_receive_peer_ready h = (h', Inr p) \<Longrightarrow>
    config h' = config h \<and> is_server h' = is_server h \<and> sub_phase (handshake_state h') = HsDone"
  by (auto simp: client_receive_peer_ready_def split: prod.splits sum.splits option.splits ZmtpCommand.splits
      dest!: read_command_sound dest: unread_eqD)

lemma server_send_result:
  "server_send_ready X h = (h', Inr p) \<Longrightarrow>
    config h' = config h \<and> is_server h' = is_server h \<and> sub_phase (handshake_state h') = HsDone"
  by (auto simp: server_send_ready_def Let_def split: prod.splits sum.splits dest!: send_command_sound dest: unread_eqD)

lemma security_loop_result:
  "security_loop n X h = Returned (h', Inr p) \<Longrightarrow>
    config h' = config h \<and> is_server h' = is_server h \<and> sub_phase (handshake_state h') = ReadyExchange"
proof (induction n arbitrary: h)
  case (Suc n)
  have sent: "config h2 = config h1 \<and> is_server h2 = is_server h1"
    if "send_handshake_command_frame c (h1\<lparr>security_mechanism := m\<rparr>) = (h2, r)" for c h1 h2 m r
    using send_command_sound [OF that] by (auto dest: unread_eqD)
  have got: "config h2 = config h1 \<and> is_server h2 = is_server h1"
    if "read_handshake_command_frame dl (h1\<lparr>security_mechanism := m\<rparr>) = (h2, Inr c)" for dl h1 h2 m c
    using read_command_sound [OF that] by (auto dest: unread_eqD)
  show ?case
    using Suc.prems
    by (auto split: if_splits option.splits sum.splits prod.splits ProcessTokenAction.splits
        dest!: Suc.IH sent got)
qed simp

lemma perform_security_result:
  "perform_security_handshake_step X h = Returned (h', Inr p) \<Longrightarrow>
    config h' = config h \<and> is_server h' = is_server h \<and> sub_phase (handshake_state h') = ReadyExchange"
  by (auto simp: perform_security_handshake_step_def split: if_splits option.splits sum.splits dest!: security_loop_result)


section \<open>A PLAIN session is authenticated\<close>

text \<open>
  The first frame after the peer's greeting is a HELLO command with the configured credentials.
\<close>

definition plain_authenticated :: "ZmtpEngineConfig \<Rightarrow> bytes \<Rightarrow> bool" where
  "plain_authenticated cfg inp \<longleftrightarrow>
    (\<exists>parser' rest msg u p body.
       decode_from_buffer (manual_new (cfg_max_msg_size cfg)) (drop GREETING_LENGTH inp) = (parser', rest, Inr (Some msg)) \<and>
       is_command msg \<and> msg_payload msg = be_bytes 1 5 @ CMD_HELLO @ body \<and> parse_hello_body body = Inr (u, p) \<and>
       plain_username_for_engine cfg = Some u \<and> plain_password_for_engine cfg = Some p)"

definition plain_only :: "ZmtpEngineConfig \<Rightarrow> bool" where
  "plain_only cfg \<longleftrightarrow> security_enabled cfg \<and> use_plain cfg \<and> \<not> use_curve cfg \<and> \<not> use_noise_xx cfg \<and> \<not> cfg_allow_zmtp2 cfg"

definition plain_phase :: "ZmtpEngineConfig \<Rightarrow> bytes \<Rightarrow> ('h, 't) ZmtpProtocolHandlerX \<Rightarrow> bool" where
  "plain_phase cfg inp h \<longleftrightarrow> config h = cfg \<and> is_server h \<and>
    (if sub_phase (handshake_state h) \<in> {GreetingExchange, WaitingForPeerRevision, WaitingForGreeting}
     then avail h = inp \<and> security_mechanism h = MNull NullMechanism \<and> zmtp_manual_parser h = manual_new (cfg_max_msg_size cfg) \<and>
       (sub_phase (handshake_state h) = GreetingExchange \<longrightarrow> network_read_buffer h = [])
     else if sub_phase (handshake_state h) = SecurityHandshake
     then avail h = drop GREETING_LENGTH inp \<and> security_mechanism h = MNull NullMechanism \<and>
       zmtp_manual_parser h = manual_new (cfg_max_msg_size cfg)
     else sub_phase (handshake_state h) \<noteq> V2IdentityExchange \<and> plain_authenticated cfg inp)"

lemma plain_phase_signature:
  assumes "plain_phase cfg inp h" "sub_phase (handshake_state h) = GreetingExchange" "send_signature h = (h', Inr p)"
  shows "plain_phase cfg inp h'"
proof -
  from assms(3) obtain h1 where h1: "send_bytes ''g sig send'' (Some ''g sig flush'') (encode_signature [] @ [GREETING_VERSION_MAJOR_BYTE]) h = (h1, Inr ())"
      and h': "h' = set_sub_phase WaitingForPeerRevision ((activity h1)\<lparr>network_read_buffer := []\<rparr>)"
    by (auto simp: send_signature_def split: prod.splits sum.splits)
  note sound = conjunct1 [OF send_bytes_sound [OF h1]] send_bytes_sound [OF h1]
  have "avail ((activity h1)\<lparr>network_read_buffer := []\<rparr>) = avail h1"
    using sound(2) assms(1,2) by (simp add: plain_phase_def avail_def activity_def)
  then show ?thesis
    using assms(1,2) sound(2) unread_eqD [OF sound(1)] unfolding h' by (simp add: plain_phase_def activity_def)
qed

lemma plain_phase_revision:
  assumes "plain_phase cfg inp h" "plain_only cfg" "sub_phase (handshake_state h) = WaitingForPeerRevision"
    "wait_for_peer_revision h = (h', Inr p)"
  shows "plain_phase cfg inp h'"
proof -
  from assms(4) obtain h1 v where h1: "fill_buffer ''g peek read'' (now h + operation_timeout h) (SIGNATURE_LENGTH + 1) h = (h1, Inr v)"
      and v3: "write_v3_tail_and_advance h1 = (h', Inr p) \<or> write_v2_tail_and_advance h1 = (h', Inr p)"
    by (auto simp: wait_for_peer_revision_def read_peer_signature_and_peek_revision_def
        split: prod.splits sum.splits if_splits)
  note sound = fill_buffer_sound [OF h1] and un = unread_eqD [OF conjunct1 [OF fill_buffer_sound [OF h1]]]
  have "\<not> cfg_allow_zmtp2 (config h1)" using un assms(1,2) by (simp add: plain_only_def plain_phase_def)
  with v3 obtain h2 where h2: "send_bytes ''g v3 tail send'' (Some ''g v3 tail flush'')
        (encode_v3_tail_post_major (determine_own_greeting_mechanism h1) (is_server h1) []) h1 = (h2, Inr ())"
      and h': "h' = set_sub_phase WaitingForGreeting h2"
    by (auto simp: write_v2_tail_and_advance_def write_v3_tail_and_advance_def split: prod.splits sum.splits if_splits)
  note sound2 = send_bytes_sound [OF h2] and un2 = unread_eqD [OF conjunct1 [OF send_bytes_sound [OF h2]]]
  show ?thesis
    using assms(1,3) sound sound2 un un2 unfolding h' by (simp add: plain_phase_def)
qed

lemma plain_phase_greeting:
  assumes "plain_phase cfg inp h" "sub_phase (handshake_state h) = WaitingForGreeting" "receive_greeting h = (h', Inr p)"
  shows "plain_phase cfg inp h'"
proof -
  from assms(3) obtain h1 u where h1: "fill_buffer ''g read'' (now h + operation_timeout h) GREETING_LENGTH h = (h1, Inr u)"
    by (auto simp: receive_greeting_def split: prod.splits sum.splits)
  note sound = fill_buffer_sound [OF h1] and un = unread_eqD [OF conjunct1 [OF fill_buffer_sound [OF h1]]]
  obtain b r where gd: "greeting_decode (network_read_buffer h1) = (b, r)" by fastforce
  have b: "b = drop GREETING_LENGTH (network_read_buffer h1)"
    using gd sound by (simp add: greeting_decode_def Let_def)
  from assms(3) h1 gd obtain pg where "h' = set_sub_phase SecurityHandshake
      (h1\<lparr>network_read_buffer := b, negotiated_version := Some (V3 (snd (greeting_version pg))), pending_peer_greeting := Some pg\<rparr>)"
    by (auto simp: receive_greeting_def Let_def split: sum.splits option.splits if_splits)
  moreover have "avail (h1\<lparr>network_read_buffer := b, negotiated_version := x, pending_peer_greeting := y\<rparr>) = drop GREETING_LENGTH (avail h1)" for x y
    using conjunct2 [OF conjunct2 [OF conjunct2 [OF conjunct2 [OF sound]]]] by (simp add: avail_def b)
  ultimately show ?thesis using assms(1,2) sound un by (simp add: plain_phase_def)
qed

lemma plain_security_loop:
  assumes "security_loop (Suc n) X h = Returned (h', Inr p)"
    and "security_mechanism h = MPlain m" "pm_is_server m" "pm_state m = ServerExpectHello"
  shows "\<exists>h1 msg u q body. read_handshake_command_frame (now h + operation_timeout h) h = (h1, Inr msg) \<and>
    msg_payload msg = be_bytes 1 5 @ CMD_HELLO @ body \<and> parse_hello_body body = Inr (u, q) \<and>
    expected_username m = Some u \<and> expected_password m = Some q"
proof -
  have idle: "\<not> mech_is_complete (MPlain m)" "\<not> mech_is_error (MPlain m)" "mech_produce_token X (MPlain m) = Some (MPlain m, Inr None)"
    using assms(4) by (simp_all add: mech_is_complete_def mech_is_error_def plain_status_def plain_produce_token_def)
  have same: "h\<lparr>security_mechanism := MPlain m\<rparr> = h" using assms(2) by simp
  note turn = assms(1) [unfolded security_loop.simps(2) assms(2) if_not_P [OF idle(1)] if_not_P [OF idle(2)] idle(3)
      option.case prod.case sum.case same]
  obtain h1 r where r: "read_handshake_command_frame (now h + operation_timeout h) h = (h1, r)" by fastforce
  with turn obtain msg where msg: "r = Inr msg" by (cases r) auto
  have m1: "security_mechanism h1 = MPlain m"
    using read_command_sound [OF r [unfolded msg]] assms(2) unread_eqD(4) by metis
  obtain m' q where q: "plain_process_token m (msg_payload msg) = (m', q)" by fastforce
  from turn obtain a where a: "q = Inr a"
    by (cases q) (simp_all add: r msg m1 q)
  from plain_process_token_Inr [OF assms(3,4) q [unfolded a]] r msg show ?thesis by blast
qed

lemma plain_phase_security:
  assumes "plain_phase cfg inp h" "plain_only cfg" "sub_phase (handshake_state h) = SecurityHandshake"
    "perform_security_handshake_step X h = Returned (h', Inr p)"
  shows "plain_authenticated cfg inp"
proof -
  from assms obtain g m where m: "negotiate_security_mechanism X (is_server h) (config h) g = Inr m"
      and loop: "security_loop SECURITY_FUEL X (h\<lparr>security_mechanism := m\<rparr>) = Returned (h', Inr p)"
    by (auto simp: perform_security_handshake_step_def plain_phase_def split: option.splits sum.splits)
  have cfg: "config h = cfg" "is_server h" "avail h = drop GREETING_LENGTH inp"
      "zmtp_manual_parser h = manual_new (cfg_max_msg_size cfg)"
    using assms(1,3) by (simp_all add: plain_phase_def)
  from negotiate_enabled [OF m] assms(2) cfg obtain pm where pm: "m = MPlain pm"
    by (cases m) (auto simp: plain_only_def)
  with m cfg(2) have init: "initialize_plain True (config h) = Inr pm"
    by (auto simp: negotiate_security_mechanism_def KNOWN_MECHANISMS_def and_then_Inr_iff split: if_splits)
  then have "pm_is_server pm" "pm_state pm = ServerExpectHello" "expected_username pm = plain_username_for_engine cfg"
      "expected_password pm = plain_password_for_engine cfg"
    using cfg(1) by (auto simp: initialize_plain_def set_server_expected_credentials_def plain_new_def Let_def)
  moreover have "SECURITY_FUEL = Suc 7" by (simp add: SECURITY_FUEL_def)
  ultimately obtain h1 msg u q body where
      read: "read_handshake_command_frame (now h + operation_timeout (h\<lparr>security_mechanism := m\<rparr>)) (h\<lparr>security_mechanism := m\<rparr>) = (h1, Inr msg)"
      and body: "msg_payload msg = be_bytes 1 5 @ CMD_HELLO @ body" "parse_hello_body body = Inr (u, q)"
      "plain_username_for_engine cfg = Some u" "plain_password_for_engine cfg = Some q"
    using plain_security_loop [of 7 X "h\<lparr>security_mechanism := m\<rparr>" h' p pm] loop pm by auto
  from read_command_sound [OF read] body cfg show ?thesis
    unfolding plain_authenticated_def by (auto simp: avail_def)
qed

lemma plain_phase_later:
  assumes "plain_phase cfg inp h" "plain_authenticated cfg inp"
    and "config h' = config h \<and> is_server h' = is_server h \<and> sub_phase (handshake_state h') = ph"
    and "ph \<in> {ReadyExchange, ClientSentReady, ServerReceivedReady, HsDone}"
  shows "plain_phase cfg inp h'"
  using assms by (auto simp: plain_phase_def)

lemma plain_phase_step:
  assumes ph: "plain_phase cfg inp h" and "plain_only cfg" and step: "advance_handshake X h = Returned (h', Inr p)"
  shows "plain_phase cfg inp h'"
proof (cases "sub_phase (handshake_state h)")
  case GreetingExchange
  then show ?thesis using step plain_phase_signature [OF ph] by (simp add: advance_handshake_def)
next
  case WaitingForPeerRevision
  then show ?thesis using step plain_phase_revision [OF ph assms(2)] by (simp add: advance_handshake_def)
next
  case WaitingForGreeting
  then show ?thesis using step plain_phase_greeting [OF ph] by (simp add: advance_handshake_def)
next
  case SecurityHandshake
  then have "perform_security_handshake_step X h = Returned (h', Inr p)" using step by (simp add: advance_handshake_def)
  from plain_phase_later [OF ph plain_phase_security [OF ph assms(2) SecurityHandshake this] perform_security_result [OF this]]
  show ?thesis by simp
next
  case ReadyExchange
  then have auth: "plain_authenticated cfg inp" and "perform_ready_exchange_step X h = (h', Inr p)"
    using ph step by (simp_all add: plain_phase_def advance_handshake_def)
  from plain_phase_later [OF ph auth perform_ready_result [OF this(2)]] show ?thesis by simp
next
  case ClientSentReady
  then have auth: "plain_authenticated cfg inp" and "client_receive_peer_ready h = (h', Inr p)"
    using ph step by (simp_all add: plain_phase_def advance_handshake_def)
  from plain_phase_later [OF ph auth client_receive_result [OF this(2)]] show ?thesis by simp
next
  case ServerReceivedReady
  then have auth: "plain_authenticated cfg inp" and "server_send_ready X h = (h', Inr p)"
    using ph step by (simp_all add: plain_phase_def advance_handshake_def)
  from plain_phase_later [OF ph auth server_send_result [OF this(2)]] show ?thesis by simp
next
  case V2IdentityExchange
  then show ?thesis using ph by (simp add: plain_phase_def)
next
  case HsDone
  then show ?thesis using ph step by (simp add: advance_handshake_def)
qed

lemma plain_phase_run:
  "run_handshake n X h = Returned (h', Inr ()) \<Longrightarrow> plain_phase cfg inp h \<Longrightarrow> plain_only cfg \<Longrightarrow>
    plain_authenticated cfg inp"
proof (induction n arbitrary: h)
  case (Suc n)
  show ?case
  proof (cases "is_handshake_complete h")
    case True
    then show ?thesis using Suc.prems(2) by (simp add: is_handshake_complete_def plain_phase_def)
  next
    case False
    with Suc.prems(1) obtain h1 p where "advance_handshake X h = Returned (h1, Inr p)"
        "run_handshake n X h1 = Returned (h', Inr ())"
      by (auto split: run.splits prod.splits sum.splits)
    with Suc.IH [of h1] Suc.prems show ?thesis by (blast intro: plain_phase_step)
  qed
qed simp



section \<open>The handshake ends\<close>

text \<open>
  What snow documents of the pattern XX: it has three messages.  \<open>r\<close> counts the messages still to be
  written or read.
\<close>

definition snow_messages :: "('h, 't) snow \<Rightarrow> ('h \<Rightarrow> nat) \<Rightarrow> bool" where
  "snow_messages S r \<longleftrightarrow>
    (\<forall>h p n h' c. hs_write_message S h p n = (h', Inr c) \<longrightarrow> r h' < r h) \<and>
    (\<forall>h t n h' u. hs_read_message S h t n = (h', Inr u) \<longrightarrow> r h' < r h) \<and>
    (\<forall>sk h. build_responder S sk = Inr h \<longrightarrow> r h \<le> 3) \<and> (\<forall>sk pk h. build_initiator S sk pk = Inr h \<longrightarrow> r h \<le> 3)"

lemma snow_messagesD:
  "snow_messages S r \<Longrightarrow> hs_write_message S h p n = (h', Inr c) \<Longrightarrow> r h' < r h"
  "snow_messages S r \<Longrightarrow> hs_read_message S h p n = (h', Inr u) \<Longrightarrow> r h' < r h"
  "snow_messages S r \<Longrightarrow> build_responder S sk = Inr h \<Longrightarrow> r h \<le> 3"
  "snow_messages S r \<Longrightarrow> build_initiator S sk pk = Inr h \<Longrightarrow> r h \<le> 3"
  unfolding snow_messages_def by blast+

definition noise_rank :: "('h \<Rightarrow> nat) \<Rightarrow> ('h, 't) NoiseXxMechanism \<Rightarrow> nat" where
  "noise_rank r m = 2 * (case noise_state m of None \<Rightarrow> 0 | Some h \<Rightarrow> r h) +
    (case pending_outgoing_handshake_msg m of None \<Rightarrow> 0 | Some _ \<Rightarrow> 1)"

fun mech_rank :: "('h \<Rightarrow> nat) \<Rightarrow> ('h, 't) Mechanism \<Rightarrow> nat" where
  "mech_rank r (MNull m) = 0"
| "mech_rank r (MPlain m) = plain_rank m"
| "mech_rank r (MCurve m) = curve_rank m"
| "mech_rank r (MNoise m) = noise_rank r m"

lemma transition_rank:
  "transition_to_final_state S m = (m', Inr u) \<Longrightarrow> noise_rank r m' \<le> noise_rank r (m\<lparr>noise_state := None\<rparr>)"
  by (auto simp: transition_to_final_state_def verify_peer_key_def noise_fail_def noise_rank_def Let_def
      split: option.splits if_splits sum.splits)

lemma noise_write_rank:
  assumes "snow_messages S r" "noise_write_token S m = (m', Inr x)"
  shows "case x of None \<Rightarrow> m' = m | Some _ \<Rightarrow> noise_rank r m' < noise_rank r m"
  using assms(2)
proof (cases "noise_state m")
  case (Some h)
  obtain h1 q where w: "hs_write_message S h [] 1024 = (h1, q)" by fastforce
  then have lt: "q = Inr c \<Longrightarrow> r h1 < r h" for c using snow_messagesD(1) [OF assms(1)] by blast
  show ?thesis
    using assms(2) Some w lt transition_rank [of S "m\<lparr>noise_state := Some h1\<rparr>" m' _ r]
    by (auto simp: noise_write_token_def noise_rank_def Let_def split: if_splits sum.splits prod.splits option.splits)
qed (simp add: noise_write_token_def)

lemma noise_produce_rank:
  assumes "snow_messages S r" "noise_produce_token S m = (m', Inr x)"
  shows "noise_rank r m' \<le> noise_rank r m" "x = Some t \<Longrightarrow> noise_rank r m' < noise_rank r m"
proof -
  have fresh: "noise_rank r (m\<lparr>noise_status := StHandshaking\<rparr>) = noise_rank r m" by (simp add: noise_rank_def)
  have drop_state: "noise_rank r (m\<lparr>pending_outgoing_handshake_msg := None, noise_state := None\<rparr>) = 0"
    by (simp add: noise_rank_def)
  have "noise_rank r m' \<le> noise_rank r m \<and> (x \<noteq> None \<longrightarrow> noise_rank r m' < noise_rank r m)"
  proof (cases "pending_outgoing_handshake_msg m")
    case None
    then show ?thesis
      using assms(2) noise_write_rank [OF assms(1), of m m' x] noise_write_rank [OF assms(1), of "m\<lparr>noise_status := StHandshaking\<rparr>" m' x] fresh
      by (cases x) (auto simp: noise_produce_token_def Let_def noise_rank_def split: if_splits)
  next
    case (Some t)
    then have "0 < noise_rank r m" by (simp add: noise_rank_def)
    then show ?thesis
      using assms(2) Some transition_rank [of S "m\<lparr>pending_outgoing_handshake_msg := None\<rparr>" m' _ r] drop_state
      by (auto simp: noise_produce_token_def Let_def noise_rank_def split: if_splits prod.splits sum.splits option.splits)
  qed
  then show "noise_rank r m' \<le> noise_rank r m" "x = Some t \<Longrightarrow> noise_rank r m' < noise_rank r m" by auto
qed

lemma noise_process_rank:
  assumes "snow_messages S r" "noise_process_token S m t = (m', Inr a)"
  shows "noise_rank r m' < noise_rank r m"
proof -
  from assms(2) obtain h where h: "noise_state m = Some h"
    by (auto simp: noise_process_token_def Let_def split: if_splits option.splits)
  obtain h1 q where w: "hs_read_message S h t 1024 = (h1, q)" by fastforce
  obtain h2 q2 where w2: "hs_write_message S h1 [] 1024 = (h2, q2)" by fastforce
  have lt: "q = Inr () \<Longrightarrow> r h1 < r h" "\<And>c. q2 = Inr c \<Longrightarrow> r h2 < r h1"
    using snow_messagesD(1,2) [OF assms(1)] w w2 by blast+
  show ?thesis
    using assms(2) h w w2 lt transition_rank [of S "m\<lparr>noise_state := Some h1\<rparr>" m' _ r]
      transition_rank [of S "m\<lparr>noise_status := StHandshaking, noise_state := Some h1\<rparr>" m' _ r]
    by (auto simp: noise_process_token_def noise_rank_def Let_def split: if_splits sum.splits prod.splits option.splits)
qed

lemma mech_produce_rank:
  assumes "snow_messages (env_snow X) r" "mech_produce_token X m = Some (m', Inr x)"
  shows "mech_rank r m' \<le> mech_rank r m" "x = Some t \<Longrightarrow> mech_rank r m' < mech_rank r m"
proof -
  have "mech_rank r m' \<le> mech_rank r m \<and> (\<forall>t. x = Some t \<longrightarrow> mech_rank r m' < mech_rank r m)"
  proof (cases m)
    case (MNull n)
    then show ?thesis using assms(2) by (auto simp: null_produce_token_def)
  next
    case (MPlain p)
    obtain p' where p': "plain_produce_token p = (p', Inr x)" "m' = MPlain p'" using assms(2) MPlain by (auto simp: apfst_def map_prod_def split: prod.splits)
    then show ?thesis using MPlain plain.produced [of p p'] plain.idle [OF p'(1)] by (cases x) (auto simp: less_imp_le)
  next
    case (MCurve c)
    then obtain c' where "curve_produce_token (env_dryoc X) c = Some (c', Inr x)" "m' = MCurve c'"
      using assms(2) by (auto simp: apfst_def map_prod_def split: prod.splits)
    then have p': "curve_produce_step (env_dryoc X) c = (c', Inr x)" "m' = MCurve c'" by (simp_all add: curve_produce_step_def)
    then show ?thesis
      using MCurve curve.produced [of "env_dryoc X" c c'] curve.idle [OF p'(1)] by (cases x) (auto simp: less_imp_le)
  next
    case (MNoise n)
    then obtain n' where "noise_produce_token (env_snow X) n = (n', Inr x)" "m' = MNoise n'"
      using assms(2) by (auto simp: apfst_def map_prod_def split: prod.splits)
    then show ?thesis using MNoise noise_produce_rank [OF assms(1)] by auto
  qed
  then show "mech_rank r m' \<le> mech_rank r m" "x = Some t \<Longrightarrow> mech_rank r m' < mech_rank r m" by auto
qed

lemma mech_process_rank:
  assumes "snow_messages (env_snow X) r" "mech_process_token X m t = Some (m', Inr a)" "\<not> mech_is_complete m"
  shows "mech_rank r m' < mech_rank r m"
proof (cases m)
  case (MNull n)
  then show ?thesis using assms(3) by (simp add: mech_is_complete_def null_status_def)
next
  case (MPlain p)
  then obtain p' where "plain_process_token p t = (p', Inr a)" "m' = MPlain p'"
    using assms(2) by (auto simp: apfst_def map_prod_def split: prod.splits)
  then show ?thesis using MPlain plain.accepted by auto
next
  case (MCurve c)
  then obtain c' where "curve_process_token (env_dryoc X) c t = Some (c', Inr a)" "m' = MCurve c'"
    using assms(2) by (auto simp: apfst_def map_prod_def split: prod.splits)
  then have "curve_process_step (env_dryoc X) c t = (c', Inr a)" "m' = MCurve c'" by (simp_all add: curve_process_step_def)
  then show ?thesis using MCurve curve.accepted by auto
next
  case (MNoise n)
  then obtain n' where "noise_process_token (env_snow X) n t = (n', Inr a)" "m' = MNoise n'"
    using assms(2) by (auto simp: apfst_def map_prod_def split: prod.splits)
  then show ?thesis using MNoise noise_process_rank [OF assms(1)] by auto
qed

lemma mech_kind:
  "mech_produce_token X m = Some (m', x) \<Longrightarrow> mech_name m' = mech_name m"
  "mech_process_token X m t = Some (m', y) \<Longrightarrow> mech_name m' = mech_name m"
  by (cases m; auto simp: apfst_def map_prod_def split: prod.splits)+

lemma mech_panic:
  "mech_produce_token X m = None \<Longrightarrow> mech_name m = ''CURVE''" "mech_process_token X m t = None \<Longrightarrow> mech_name m = ''CURVE''"
  by (cases m; simp)+

definition ends_well :: "bool \<Rightarrow> 'a run \<Rightarrow> bool" where
  "ends_well may_panic x \<longleftrightarrow> x \<noteq> Spinning \<and> (x = Panicked \<longrightarrow> may_panic)"

lemma ends_well_simps [simp]: "ends_well b (Returned y)" "ends_well b Panicked = b" "\<not> ends_well b Spinning"
  by (simp_all add: ends_well_def)

lemma send_command_mech:
  "send_handshake_command_frame c (h\<lparr>security_mechanism := m\<rparr>) = (h', r) \<Longrightarrow> security_mechanism h' = m"
  using unread_eqD(4) [OF conjunct1 [OF send_command_sound]] by fastforce

lemma read_command_mech:
  "read_handshake_command_frame dl (h\<lparr>security_mechanism := m\<rparr>) = (h', Inr c) \<Longrightarrow> security_mechanism h' = m"
  using unread_eqD(4) [OF conjunct1 [OF read_command_sound]] by fastforce

lemma mech_idle_incomplete:
  "mech_produce_token X m = Some (m', Inr None) \<Longrightarrow> \<not> mech_is_complete m \<Longrightarrow> \<not> mech_is_complete m'"
  by (cases m)
    (auto simp: mech_is_complete_def null_produce_token_def plain_produce_token_def curve_produce_token_def
      noise_produce_token_def noise_write_token_def plain_status_def apfst_def map_prod_def Let_def
      split: prod.splits option.splits if_splits PlainState.splits CurveHandshakePhase.splits sum.splits)

text \<open>The part of the loop that follows a received token.\<close>

lemma security_reply_ends:
  assumes S: "snow_messages (env_snow X) r" and nc: "\<not> mech_is_complete m1"
    and le: "mech_rank r m1 \<le> mech_rank r m0" and k1: "mech_name m1 = mech_name m0"
    and again: "\<And>h'. mech_rank r (security_mechanism h') < mech_rank r m0 \<Longrightarrow> mech_name (security_mechanism h') = mech_name m0 \<Longrightarrow>
      ends_well (mech_name m0 = ''CURVE'') (security_loop n X h')"
  shows "ends_well (mech_name m0 = ''CURVE'')
    (case mech_process_token X m1 token of
       None \<Rightarrow> Panicked
     | Some (m, Inl e) \<Rightarrow> Returned (h\<lparr>security_mechanism := m\<rparr>, Inl e)
     | Some (m, Inr ContinueWaiting) \<Rightarrow> security_loop n X (h\<lparr>security_mechanism := m\<rparr>)
     | Some (m, Inr HandshakeComplete) \<Rightarrow> security_loop n X (h\<lparr>security_mechanism := m\<rparr>)
     | Some (m, Inr ProduceAndSend) \<Rightarrow>
         (case mech_produce_token X m of
            None \<Rightarrow> Panicked
          | Some (m, Inl e) \<Rightarrow> Returned (h\<lparr>security_mechanism := m\<rparr>, Inl e)
          | Some (m, Inr None) \<Rightarrow> Returned (h\<lparr>security_mechanism := m\<rparr>, Inl Internal)
          | Some (m, Inr (Some token_to_send)) \<Rightarrow>
              (case send_handshake_command_frame (msg_from_vec token_to_send) (h\<lparr>security_mechanism := m\<rparr>) of
                 (h, Inl e) \<Rightarrow> Returned (h, Inl e)
               | (h, Inr _) \<Rightarrow> security_loop n X h)))"
proof (cases "mech_process_token X m1 token")
  case None
  then show ?thesis using mech_panic(2) [OF None] k1 by simp
next
  case (Some y)
  obtain m2 q where y: "y = (m2, q)" by (cases y)
  have k2: "mech_name m2 = mech_name m0" using mech_kind(2) [OF Some [unfolded y]] k1 by simp
  show ?thesis
  proof (cases q)
    case (Inl e)
    then show ?thesis using Some y by simp
  next
    case (Inr a)
    have lt: "mech_rank r m2 < mech_rank r m0" using mech_process_rank [OF S Some [unfolded y Inr] nc] le by simp
    show ?thesis
    proof (cases "a = ProduceAndSend")
      case False
      then show ?thesis using Some y Inr again [of "h\<lparr>security_mechanism := m2\<rparr>"] lt k2 by (cases a) simp_all
    next
      case True
      show ?thesis
      proof (cases "mech_produce_token X m2")
        case None
        then show ?thesis using Some y Inr True mech_panic(1) [OF None] k2 by simp
      next
        case (Some z)
        obtain m3 w where z: "z = (m3, w)" by (cases z)
        have k3: "mech_name m3 = mech_name m0" using mech_kind(1) [OF Some [unfolded z]] k2 by simp
        show ?thesis
          using \<open>mech_process_token X m1 token = Some y\<close> y Inr True Some z k3 lt mech_produce_rank(1) [OF S, of m2 m3]
          by (auto split: sum.split option.split prod.split dest!: send_command_mech intro!: again)
      qed
    qed
  qed
qed

lemma security_loop_ends:
  assumes S: "snow_messages (env_snow X) r"
  shows "mech_rank r (security_mechanism h) < n \<Longrightarrow> ends_well (mech_name (security_mechanism h) = ''CURVE'') (security_loop n X h)"
proof (induction n arbitrary: h)
  case (Suc n)
  let ?m = "security_mechanism h"
  have again: "ends_well (mech_name ?m = ''CURVE'') (security_loop n X h')"
    if "mech_rank r (security_mechanism h') < mech_rank r ?m" "mech_name (security_mechanism h') = mech_name ?m" for h'
    using Suc.IH [of h'] Suc.prems that by simp
  show ?case
  proof (cases "mech_is_complete ?m \<or> mech_is_error ?m")
    case True
    then show ?thesis by (auto split: sum.split prod.split)
  next
    case False
    note go = security_loop.simps(2) [of n X h] if_not_P [OF conjunct1 [OF False [unfolded de_Morgan_disj]]]
      if_not_P [OF conjunct2 [OF False [unfolded de_Morgan_disj]]]
    show ?thesis
    proof (cases "mech_produce_token X ?m")
      case None
      then show ?thesis unfolding go using mech_panic(1) [OF None] by simp
    next
      case (Some y)
      then obtain m1 q where p: "mech_produce_token X ?m = Some (m1, q)" by (cases y) auto
      have k1: "mech_name m1 = mech_name ?m" by (rule mech_kind(1) [OF p])
      consider (fail) e where "q = Inl e" | (send) t where "q = Inr (Some t)" | (wait) "q = Inr None"
        by (metis old.sum.exhaust option.exhaust)
      then show ?thesis
      proof cases
        case fail
        then show ?thesis unfolding go p by simp
      next
        case (send t)
        have "mech_rank r m1 < mech_rank r ?m" using mech_produce_rank(2) [OF S p [unfolded send] refl] .
        then show ?thesis
          unfolding go p send using k1 by (auto split: prod.split sum.split dest!: send_command_mech intro: again)
      next
        case wait
        have le: "mech_rank r m1 \<le> mech_rank r ?m" using mech_produce_rank(1) [OF S p [unfolded wait]] .
        have nc: "\<not> mech_is_complete m1" using mech_idle_incomplete [OF p [unfolded wait]] False by blast
        show ?thesis
        proof (cases "read_handshake_command_frame (now h + operation_timeout h) (h\<lparr>security_mechanism := m1\<rparr>)")
          case (Pair h1 c)
          show ?thesis
          proof (cases c)
            case (Inl e)
            then show ?thesis unfolding go p wait using Pair by simp
          next
            case (Inr msg)
            have m1: "security_mechanism h1 = m1" using Pair Inr by (auto dest: read_command_mech)
            show ?thesis
              unfolding go p wait
              using Pair Inr m1 security_reply_ends [OF S nc le k1 again] by simp
          qed
        qed
      qed
    qed
  qed
qed simp

lemma negotiated_rank:
  assumes "snow_messages (env_snow X) r" "negotiate_security_mechanism X srv cfg g = Inr m"
  shows "mech_rank r m \<le> 6"
proof (cases m)
  case (MPlain p)
  then show ?thesis by (simp add: plain_rank_def split: PlainState.split)
next
  case (MCurve c)
  then show ?thesis by (simp add: curve_rank_def split: CurveHandshakePhase.split)
next
  case (MNoise n)
  then obtain sk where "noise_new (env_snow X) srv sk (noise_xx_remote_pk_bytes_for_engine cfg) = Inr n"
    using assms(2)
    by (auto simp: negotiate_security_mechanism_def KNOWN_MECHANISMS_def initialize_noise_xx_def and_then_Inr_iff
        split: if_splits)
  then obtain h where "noise_state n = Some h" "r h \<le> 3" "pending_outgoing_handshake_msg n = None"
    using snow_messagesD(3,4) [OF assms(1)]
    by (auto simp: noise_new_def and_then_Inr_iff from_snow_def split: if_splits option.splits sum.splits)
  then show ?thesis using MNoise by (simp add: noise_rank_def)
qed simp

lemma perform_security_ends:
  assumes "snow_messages (env_snow X) r" "security_mechanism h = MNull NullMechanism"
  shows "ends_well (use_curve (config h)) (perform_security_handshake_step X h)"
proof (cases "pending_peer_greeting h")
  case (Some g)
  show ?thesis
  proof (cases "negotiate_security_mechanism X (is_server h) (config h) g")
    case (Inr m)
    have "mech_rank r m < SECURITY_FUEL" using negotiated_rank [OF assms(1) Inr] by (simp add: SECURITY_FUEL_def)
    then have "ends_well (mech_name m = ''CURVE'') (security_loop SECURITY_FUEL X (h\<lparr>security_mechanism := m\<rparr>))"
      using security_loop_ends [OF assms(1), of "h\<lparr>security_mechanism := m\<rparr>"] by simp
    moreover have "mech_name m = ''CURVE'' \<Longrightarrow> use_curve (config h)" using negotiate_enabled [OF Inr] by (cases m) auto
    ultimately show ?thesis
      using Some Inr assms(2) by (auto simp: perform_security_handshake_step_def ends_well_def)
  qed (use Some assms(2) in \<open>simp add: perform_security_handshake_step_def\<close>)
qed (use assms(2) in \<open>simp add: perform_security_handshake_step_def\<close>)

fun phase_rank :: "HandshakeSubPhaseX \<Rightarrow> nat" where
  "phase_rank GreetingExchange = 6"
| "phase_rank WaitingForPeerRevision = 5"
| "phase_rank WaitingForGreeting = 4"
| "phase_rank SecurityHandshake = 3"
| "phase_rank ReadyExchange = 2"
| "phase_rank ClientSentReady = 1"
| "phase_rank ServerReceivedReady = 1"
| "phase_rank V2IdentityExchange = 1"
| "phase_rank HsDone = 0"

lemma read_v2_sound:
  "read_v2_identity_frame dl h = (h', Inr b) \<Longrightarrow> unread h' = unread h"
proof (induction dl h rule: read_v2_identity_frame.induct)
  case (1 dl h)
  obtain h1 q where d: "(if network_read_buffer h \<noteq> [] then decode_handshake h else (h, Inr None)) = (h1, q)" by fastforce
  have h1: "unread h1 = unread h" using d by (auto simp: decode_handshake_def split: if_splits prod.splits)
  show ?case
  proof (cases "q = Inr None \<and> dl - now h1 \<noteq> 0 \<and> stream h1 \<noteq> None")
    case True
    then obtain n where n: "stream h1 = Some n" by auto
    obtain c n' x where x: "timed_read_buf ''v2 identity read'' dl (now h1) n = (c, n', x)" by (metis prod_cases3)
    with "1.prems" d True n obtain bs where bs: "x = Inr bs" "bs \<noteq> []"
      by (cases x) (auto simp: read_v2_identity_frame.simps [of dl h] Let_def split: if_splits)
    let ?h = "activity (h1\<lparr>stream := Some n', now := c, network_read_buffer := network_read_buffer h1 @ bs\<rparr>)"
    have "read_v2_identity_frame dl h = read_v2_identity_frame dl ?h"
      using d True n x bs by (simp add: read_v2_identity_frame.simps [of dl h] Let_def)
    then show ?thesis
      using "1.IH" [OF d [symmetric] _ refl _ n x [symmetric] refl bs(1) refl bs(2)] True "1.prems" h1 by simp
  next
    case False
    then show ?thesis
      using "1.prems" d h1
      by (auto simp: read_v2_identity_frame.simps [of dl h] split: sum.splits option.splits if_splits)
  qed
qed

text \<open>Reading and writing touch neither the configuration nor the mechanism.\<close>

lemma kept:
  "fill_buffer ep dl k h = (h', Inr u) \<Longrightarrow> config h' = config h \<and> security_mechanism h' = security_mechanism h"
  "send_bytes ep fl bs h = (h', r) \<Longrightarrow> config h' = config h \<and> security_mechanism h' = security_mechanism h"
  "send_handshake_command_frame c h = (h', r) \<Longrightarrow> config h' = config h \<and> security_mechanism h' = security_mechanism h"
  "read_handshake_command_frame dl h = (h', Inr m) \<Longrightarrow> config h' = config h \<and> security_mechanism h' = security_mechanism h"
  "read_v2_identity_frame dl h = (h', Inr b) \<Longrightarrow> config h' = config h \<and> security_mechanism h' = security_mechanism h"
  using fill_buffer_sound send_bytes_sound send_command_sound read_command_sound read_v2_sound unread_eqD(1,4) by metis+

lemma exchange_v2_result:
  assumes "exchange_v2_identity h = (h', Inr p)"
  shows "sub_phase (handshake_state h') = HsDone \<and> security_mechanism h' = security_mechanism h \<and> config h' = config h"
  using assms
  by (auto simp: exchange_v2_identity_def consume_peer_v2_greeting_def send_empty_identity_frame_v2_def set_sub_phase_def
      activity_def Let_def split: prod.splits sum.splits option.splits if_splits
      dest!: kept)

lemma run_handshake_complete: "run_handshake n X h = Returned (h', Inr u) \<Longrightarrow> is_handshake_complete h'"
proof (induction n arbitrary: h)
  case (Suc n)
  then show ?case by (auto split: if_splits run.splits prod.splits sum.splits)
qed simp

lemma security_loop_clears:
  "security_loop n X h = Returned (h', Inr p) \<Longrightarrow> security_mechanism h' = MNull NullMechanism"
proof (induction n arbitrary: h)
  case (Suc n)
  then show ?case
    by (auto simp: set_sub_phase_def split: if_splits option.splits sum.splits prod.splits ProcessTokenAction.splits)
qed simp

text \<open>A successful step leaves the session without a mechanism in progress and closer to the end.\<close>

lemma advance_decreases:
  assumes "advance_handshake X h = Returned (h', Inr p)" "security_mechanism h = MNull NullMechanism" "\<not> is_handshake_complete h"
  shows "phase_rank (sub_phase (handshake_state h')) < phase_rank (sub_phase (handshake_state h)) \<and>
    security_mechanism h' = MNull NullMechanism \<and> config h' = config h"
proof (cases "sub_phase (handshake_state h)")
  case GreetingExchange
  then show ?thesis
    using assms by (auto simp: advance_handshake_def send_signature_def set_sub_phase_def activity_def split: prod.splits sum.splits
        dest!: kept)
next
  case WaitingForPeerRevision
  then show ?thesis
    using assms by (auto simp: advance_handshake_def wait_for_peer_revision_def read_peer_signature_and_peek_revision_def
        write_v2_tail_and_advance_def write_v3_tail_and_advance_def set_sub_phase_def
        split: prod.splits sum.splits if_splits option.splits dest!: kept)
next
  case WaitingForGreeting
  then show ?thesis
    using assms by (auto simp: advance_handshake_def receive_greeting_def set_sub_phase_def Let_def
        split: prod.splits sum.splits if_splits option.splits dest!: kept)
next
  case SecurityHandshake
  then have step: "perform_security_handshake_step X h = Returned (h', Inr p)" using assms(1) by (simp add: advance_handshake_def)
  then have "security_mechanism h' = MNull NullMechanism"
    by (auto simp: perform_security_handshake_step_def split: if_splits option.splits sum.splits dest: security_loop_clears)
  then show ?thesis using perform_security_result [OF step] SecurityHandshake by simp
next
  case ReadyExchange
  then have step: "perform_ready_exchange_step X h = (h', Inr p)" using assms(1) by (simp add: advance_handshake_def)
  then have "security_mechanism h' = security_mechanism h"
    by (auto simp: perform_ready_exchange_step_def record_peer_socket_type_def Let_def
        split: if_splits prod.splits sum.splits option.splits ZmtpCommand.splits
        dest!: kept)
  then show ?thesis using perform_ready_result [OF step] ReadyExchange assms(2) by simp
next
  case ClientSentReady
  then have step: "client_receive_peer_ready h = (h', Inr p)" using assms(1) by (simp add: advance_handshake_def)
  then have "security_mechanism h' = security_mechanism h"
    by (auto simp: client_receive_peer_ready_def record_peer_socket_type_def
        split: prod.splits sum.splits option.splits ZmtpCommand.splits if_splits dest!: kept)
  then show ?thesis using client_receive_result [OF step] ClientSentReady assms(2) by simp
next
  case ServerReceivedReady
  then have step: "server_send_ready X h = (h', Inr p)" using assms(1) by (simp add: advance_handshake_def)
  then have "security_mechanism h' = security_mechanism h"
    by (auto simp: server_send_ready_def Let_def split: prod.splits sum.splits dest!: kept)
  then show ?thesis using server_send_result [OF step] ServerReceivedReady assms(2) by simp
next
  case V2IdentityExchange
  then have "exchange_v2_identity h = (h', Inr p)" using assms(1) by (simp add: advance_handshake_def)
  then show ?thesis using exchange_v2_result V2IdentityExchange assms(2) by fastforce
next
  case HsDone
  then show ?thesis using assms(3) by (simp add: is_handshake_complete_def)
qed

lemma run_handshake_ends:
  assumes "snow_messages (env_snow X) r"
  shows "phase_rank (sub_phase (handshake_state h)) < n \<Longrightarrow> security_mechanism h = MNull NullMechanism \<Longrightarrow>
    ends_well (use_curve (config h)) (run_handshake n X h)"
proof (induction n arbitrary: h)
  case (Suc n)
  have step: "ends_well (use_curve (config h)) (advance_handshake X h)"
    using perform_security_ends [OF assms Suc.prems(2)] by (simp add: advance_handshake_def split: HandshakeSubPhaseX.split)
  show ?case
  proof (cases "is_handshake_complete h")
    case False
    show ?thesis
    proof (cases "advance_handshake X h")
      case (Returned x)
      then obtain h' q where x: "advance_handshake X h = Returned (h', q)" by (cases x) auto
      show ?thesis
      proof (cases q)
        case (Inr p)
        note less = advance_decreases [OF x [unfolded Inr] Suc.prems(2) False]
        then have "ends_well (use_curve (config h')) (run_handshake n X h')" using Suc.IH [of h'] Suc.prems(1) by simp
        then show ?thesis using False x Inr less by simp
      qed (use False x in simp)
    qed (use step False in simp_all)
  qed simp
qed simp



end
