(* ===== verification/Session_Interop.thy ===== *)
theory Session_Interop
  imports Session_Security
begin

text \<open>
  Two peers complete the handshake: what one side writes is what the other side needs, in whatever chunks
  the stream delivers it.
\<close>

section \<open>Reads that succeed\<close>

text \<open>The stream is intact and everything still to come arrives before the deadline.\<close>

definition on_time :: "nat \<Rightarrow> ('h, 't) ZmtpProtocolHandlerX \<Rightarrow> bool" where
  "on_time dl h \<longleftrightarrow> (\<exists>n. stream h = Some n \<and> write_results n = [] \<and> now h < dl \<and>
    (\<forall>(t, r) \<in> set (rx n). t < dl \<and> (\<exists>b bs. r = Inr (b # bs))))"

definition timely :: "('h, 't) ZmtpProtocolHandlerX \<Rightarrow> bool" where
  "timely h \<longleftrightarrow> on_time (now h + operation_timeout h) h"

lemma on_time_read:
  assumes "on_time dl h" "stream h = Some n" "rx n \<noteq> []"
  shows "\<exists>c n' bs. timed_read_buf ep dl (now h) n = (c, n', Inr bs) \<and> bs \<noteq> [] \<and> c < dl \<and> now h \<le> c \<and>
    write_results n' = [] \<and> (\<forall>(t, r) \<in> set (rx n'). t < dl \<and> (\<exists>b bs. r = Inr (b # bs)))"
proof -
  obtain t r rest where rx: "rx n = (t, r) # rest" using assms(3) by (cases "rx n") auto
  with assms(1,2) obtain b bs where "r = Inr (b # bs)" "t < dl" by (auto simp: on_time_def)
  with rx assms(1,2) show ?thesis by (auto simp: on_time_def timed_read_buf_def)
qed

lemma fill_buffer_complete:
  "on_time dl h \<Longrightarrow> k \<le> length (avail h) \<Longrightarrow>
    \<exists>h'. fill_buffer ep dl k h = (h', Inr ()) \<and> on_time dl h' \<and> now h \<le> now h'"
proof (induction ep dl k h rule: fill_buffer.induct)
  case (1 ep dl k h)
  obtain n where n: "stream h = Some n" using "1.prems"(1) by (auto simp: on_time_def)
  show ?case
  proof (cases "k \<le> length (network_read_buffer h)")
    case True
    then show ?thesis using n "1.prems" by (auto simp: fill_buffer.simps [of ep dl k h])
  next
    case False
    have late: "\<not> dl - now h = 0" using "1.prems"(1) by (auto simp: on_time_def)
    have "rx n \<noteq> []" using False "1.prems"(2) n by (auto simp: avail_def)
    from on_time_read [OF "1.prems"(1) n this, of ep] obtain c n' bs where
      q: "timed_read_buf ep dl (now h) n = (c, n', Inr bs)" "bs \<noteq> []" "c < dl" "now h \<le> c"
        "write_results n' = []" "\<forall>(t, r) \<in> set (rx n'). t < dl \<and> (\<exists>b bs. r = Inr (b # bs))"
      by blast
    let ?h = "activity (h\<lparr>stream := Some n', now := c, network_read_buffer := network_read_buffer h @ bs\<rparr>)"
    have "on_time dl ?h" using q by (auto simp: on_time_def)
    moreover have "avail ?h = avail h" using timed_read_buf_data [OF q(1,2)] n by (simp add: avail_def)
    moreover have "fill_buffer ep dl k h = fill_buffer ep dl k ?h"
      using n False late q by (simp add: fill_buffer.simps [of ep dl k h])
    ultimately show ?thesis
      using "1.IH" [OF n False late q(1) [symmetric] refl refl refl q(2)] "1.prems"(2) q(4) by auto
  qed
qed

text \<open>A parser that waits for more has nothing to deliver from an empty buffer.\<close>

lemma decode_waiting:
  "decode_from_buffer p b = (p', b', Inr None) \<Longrightarrow> \<exists>q. decode_from_buffer p' [] = (q, [], Inr None)"
  by (auto simp: manual_defs frame_header_def split: ManualDecodingState.splits option.splits if_splits)

lemma read_command_complete:
  "on_time dl h \<Longrightarrow> decode_from_buffer (zmtp_manual_parser h) (avail h) = (p', b', Inr (Some msg)) \<Longrightarrow> is_command msg \<Longrightarrow>
    \<exists>q. decode_from_buffer (zmtp_manual_parser h) [] = (q, [], Inr None) \<Longrightarrow>
    \<exists>h'. read_handshake_command_frame dl h = (h', Inr msg) \<and> on_time dl h' \<and> now h \<le> now h'"
proof (induction dl h rule: read_handshake_command_frame.induct)
  case (1 dl h)
  obtain n where n: "stream h = Some n" using "1.prems"(1) by (auto simp: on_time_def)
  obtain h1 r where d: "(if network_read_buffer h \<noteq> [] then decode_handshake h else (h, Inr None)) = (h1, r)" by fastforce
  have h1: "stream h1 = Some n" "now h1 = now h"
    using d n by (auto simp: decode_handshake_def split: if_splits prod.splits)
  then have ot: "on_time dl h1" using "1.prems"(1) n by (auto simp: on_time_def)
  let ?more = "case stream h of None \<Rightarrow> [] | Some n \<Rightarrow> data_of (rx n)"
  have dec: "decode_from_buffer (zmtp_manual_parser h) (network_read_buffer h) = (zmtp_manual_parser h1, network_read_buffer h1, r)"
    if "network_read_buffer h \<noteq> []"
    using d that by (auto simp: decode_handshake_def split: prod.splits)
  show ?case
  proof (cases "\<exists>m. r = Inr (Some m)")
    case True
    then obtain m where r: "r = Inr (Some m)" by blast
    then have "network_read_buffer h \<noteq> []" using d by (auto split: if_splits)
    from manual.dec_item [OF dec [OF this, unfolded r], of ?more] "1.prems"(2) have "m = msg" by (simp add: avail_def)
    moreover have "on_time dl (activity h1)" using ot by (simp add: on_time_def)
    ultimately show ?thesis using n d r "1.prems"(3) h1 by (simp add: read_turn [OF n])
  next
    case False
    have r: "r = Inr None"
    proof (cases "network_read_buffer h = []")
      case False
      with dec \<open>\<not> (\<exists>m. r = Inr (Some m))\<close> manual.dec_error [of "zmtp_manual_parser h" "network_read_buffer h" _ _ _ ?more] "1.prems"(2)
      show ?thesis by (cases r) (auto simp: avail_def split: option.splits)
    qed (use d in simp)
    have late: "\<not> dl - now h1 = 0" using ot by (auto simp: on_time_def)
    have same: "decode_from_buffer (zmtp_manual_parser h1) (network_read_buffer h1 @ ?more) =
        decode_from_buffer (zmtp_manual_parser h) (avail h)"
      using dec [unfolded r] manual.dec_more [of "zmtp_manual_parser h" "network_read_buffer h"] d
      by (cases "network_read_buffer h = []") (auto simp: avail_def)
    have wait: "\<exists>q. decode_from_buffer (zmtp_manual_parser h1) [] = (q, [], Inr None)"
      using dec [unfolded r] d "1.prems"(4) decode_waiting by (cases "network_read_buffer h = []") auto
    have "rx n \<noteq> []"
    proof
      assume "rx n = []"
      then have "decode_from_buffer (zmtp_manual_parser h1) (network_read_buffer h1) = (p', b', Inr (Some msg))"
        using same "1.prems"(2) n by simp
      moreover have "\<exists>q. decode_from_buffer (zmtp_manual_parser h1) (network_read_buffer h1) = (q, network_read_buffer h1, Inr None)"
      proof (cases "network_read_buffer h = []")
        case True
        then show ?thesis using wait d by auto
      next
        case False
        from manual.dec_more [OF dec [OF False, unfolded r], of "[]"] dec [OF False] r show ?thesis by (metis append_Nil2)
      qed
      ultimately show False by auto
    qed
    from on_time_read [OF ot h1(1) this, of "''handshake command read''"] obtain c n' bs where
      q: "timed_read_buf ''handshake command read'' dl (now h1) n = (c, n', Inr bs)" "bs \<noteq> []" "c < dl" "now h1 \<le> c"
        "write_results n' = []" "\<forall>(t, r) \<in> set (rx n'). t < dl \<and> (\<exists>b bs. r = Inr (b # bs))"
      by blast
    let ?h = "activity (h1\<lparr>stream := Some n', now := c, network_read_buffer := network_read_buffer h1 @ bs\<rparr>)"
    have "on_time dl ?h" using q by (auto simp: on_time_def)
    moreover have "decode_from_buffer (zmtp_manual_parser ?h) (avail ?h) = (p', b', Inr (Some msg))"
      using timed_read_buf_data [OF q(1,2)] n same "1.prems"(2) by (simp add: avail_def)
    moreover have "read_handshake_command_frame dl h = read_handshake_command_frame dl ?h"
      using d r late q by (simp add: read_turn [OF n])
    ultimately show ?thesis
      using "1.IH" [OF n d [symmetric] r refl late q(1) [symmetric] refl refl refl q(2)] "1.prems"(3) wait q(4) h1 by auto
  qed
qed

lemma send_bytes_complete:
  assumes "on_time dl h"
  shows "\<exists>h'. send_bytes ep fl bs h = (h', Inr ()) \<and> on_time dl h' \<and> written h' = written h @ bs"
proof -
  obtain n where n: "stream h = Some n" "write_results n = []" using assms by (auto simp: on_time_def)
  let ?h = "h\<lparr>stream := Some (n\<lparr>write_results := [], tx := tx n @ bs\<rparr>)\<rparr>"
  have "send_bytes ep fl bs h = (?h, Inr ())"
    using n by (cases fl) (simp_all add: send_bytes_def timed_write_all_def timed_flush_def next_write_result_def)
  moreover have "on_time dl ?h" "written ?h = written h @ bs" using assms n by (auto simp: on_time_def written_def)
  ultimately show ?thesis by blast
qed

lemma send_command_complete:
  assumes "on_time dl h"
  shows "\<exists>h'. send_handshake_command_frame m h = (h', Inr ()) \<and> on_time dl h' \<and> now h' = now h \<and>
    written h' = written h @ encode (set_flags (flags_empty\<lparr>COMMAND := True\<rparr>) m) []"
proof -
  obtain h1 where h1: "send_bytes ''handshake command send'' None (encode (set_flags (flags_empty\<lparr>COMMAND := True\<rparr>) m) []) h = (h1, Inr ())"
      "on_time dl h1" "written h1 = written h @ encode (set_flags (flags_empty\<lparr>COMMAND := True\<rparr>) m) []"
    using send_bytes_complete [OF assms] by blast
  moreover have "on_time dl (activity h1)" using h1(2) by (simp add: on_time_def)
  ultimately show ?thesis using send_bytes_sound [OF h1(1)] by (simp add: send_handshake_command_frame_def)
qed

lemma timelyI:
  assumes "timely h" "on_time (now h + operation_timeout h) h'" "now h \<le> now h'" "config h' = config h"
  shows "timely h'"
  using assms by (fastforce simp: timely_def on_time_def operation_timeout_def)


section \<open>The phases\<close>

text \<open>
  The handler in a phase: the bytes still to be read, the bytes written, the mechanism the session holds and
  the peer's greeting.
\<close>

record stage =
  st_cfg :: ZmtpEngineConfig
  st_server :: bool
  st_phase :: HandshakeSubPhaseX
  st_in :: bytes
  st_out :: bytes
  st_greeting :: "ZmtpGreeting option"

definition at_stage :: "('h, 't) ZmtpProtocolHandlerX \<Rightarrow> stage \<Rightarrow> bool" where
  "at_stage h s \<longleftrightarrow> timely h \<and> config h = st_cfg s \<and> is_server h = st_server s \<and>
    sub_phase (handshake_state h) = st_phase s \<and> avail h = st_in s \<and> written h = st_out s \<and>
    security_mechanism h = MNull NullMechanism \<and> pending_peer_greeting h = st_greeting s \<and>
    zmtp_manual_parser h = manual_new (cfg_max_msg_size (st_cfg s)) \<and>
    (st_phase s = GreetingExchange \<longrightarrow> network_read_buffer h = [])"

lemma stage_signature:
  assumes "at_stage h s" "st_phase s = GreetingExchange"
  shows "\<exists>h'. advance_handshake X h = Returned (h', Inr InProgress) \<and>
    at_stage h' (s\<lparr>st_phase := WaitingForPeerRevision, st_out := st_out s @ encode_signature [] @ [GREETING_VERSION_MAJOR_BYTE]\<rparr>)"
proof -
  have t: "timely h" using assms(1) by (simp add: at_stage_def)
  obtain h1 where h1: "send_bytes ''g sig send'' (Some ''g sig flush'') (encode_signature [] @ [GREETING_VERSION_MAJOR_BYTE]) h = (h1, Inr ())"
      "on_time (now h + operation_timeout h) h1" "written h1 = written h @ encode_signature [] @ [GREETING_VERSION_MAJOR_BYTE]"
    using send_bytes_complete [OF t [unfolded timely_def]] by blast
  note sound = send_bytes_sound [OF h1(1)] and un = unread_eqD [OF conjunct1 [OF send_bytes_sound [OF h1(1)]]]
  let ?h = "set_sub_phase WaitingForPeerRevision ((activity h1)\<lparr>network_read_buffer := []\<rparr>)"
  have "on_time (now h + operation_timeout h) ?h" "now h \<le> now ?h"
    using h1(2) sound by (simp_all add: on_time_def set_sub_phase_def activity_def)
  then have "timely ?h" using un by (intro timelyI [OF t]) (simp_all add: activity_def)
  moreover have "avail ?h = avail h" "written ?h = written h1"
    using sound assms by (auto simp: at_stage_def avail_def set_sub_phase_def activity_def written_def)
  ultimately show ?thesis
    using assms h1 sound un
    by (simp add: advance_handshake_def send_signature_def at_stage_def) (simp add: set_sub_phase_def activity_def)
qed

lemma stage_revision:
  assumes "at_stage h s" "st_phase s = WaitingForPeerRevision"
    and "st_in s = encode_signature [] @ [GREETING_VERSION_MAJOR_BYTE] @ rest"
  shows "\<exists>h'. advance_handshake X h = Returned (h', Inr InProgress) \<and>
    at_stage h' (s\<lparr>st_phase := WaitingForGreeting,
      st_out := st_out s @ encode_v3_tail_post_major (determine_own_greeting_mechanism h) (st_server s) []\<rparr>)"
proof -
  have t: "timely h" using assms(1) by (simp add: at_stage_def)
  have len: "length (encode_signature [] @ [GREETING_VERSION_MAJOR_BYTE]) = SIGNATURE_LENGTH + 1"
    by (simp add: encode_signature_def SIGNATURE_LENGTH_def)
  then have "SIGNATURE_LENGTH + 1 \<le> length (avail h)" using assms(1,3) by (simp add: at_stage_def)
  then obtain h1 where h1: "fill_buffer ''g peek read'' (now h + operation_timeout h) (SIGNATURE_LENGTH + 1) h = (h1, Inr ())"
      "on_time (now h + operation_timeout h) h1" "now h \<le> now h1"
    using fill_buffer_complete [OF t [unfolded timely_def]] by blast
  note sound = fill_buffer_sound [OF h1(1)] and un = unread_eqD [OF conjunct1 [OF fill_buffer_sound [OF h1(1)]]]
  have "take (SIGNATURE_LENGTH + 1) (network_read_buffer h1) = take (SIGNATURE_LENGTH + 1) (avail h1)"
    using sound unfolding avail_def by (metis take_append diff_is_0_eq take0 append_Nil2)
  also have "\<dots> = encode_signature [] @ [GREETING_VERSION_MAJOR_BYTE]"
    using sound assms(1,3) len by (simp add: at_stage_def)
  finally have peek: "read_peer_signature_and_peek_revision (SIGNATURE_LENGTH + 1) h = (h1, Inr GREETING_VERSION_MAJOR_BYTE)"
    using h1(1) greeting_staged(2) by (simp add: read_peer_signature_and_peek_revision_def)
  have own: "determine_own_greeting_mechanism h1 = determine_own_greeting_mechanism h"
    using un by (simp add: determine_own_greeting_mechanism_def)
  obtain h2 where h2: "send_bytes ''g v3 tail send'' (Some ''g v3 tail flush'')
        (encode_v3_tail_post_major (determine_own_greeting_mechanism h) (is_server h) []) h1 = (h2, Inr ())"
      "on_time (now h + operation_timeout h) h2"
      "written h2 = written h1 @ encode_v3_tail_post_major (determine_own_greeting_mechanism h) (is_server h) []"
    using send_bytes_complete [OF h1(2)] by blast
  note sound2 = send_bytes_sound [OF h2(1)] and un2 = unread_eqD [OF conjunct1 [OF send_bytes_sound [OF h2(1)]]]
  let ?h = "set_sub_phase WaitingForGreeting h2"
  have "advance_handshake X h = Returned (?h, Inr InProgress)"
    using assms(1,2) peek h2(1) own un
    by (simp add: advance_handshake_def at_stage_def wait_for_peer_revision_def write_v3_tail_and_advance_def
        V2_REVISION_def GREETING_VERSION_MAJOR_BYTE_def)
  moreover have "timely ?h"
    using h1(3) h2(2) sound2 un un2 by (intro timelyI [OF t]) (auto simp: on_time_def set_sub_phase_def)
  ultimately show ?thesis
    using assms(1,2) h2(3) sound sound2 un un2 by (simp add: at_stage_def) (simp add: set_sub_phase_def)
qed

lemma append_split_prefix:
  "xs @ ys = zs @ ws \<Longrightarrow> length zs \<le> length xs \<Longrightarrow> \<exists>b. xs = zs @ b \<and> ws = b @ ys"
  by (auto simp: append_eq_append_conv2)

lemma stage_greeting:
  assumes "at_stage h s" "st_phase s = WaitingForGreeting"
    and "st_in s = greeting_encode mech srv [] @ rest" "length mech = MECHANISM_LENGTH"
  shows "\<exists>h'. advance_handshake X h = Returned (h', Inr InProgress) \<and> negotiated_version h' = Some (V3 0) \<and>
    at_stage h' (s\<lparr>st_phase := SecurityHandshake, st_in := rest,
      st_greeting := Some \<lparr>greeting_version = (0x03, 0x00), greeting_mechanism = mech, greeting_as_server = srv\<rparr>\<rparr>)"
proof -
  have t: "timely h" using assms(1) by (simp add: at_stage_def)
  have len: "length (greeting_encode mech srv []) = GREETING_LENGTH"
    using assms(4) by (simp add: greeting_encode_eq greeting_consts)
  then have "GREETING_LENGTH \<le> length (avail h)" using assms(1,3) by (simp add: at_stage_def)
  then obtain h1 where h1: "fill_buffer ''g read'' (now h + operation_timeout h) GREETING_LENGTH h = (h1, Inr ())"
      "on_time (now h + operation_timeout h) h1" "now h \<le> now h1"
    using fill_buffer_complete [OF t [unfolded timely_def]] by blast
  note sound = fill_buffer_sound [OF h1(1)] and un = unread_eqD [OF conjunct1 [OF fill_buffer_sound [OF h1(1)]]]
  let ?more = "case stream h1 of None \<Rightarrow> [] | Some n \<Rightarrow> data_of (rx n)"
  have "network_read_buffer h1 @ ?more = greeting_encode mech srv [] @ rest"
    using sound assms(1,3) unfolding avail_def [symmetric] by (simp add: at_stage_def)
  then obtain b where b: "network_read_buffer h1 = greeting_encode mech srv [] @ b" "rest = b @ ?more"
    using append_split_prefix sound len by metis
  let ?g = "\<lparr>greeting_version = (0x03, 0x00), greeting_mechanism = mech, greeting_as_server = srv\<rparr>"
  let ?h = "set_sub_phase SecurityHandshake
    (h1\<lparr>network_read_buffer := b, negotiated_version := Some (V3 0), pending_peer_greeting := Some ?g\<rparr>)"
  have "advance_handshake X h = Returned (?h, Inr InProgress)"
    using assms(1,2) h1(1) b(1) greeting_decode_encode [OF assms(4)]
    by (simp add: advance_handshake_def at_stage_def receive_greeting_def)
  moreover have "timely ?h"
    using h1(2,3) un by (intro timelyI [OF t]) (auto simp: on_time_def set_sub_phase_def)
  moreover have "avail ?h = rest" "written ?h = written h1"
    using b(2) by (simp_all add: avail_def set_sub_phase_def written_def)
  ultimately show ?thesis
    using assms(1,2) sound un by (simp add: at_stage_def) (simp add: set_sub_phase_def)
qed

text \<open>Frames that the receiver's size limit admits.\<close>

definition fits :: "ZmtpEngineConfig \<Rightarrow> Msg \<Rightarrow> bool" where
  "fits cfg c \<longleftrightarrow> msg_size c < 2 ^ 64 \<and> (cfg_max_msg_size cfg < 0 \<or> int (msg_size c) \<le> cfg_max_msg_size cfg)"

text \<open>A stage of a handler that holds a mechanism.\<close>

definition at_mech :: "('h, 't) ZmtpProtocolHandlerX \<Rightarrow> stage \<Rightarrow> ('h, 't) Mechanism \<Rightarrow> bool" where
  "at_mech h s m \<longleftrightarrow> at_stage (h\<lparr>security_mechanism := MNull NullMechanism\<rparr>) s \<and> security_mechanism h = m"

lemma timely_same:
  "stream h' = stream h \<Longrightarrow> now h' = now h \<Longrightarrow> config h' = config h \<Longrightarrow> timely h' = timely h"
  by (simp add: timely_def on_time_def operation_timeout_def)

lemma timely_mech [simp]: "timely (h\<lparr>security_mechanism := m\<rparr>) = timely h"
  by (simp add: timely_def on_time_def operation_timeout_def)

lemma avail_mech [simp]: "avail (h\<lparr>security_mechanism := m\<rparr>) = avail h" "written (h\<lparr>security_mechanism := m\<rparr>) = written h"
  by (simp_all add: avail_def written_def)

lemma operation_timeout_mech [simp]: "operation_timeout (h\<lparr>security_mechanism := m\<rparr>) = operation_timeout h"
  by (simp add: operation_timeout_def)

lemma at_mech_update: "at_mech h s m \<Longrightarrow> at_mech (h\<lparr>security_mechanism := m'\<rparr>) s m'"
  by (simp add: at_mech_def)

lemma at_mech_send:
  assumes "at_mech h s m" "st_phase s \<noteq> GreetingExchange"
  shows "\<exists>h'. send_handshake_command_frame c h = (h', Inr ()) \<and> handshake_state h' = handshake_state h \<and>
    negotiated_version h' = negotiated_version h \<and>
    at_mech h' (s\<lparr>st_out := st_out s @ encode (set_flags (flags_empty\<lparr>COMMAND := True\<rparr>) c) []\<rparr>) m"
proof -
  have t: "timely h" using assms(1) by (simp add: at_mech_def at_stage_def)
  obtain h1 where h1: "send_handshake_command_frame c h = (h1, Inr ())" "on_time (now h + operation_timeout h) h1"
      "now h1 = now h" "written h1 = written h @ encode (set_flags (flags_empty\<lparr>COMMAND := True\<rparr>) c) []"
    using send_command_complete [OF t [unfolded timely_def]] by blast
  note sound = send_command_sound [OF h1(1)] and un = unread_eqD [OF conjunct1 [OF send_command_sound [OF h1(1)]]]
  have "timely h1" using h1(2,3) un by (intro timelyI [OF t]) simp_all
  then show ?thesis using assms h1 sound un by (simp add: at_mech_def at_stage_def)
qed

lemma at_mech_read:
  assumes "at_mech h s m" "st_phase s \<noteq> GreetingExchange"
    and "st_in s = encode c [] @ rest" "is_command c" "fits (st_cfg s) c"
  shows "\<exists>h'. read_handshake_command_frame (now h + operation_timeout h) h = (h', Inr (wire_norm c)) \<and>
    handshake_state h' = handshake_state h \<and> negotiated_version h' = negotiated_version h \<and>
    at_mech h' (s\<lparr>st_in := rest\<rparr>) m"
proof -
  have t: "timely h" and p: "zmtp_manual_parser h = manual_new (cfg_max_msg_size (st_cfg s))" "avail h = encode c [] @ rest"
    using assms(1,3) by (simp_all add: at_mech_def at_stage_def)
  have dec: "decode_from_buffer (zmtp_manual_parser h) (avail h) =
      (manual_new (cfg_max_msg_size (st_cfg s)), rest, Inr (Some (wire_norm c)))"
    using assms(5) unfolding p by (intro decode_from_buffer_encode) (auto simp: fits_def)
  have "is_command (wire_norm c)" using assms(4) by (simp add: is_command_def wire_norm_def)
  moreover have "\<exists>q. decode_from_buffer (zmtp_manual_parser h) [] = (q, [], Inr None)"
    by (simp add: p manual_new_def decode_from_buffer_def manual_read_header_def)
  ultimately obtain h1 where h1: "read_handshake_command_frame (now h + operation_timeout h) h = (h1, Inr (wire_norm c))"
      "on_time (now h + operation_timeout h) h1" "now h \<le> now h1"
    using read_command_complete [OF t [unfolded timely_def] dec] by blast
  note sound = read_command_sound [OF h1(1)] and un = unread_eqD [OF conjunct1 [OF read_command_sound [OF h1(1)]]]
  have "timely h1" using h1(2,3) un by (intro timelyI [OF t]) simp_all
  moreover have "zmtp_manual_parser h1 = manual_new (cfg_max_msg_size (st_cfg s))" "avail h1 = rest"
    using sound dec by simp_all
  ultimately show ?thesis using assms(1,2) h1 sound un by (simp add: at_mech_def at_stage_def)
qed



section \<open>Security\<close>

lemma loop_send:
  assumes "security_mechanism h = m0" "\<not> mech_is_complete m0" "\<not> mech_is_error m0"
    and "mech_produce_token X m0 = Some (m, Inr (Some token))"
    and "send_handshake_command_frame (msg_from_vec token) (h\<lparr>security_mechanism := m\<rparr>) = (h', Inr ())"
  shows "security_loop (Suc n) X h = security_loop n X h'"
  using assms by simp

lemma loop_receive:
  assumes "security_mechanism h = m0" "\<not> mech_is_complete m0" "\<not> mech_is_error m0"
    and "mech_produce_token X m0 = Some (m0, Inr None)"
    and "read_handshake_command_frame (now h + operation_timeout h) h = (h', Inr msg)"
    and "mech_process_token X (security_mechanism h') (msg_payload msg) = Some (m, Inr HandshakeComplete)"
  shows "security_loop (Suc n) X h = security_loop n X (h'\<lparr>security_mechanism := m\<rparr>)"
proof -
  have same: "h\<lparr>security_mechanism := m0\<rparr> = h" using assms(1) by simp
  show ?thesis by (simp add: assms same)
qed

lemma loop_reply:
  assumes "security_mechanism h = m0" "\<not> mech_is_complete m0" "\<not> mech_is_error m0"
    and "mech_produce_token X m0 = Some (m0, Inr None)"
    and "read_handshake_command_frame (now h + operation_timeout h) h = (h1, Inr msg)"
    and "mech_process_token X (security_mechanism h1) (msg_payload msg) = Some (m1, Inr ProduceAndSend)"
    and "mech_produce_token X m1 = Some (m, Inr (Some token))"
    and "send_handshake_command_frame (msg_from_vec token) (h1\<lparr>security_mechanism := m\<rparr>) = (h', Inr ())"
  shows "security_loop (Suc n) X h = security_loop n X h'"
proof -
  have same: "h\<lparr>security_mechanism := m0\<rparr> = h" using assms(1) by simp
  show ?thesis by (simp add: assms same)
qed

lemma loop_done:
  assumes "at_mech h s m" "st_phase s = SecurityHandshake" "mech_is_complete m"
    and "mech_into_framer X m (cfg_max_msg_size (st_cfg s)) = Inr (f, i)"
  shows "\<exists>h' p. security_loop (Suc n) X h = Returned (h', Inr p) \<and> negotiated_version h' = negotiated_version h \<and>
    at_stage h' (s\<lparr>st_phase := ReadyExchange\<rparr>)"
proof -
  let ?h = "set_sub_phase ReadyExchange (h\<lparr>security_mechanism := MNull NullMechanism, framer := f\<rparr>)"
  have "security_mechanism h = m" "config h = st_cfg s" using assms(1) by (simp_all add: at_mech_def at_stage_def)
  then have "\<exists>p. security_loop (Suc n) X h = Returned (?h, Inr p)" using assms(3,4) by simp
  moreover have "timely ?h = timely h" by (rule timely_same) (simp_all add: set_sub_phase_def)
  then have "at_stage ?h (s\<lparr>st_phase := ReadyExchange\<rparr>)"
    using assms(1,2) by (simp add: at_mech_def at_stage_def) (simp add: set_sub_phase_def avail_def written_def)
  moreover have "negotiated_version ?h = negotiated_version h" by (simp add: set_sub_phase_def)
  ultimately show ?thesis by blast
qed

lemma stage_negotiated:
  assumes "at_stage h s" "st_phase s = SecurityHandshake" "st_greeting s = Some g"
    and "negotiate_security_mechanism X (st_server s) (st_cfg s) g = Inr m"
  shows "advance_handshake X h = security_loop 8 X (h\<lparr>security_mechanism := m\<rparr>) \<and>
    at_mech (h\<lparr>security_mechanism := m\<rparr>) s m"
  using assms
  by (simp add: at_stage_def at_mech_def advance_handshake_def perform_security_handshake_step_def SECURITY_FUEL_def)

lemma stage_null:
  assumes "at_stage h s" "st_phase s = SecurityHandshake" "st_greeting s = Some g"
    and "greeting_mechanism g = NULL_NAME_BYTES" "\<not> security_enabled (st_cfg s)"
  shows "\<exists>h' p. advance_handshake X h = Returned (h', Inr p) \<and> negotiated_version h' = negotiated_version h \<and>
    at_stage h' (s\<lparr>st_phase := ReadyExchange\<rparr>)"
proof -
  have "negotiate_security_mechanism X (st_server s) (st_cfg s) g = Inr (MNull NullMechanism)"
    using assms by (simp add: negotiate_security_mechanism_def KNOWN_MECHANISMS_def initialize_null_def)
  from stage_negotiated [OF assms(1-3) this]
    loop_done [of "h\<lparr>security_mechanism := MNull NullMechanism\<rparr>" s "MNull NullMechanism" X
      "FNull (null_framer_new (cfg_max_msg_size (st_cfg s)))" None 7] assms(2)
  show ?thesis
    by (simp add: mech_is_complete_def null_status_def null_into_framer_def eval_nat_numeral del: security_loop.simps)
qed

text \<open>The tokens of PLAIN as command frames.\<close>

definition token_frame :: "bytes \<Rightarrow> Msg" where
  "token_frame t = set_flags (flags_empty\<lparr>COMMAND := True\<rparr>) (msg_from_vec t)"

definition hello_token :: "bytes \<Rightarrow> bytes \<Rightarrow> bytes" where
  "hello_token u p = be_bytes 1 (length CMD_HELLO) @ CMD_HELLO @ create_hello_body u p"

definition welcome_token :: bytes where
  "welcome_token = be_bytes 1 (length CMD_WELCOME) @ CMD_WELCOME"

lemma token_frame_simps [simp]:
  "is_command (token_frame t)" "msg_payload (wire_norm (token_frame t)) = t" "msg_size (token_frame t) = length t"
  by (simp_all add: token_frame_def is_command_def wire_norm_def set_flags_def msg_payload_def msg_size_def
      msg_from_vec_def)

lemma negotiate_plain:
  "greeting_mechanism g = PLAIN_NAME_BYTES \<Longrightarrow> use_plain cfg \<Longrightarrow>
    negotiate_security_mechanism X srv cfg g = Inr (MPlain
      (if srv then set_server_expected_credentials (plain_username_for_engine cfg) (plain_password_for_engine cfg) (plain_new True)
       else set_client_credentials (plain_username_for_engine cfg) (plain_password_for_engine cfg) (plain_new False)))"
  by (simp add: negotiate_security_mechanism_def KNOWN_MECHANISMS_def initialize_plain_def Let_def NULL_NAME_BYTES_def
      PLAIN_NAME_BYTES_def mech_name_bytes_def str_def)

lemma plain_hello_accepted:
  assumes "length u \<le> 255" "length p \<le> 255" "m = set_server_expected_credentials (Some u) (Some p) (plain_new True)"
  shows "plain_process_token m (hello_token u p) =
    (m\<lparr>pm_username := Some u, pm_password := Some p, pm_state := ServerSendWelcome\<rparr>, Inr ProduceAndSend)"
proof -
  have "hello_token u p = 5 # CMD_HELLO @ create_hello_body u p" "length CMD_HELLO = 5"
    by (simp_all add: hello_token_def CMD_HELLO_def str_def)
  then show ?thesis
    using parse_create_hello [OF assms(1,2)]
    by (simp add: plain_steps set_server_expected_credentials_def plain_new_def Let_def assms(3))
qed

lemma plain_welcome_accepted:
  assumes "\<not> pm_is_server m" "pm_state m = ClientExpectWelcome"
  shows "plain_process_token m welcome_token = (m\<lparr>pm_state := PlainReady\<rparr>, Inr HandshakeComplete)"
  using assms by (simp add: plain_steps welcome_token_def CMD_WELCOME_def Let_def)

lemma stage_plain_server:
  assumes "at_stage h s" "st_phase s = SecurityHandshake" "st_greeting s = Some g" "st_server s"
    and "greeting_mechanism g = PLAIN_NAME_BYTES" "use_plain (st_cfg s)"
    and "plain_username_for_engine (st_cfg s) = Some u" "plain_password_for_engine (st_cfg s) = Some p"
    and "length u \<le> 255" "length p \<le> 255"
    and "st_in s = encode (token_frame (hello_token u p)) [] @ rest" "fits (st_cfg s) (token_frame (hello_token u p))"
  shows "\<exists>h' q. advance_handshake X h = Returned (h', Inr q) \<and> negotiated_version h' = negotiated_version h \<and>
    at_stage h' (s\<lparr>st_in := rest, st_out := st_out s @ encode (token_frame welcome_token) [], st_phase := ReadyExchange\<rparr>)"
proof -
  let ?m = "set_server_expected_credentials (Some u) (Some p) (plain_new True)"
  let ?m1 = "?m\<lparr>pm_username := Some u, pm_password := Some p, pm_state := ServerSendWelcome\<rparr>"
  let ?m2 = "?m1\<lparr>pm_state := PlainReady\<rparr>" and ?h = "h\<lparr>security_mechanism := MPlain ?m\<rparr>"
  have neg: "negotiate_security_mechanism X (st_server s) (st_cfg s) g = Inr (MPlain ?m)"
    using assms(4-8) by (simp add: negotiate_plain)
  from stage_negotiated [OF assms(1-3) neg] have adv: "advance_handshake X h = security_loop (Suc (Suc 6)) X ?h"
      and at: "at_mech ?h s (MPlain ?m)" by (simp_all add: eval_nat_numeral)
  from at_mech_read [OF at _ assms(11) _ assms(12)] assms(2) obtain h1 where
      h1: "read_handshake_command_frame (now ?h + operation_timeout ?h) ?h = (h1, Inr (wire_norm (token_frame (hello_token u p))))"
      "negotiated_version h1 = negotiated_version h" "at_mech h1 (s\<lparr>st_in := rest\<rparr>) (MPlain ?m)"
    by auto
  from at_mech_send [OF at_mech_update [OF h1(3), of "MPlain ?m2"], of "msg_from_vec welcome_token"] assms(2) obtain h2 where
      h2: "send_handshake_command_frame (msg_from_vec welcome_token) (h1\<lparr>security_mechanism := MPlain ?m2\<rparr>) = (h2, Inr ())"
      "negotiated_version h2 = negotiated_version h"
      "at_mech h2 (s\<lparr>st_in := rest, st_out := st_out s @ encode (token_frame welcome_token) []\<rparr>) (MPlain ?m2)"
    using h1(2) by (auto simp: token_frame_def)
  have sm: "security_mechanism ?h = MPlain ?m" by simp
  have "security_loop (Suc (Suc 6)) X ?h = security_loop (Suc 6) X h2"
  proof (rule loop_reply [OF sm _ _ _ h1(1) _ _ h2(1)])
    show "mech_process_token X (security_mechanism h1) (msg_payload (wire_norm (token_frame (hello_token u p)))) =
        Some (MPlain ?m1, Inr ProduceAndSend)"
      using h1(3) plain_hello_accepted [OF assms(9,10) refl] by (simp add: at_mech_def)
  qed (simp_all add: mech_is_complete_def mech_is_error_def plain_status_def plain_new_def plain_produce_token_def
      set_server_expected_credentials_def welcome_token_def)
  moreover have fin: "mech_is_complete (MPlain ?m2)"
      "mech_into_framer X (MPlain ?m2) l = Inr (FNull (null_framer_new l), Some u)" for l
    by (simp_all add: mech_is_complete_def plain_status_def plain_into_framer_def)
  note loop_done [OF h2(3) _ fin, of 6]
  ultimately show ?thesis using assms(2) adv h2(2) by (simp del: security_loop.simps)
qed

lemma stage_plain_client:
  assumes "at_stage h s" "st_phase s = SecurityHandshake" "st_greeting s = Some g" "\<not> st_server s"
    and "greeting_mechanism g = PLAIN_NAME_BYTES" "use_plain (st_cfg s)"
    and "plain_username_for_engine (st_cfg s) = Some u" "plain_password_for_engine (st_cfg s) = Some p"
    and "st_in s = encode (token_frame welcome_token) [] @ rest" "fits (st_cfg s) (token_frame welcome_token)"
  shows "\<exists>h' q. advance_handshake X h = Returned (h', Inr q) \<and> negotiated_version h' = negotiated_version h \<and>
    at_stage h' (s\<lparr>st_out := st_out s @ encode (token_frame (hello_token u p)) [], st_in := rest, st_phase := ReadyExchange\<rparr>)"
proof -
  let ?m = "set_client_credentials (Some u) (Some p) (plain_new False)"
  let ?m1 = "?m\<lparr>pm_state := ClientExpectWelcome\<rparr>" and ?m2 = "?m\<lparr>pm_state := PlainReady\<rparr>"
  let ?h = "h\<lparr>security_mechanism := MPlain ?m\<rparr>"
  have neg: "negotiate_security_mechanism X (st_server s) (st_cfg s) g = Inr (MPlain ?m)"
    using assms(4-8) by (simp add: negotiate_plain)
  from stage_negotiated [OF assms(1-3) neg] have adv: "advance_handshake X h = security_loop (Suc (Suc (Suc 5))) X ?h"
      and at: "at_mech ?h s (MPlain ?m)" by (simp_all add: eval_nat_numeral)
  from at_mech_send [OF at_mech_update [OF at, of "MPlain ?m1"], of "msg_from_vec (hello_token u p)"] assms(2) obtain h1 where
      h1: "send_handshake_command_frame (msg_from_vec (hello_token u p)) (?h\<lparr>security_mechanism := MPlain ?m1\<rparr>) = (h1, Inr ())"
      "negotiated_version h1 = negotiated_version h"
      "at_mech h1 (s\<lparr>st_out := st_out s @ encode (token_frame (hello_token u p)) []\<rparr>) (MPlain ?m1)"
    by (auto simp: token_frame_def)
  from at_mech_read [OF h1(3), of "token_frame welcome_token" rest] assms(2,9,10) obtain h2 where
      h2: "read_handshake_command_frame (now h1 + operation_timeout h1) h1 = (h2, Inr (wire_norm (token_frame welcome_token)))"
      "negotiated_version h2 = negotiated_version h"
      "at_mech h2 (s\<lparr>st_out := st_out s @ encode (token_frame (hello_token u p)) [], st_in := rest\<rparr>) (MPlain ?m1)"
    using h1(2) by auto
  have sm: "security_mechanism ?h = MPlain ?m" "security_mechanism h1 = MPlain ?m1"
    using h1(3) by (simp_all add: at_mech_def)
  have "security_loop (Suc (Suc (Suc 5))) X ?h = security_loop (Suc (Suc 5)) X h1"
    by (rule loop_send [OF sm(1) _ _ _ h1(1)])
      (simp_all add: mech_is_complete_def mech_is_error_def plain_status_def plain_new_def plain_produce_token_def
        set_client_credentials_def hello_token_def Let_def)
  also have "\<dots> = security_loop (Suc 5) X (h2\<lparr>security_mechanism := MPlain ?m2\<rparr>)"
  proof (rule loop_receive [OF sm(2) _ _ _ h2(1)])
    show "mech_process_token X (security_mechanism h2) (msg_payload (wire_norm (token_frame welcome_token))) =
        Some (MPlain ?m2, Inr HandshakeComplete)"
      using h2(3) plain_welcome_accepted [of ?m1] by (simp add: at_mech_def set_client_credentials_def plain_new_def)
  qed (simp_all add: mech_is_complete_def mech_is_error_def plain_status_def plain_produce_token_def)
  moreover have fin: "mech_is_complete (MPlain ?m2)"
      "mech_into_framer X (MPlain ?m2) l = Inr (FNull (null_framer_new l), Some u)" for l
    by (simp_all add: mech_is_complete_def plain_status_def plain_into_framer_def set_client_credentials_def plain_new_def)
  note loop_done [OF at_mech_update [OF h2(3)] _ fin, of 5]
  ultimately show ?thesis using assms(2) adv h2(2) by (simp del: security_loop.simps)
qed


section \<open>READY\<close>

lemma ready_is_command_frame:
  "set_flags (flags_empty\<lparr>COMMAND := True\<rparr>) (ready_create_msg ps) = ready_create_msg ps"
  "is_command (ready_create_msg ps)" "wire_norm (ready_create_msg ps) = ready_create_msg ps"
  by (simp_all add: ready_create_msg_def Let_def set_flags_def is_command_def wire_norm_def msg_payload_def msg_from_vec_def)

text \<open>What the configuration announces in READY.\<close>

definition announced :: "ZmtpEngineConfig \<Rightarrow> properties" where
  "announced cfg = build_ready_properties (handler_new \<lparr>rx = [], tx = [], write_results = [], cork_results = []\<rparr> 0 cfg False 0 :: (unit, unit) ZmtpProtocolHandlerX)"

lemma build_ready_properties_config:
  assumes "config h = config h'"
  shows "build_ready_properties h = build_ready_properties h'"
  unfolding build_ready_properties_def assms ..

lemma announced_eq: "build_ready_properties h = announced (config h)"
  unfolding announced_def by (rule build_ready_properties_config) (simp add: handler_new_def)

definition ready_of :: "('h, 't) env \<Rightarrow> ZmtpEngineConfig \<Rightarrow> Msg" where
  "ready_of X cfg = ready_create_msg (env_order X (announced cfg))"

lemma at_stage_mech: "at_stage h s \<longleftrightarrow> at_mech h s (MNull NullMechanism)"
proof -
  have "security_mechanism h = MNull NullMechanism \<Longrightarrow> h\<lparr>security_mechanism := MNull NullMechanism\<rparr> = h" by simp
  then show ?thesis by (auto simp: at_mech_def at_stage_def)
qed

lemma at_stage_next:
  assumes "at_stage h s"
  shows "p \<noteq> GreetingExchange \<Longrightarrow> at_stage (set_sub_phase p h) (s\<lparr>st_phase := p\<rparr>)"
proof -
  have "timely (set_sub_phase p h) = timely h" by (rule timely_same) (simp_all add: set_sub_phase_def)
  then show "p \<noteq> GreetingExchange \<Longrightarrow> ?thesis"
    using assms by (simp add: at_stage_def) (simp add: set_sub_phase_def)
qed

lemma at_stage_recorded: "at_stage h s \<Longrightarrow> at_stage (record_peer_socket_type d h) s"
proof -
  have "timely (record_peer_socket_type d h) = timely h"
    by (rule timely_same) (simp_all add: record_peer_socket_type_def split: option.split)
  then show "at_stage h s \<Longrightarrow> ?thesis"
    by (auto simp: at_stage_def record_peer_socket_type_def avail_def written_def split: option.split)
qed

lemma at_stage_identity:
  "at_stage h s \<Longrightarrow> at_stage (h\<lparr>handshake_state := (handshake_state h)\<lparr>peer_identity_from_ready := i\<rparr>\<rparr>) s"
proof -
  have "timely (h\<lparr>handshake_state := (handshake_state h)\<lparr>peer_identity_from_ready := i\<rparr>\<rparr>) = timely h"
    by (rule timely_same) simp_all
  then show "at_stage h s \<Longrightarrow> ?thesis" by (simp add: at_stage_def avail_def written_def)
qed

text \<open>A hash map lists each entry once, in some order.\<close>

definition lists_entries :: "('h, 't) env \<Rightarrow> bool" where
  "lists_entries X \<longleftrightarrow> (\<forall>ps. distinct (map fst ps) \<longrightarrow>
    distinct (map fst (env_order X ps)) \<and> set (env_order X ps) = set ps)"

definition announced_identity :: "ZmtpEngineConfig \<Rightarrow> bytes option" where
  "announced_identity cfg =
    (if cfg_socket_type_name cfg \<in> {''REQ'', ''DEALER'', ''ROUTER''} then
       (case cfg_routing_id cfg of None \<Rightarrow> None | Some i \<Rightarrow> if i \<noteq> [] \<and> length i \<le> 255 then Some i else None)
     else None)"

lemma announced_cases:
  obtains (plain) "announced cfg = [(str ''Socket-Type'', str (cfg_socket_type_name cfg))]" "announced_identity cfg = None"
  | (identity) i where "announced cfg = [(str ''Socket-Type'', str (cfg_socket_type_name cfg)), (str ''Identity'', i)]"
      "length i \<le> 255" "announced_identity cfg = (if i = [] then None else Some i)"
proof -
  have ne: "str ''Identity'' \<noteq> str ''Socket-Type''" by (simp add: str_def)
  let ?t = "cfg_socket_type_name cfg"
  have eq: "announced cfg =
      (if ?t = ''REQ'' \<or> ?t = ''DEALER'' \<or> ?t = ''ROUTER'' then
         (case cfg_routing_id cfg of None \<Rightarrow> [(str ''Socket-Type'', str ?t), (str ''Identity'', [])]
          | Some i \<Rightarrow> if length i \<le> 255 then [(str ''Socket-Type'', str ?t), (str ''Identity'', i)]
              else [(str ''Socket-Type'', str ?t)])
       else [(str ''Socket-Type'', str ?t)])"
    using ne unfolding announced_def build_ready_properties_def handler_new_def Let_def
    by (simp split: option.split)
  show ?thesis
  proof (cases "?t \<in> {''REQ'', ''DEALER'', ''ROUTER''}")
    case True
    then show ?thesis
      using eq plain identity [of "[]"] identity [of "the (cfg_routing_id cfg)"]
      by (cases "cfg_routing_id cfg") (auto simp: announced_identity_def split: if_splits)
  next
    case False
    then show ?thesis using eq plain by (simp add: announced_identity_def)
  qed
qed

lemma socket_type_names:
  "socket_type_code name \<noteq> None \<Longrightarrow> utf8_valid (str name) \<and> length name \<le> 6"
  by (auto simp: socket_type_code_def str_def split: if_splits)

lemma ready_parsed:
  assumes "lists_entries X" "socket_type_code (cfg_socket_type_name cfg) \<noteq> None"
  shows "\<exists>d. command_parse (ready_of X cfg) = Some (Ready d) \<and>
    map_of (ready_properties d) (str ''Socket-Type'') = Some (str (cfg_socket_type_name cfg)) \<and>
    utf8_valid (str (cfg_socket_type_name cfg)) \<and> parse_peer_ready_identity d = announced_identity cfg"
proof -
  let ?ps = "env_order X (announced cfg)" and ?t = "str (cfg_socket_type_name cfg)"
  have names: "utf8_valid (str ''Socket-Type'')" "utf8_valid (str ''Identity'')" "str ''Identity'' \<noteq> str ''Socket-Type''"
      "length (str ''Socket-Type'') \<le> 255" "length (str ''Identity'') \<le> 255"
    by (simp_all add: str_def)
  note t = socket_type_names [OF assms(2)]
  have dist: "distinct (map fst (announced cfg))" using names(3) by (cases cfg rule: announced_cases) auto
  then have ps: "distinct (map fst ?ps)" "set ?ps = set (announced cfg)" using assms(1) by (auto simp: lists_entries_def)
  have short: "length n \<le> 255 \<and> utf8_valid n \<and> length v < 2 ^ 32" if "(n, v) \<in> set ?ps" for n v
    using that t names unfolding ps(2) by (cases cfg rule: announced_cases) auto
  then have "wf_properties ?ps" "wire_properties ?ps = ?ps"
    using ps(1) by (auto simp: wf_properties_def wire_properties_def filter_id_conv)
  then have "command_parse (ready_of X cfg) = Some (Ready \<lparr>ready_properties = ?ps\<rparr>)"
    by (simp add: ready_of_def command_parse_ready)
  moreover have "map_of ?ps (str ''Socket-Type'') = Some ?t"
    using ps by (intro map_of_is_SomeI) (cases cfg rule: announced_cases; simp)+
  moreover have "parse_peer_ready_identity \<lparr>ready_properties = ?ps\<rparr> = announced_identity cfg"
  proof (cases cfg rule: announced_cases)
    case plain
    then have "map_of ?ps (str ''Identity'') = None" using ps(2) names(3) by (auto simp: map_of_eq_None_iff)
    then show ?thesis using plain(2) by (simp add: parse_peer_ready_identity_def)
  next
    case (identity i)
    then have "map_of ?ps (str ''Identity'') = Some i" using ps by (intro map_of_is_SomeI) auto
    then show ?thesis using identity by (simp add: parse_peer_ready_identity_def)
  qed
  ultimately show ?thesis using t by auto
qed

lemma stage_client_ready:
  assumes "at_stage h s" "st_phase s = ReadyExchange" "\<not> st_server s"
  shows "\<exists>h'. advance_handshake X h = Returned (h', Inr InProgress) \<and> negotiated_version h' = negotiated_version h \<and>
    at_stage h' (s\<lparr>st_out := st_out s @ encode (ready_of X (st_cfg s)) [], st_phase := ClientSentReady\<rparr>)"
proof -
  let ?c = "ready_of X (st_cfg s)"
  have c: "ready_create_msg (env_order X (build_ready_properties h)) = ?c"
    using assms(1) by (simp add: ready_of_def announced_eq at_stage_def)
  from at_mech_send [OF assms(1) [unfolded at_stage_mech], of ?c] assms(2) obtain h1 where
      h1: "send_handshake_command_frame ?c h = (h1, Inr ())" "negotiated_version h1 = negotiated_version h"
      "at_stage h1 (s\<lparr>st_out := st_out s @ encode ?c []\<rparr>)"
    by (auto simp: at_stage_mech ready_of_def ready_is_command_frame)
  then have "advance_handshake X h = Returned (set_sub_phase ClientSentReady h1, Inr InProgress)"
    using assms c by (simp add: advance_handshake_def at_stage_def perform_ready_exchange_step_def)
  then show ?thesis using h1 at_stage_next [OF h1(3), of ClientSentReady] by simp
qed

lemma stage_client_done:
  assumes "at_stage h s" "st_phase s = ClientSentReady" "st_in s = encode (ready_of Y cfg) [] @ rest"
    and "fits (st_cfg s) (ready_of Y cfg)" "lists_entries Y" "socket_type_code (cfg_socket_type_name cfg) \<noteq> None"
  shows "\<exists>h'. advance_handshake X h = Returned (h', Inr (progress_of_identity (announced_identity cfg))) \<and>
    negotiated_version h' = negotiated_version h \<and> peer_socket_type (handshake_state h') = Some (str (cfg_socket_type_name cfg)) \<and>
    at_stage h' (s\<lparr>st_in := rest, st_phase := HsDone\<rparr>)"
proof -
  let ?c = "ready_of Y cfg"
  obtain d where d: "command_parse ?c = Some (Ready d)"
      "map_of (ready_properties d) (str ''Socket-Type'') = Some (str (cfg_socket_type_name cfg))"
      "utf8_valid (str (cfg_socket_type_name cfg))" "parse_peer_ready_identity d = announced_identity cfg"
    using ready_parsed [OF assms(5,6)] by blast
  from at_mech_read [OF assms(1) [unfolded at_stage_mech] _ assms(3) _ assms(4)] assms(2) obtain h1 where
      h1: "read_handshake_command_frame (now h + operation_timeout h) h = (h1, Inr ?c)" "negotiated_version h1 = negotiated_version h"
      "at_stage h1 (s\<lparr>st_in := rest\<rparr>)"
    by (auto simp: at_stage_mech ready_of_def ready_is_command_frame)
  let ?h = "set_sub_phase HsDone (record_peer_socket_type d h1)"
  have "advance_handshake X h = Returned (?h, Inr (progress_of_identity (announced_identity cfg)))"
    using assms(1,2) h1(1) d by (simp add: advance_handshake_def at_stage_def client_receive_peer_ready_def)
  moreover have "peer_socket_type (handshake_state ?h) = Some (str (cfg_socket_type_name cfg))"
    using d by (simp add: record_peer_socket_type_def set_sub_phase_def)
  moreover have "negotiated_version ?h = negotiated_version h"
    using h1(2) d by (simp add: record_peer_socket_type_def)
  ultimately show ?thesis using at_stage_next [OF at_stage_recorded [OF h1(3), of d], of HsDone] by auto
qed

lemma stage_server_ready:
  assumes "at_stage h s" "st_phase s = ReadyExchange" "st_server s" "st_in s = encode (ready_of Y cfg) [] @ rest"
    and "fits (st_cfg s) (ready_of Y cfg)" "lists_entries Y" "socket_type_code (cfg_socket_type_name cfg) \<noteq> None"
  shows "\<exists>h'. advance_handshake X h = Returned (h', Inr InProgress) \<and> negotiated_version h' = negotiated_version h \<and>
    peer_socket_type (handshake_state h') = Some (str (cfg_socket_type_name cfg)) \<and>
    peer_identity_from_ready (handshake_state h') = announced_identity cfg \<and>
    at_stage h' (s\<lparr>st_in := rest, st_phase := ServerReceivedReady\<rparr>)"
proof -
  let ?c = "ready_of Y cfg"
  obtain d where d: "command_parse ?c = Some (Ready d)"
      "map_of (ready_properties d) (str ''Socket-Type'') = Some (str (cfg_socket_type_name cfg))"
      "utf8_valid (str (cfg_socket_type_name cfg))" "parse_peer_ready_identity d = announced_identity cfg"
    using ready_parsed [OF assms(6,7)] by blast
  from at_mech_read [OF assms(1) [unfolded at_stage_mech] _ assms(4) _ assms(5)] assms(2) obtain h1 where
      h1: "read_handshake_command_frame (now h + operation_timeout h) h = (h1, Inr ?c)" "negotiated_version h1 = negotiated_version h"
      "at_stage h1 (s\<lparr>st_in := rest\<rparr>)"
    by (auto simp: at_stage_mech ready_of_def ready_is_command_frame)
  let ?h1 = "record_peer_socket_type d h1"
  let ?h2 = "?h1\<lparr>handshake_state := (handshake_state ?h1)\<lparr>peer_identity_from_ready := announced_identity cfg\<rparr>\<rparr>"
  let ?h = "set_sub_phase ServerReceivedReady ?h2"
  have "advance_handshake X h = Returned (?h, Inr InProgress)"
    using assms(1-3) h1(1) d by (simp add: advance_handshake_def at_stage_def perform_ready_exchange_step_def Let_def)
  moreover have "peer_socket_type (handshake_state ?h) = Some (str (cfg_socket_type_name cfg))"
      "peer_identity_from_ready (handshake_state ?h) = announced_identity cfg" "negotiated_version ?h = negotiated_version h"
    using d h1(2) by (simp_all add: record_peer_socket_type_def set_sub_phase_def)
  ultimately show ?thesis
    using at_stage_next [OF at_stage_identity [OF at_stage_recorded [OF h1(3), of d], of "announced_identity cfg"], of ServerReceivedReady]
    by auto
qed

lemma stage_server_done:
  assumes "at_stage h s" "st_phase s = ServerReceivedReady"
  shows "\<exists>h'. advance_handshake X h = Returned (h', Inr (progress_of_identity (peer_identity_from_ready (handshake_state h)))) \<and>
    negotiated_version h' = negotiated_version h \<and> peer_socket_type (handshake_state h') = peer_socket_type (handshake_state h) \<and>
    at_stage h' (s\<lparr>st_out := st_out s @ encode (ready_of X (st_cfg s)) [], st_phase := HsDone\<rparr>)"
proof -
  let ?c = "ready_of X (st_cfg s)"
  have c: "ready_create_msg (env_order X (build_ready_properties h)) = ?c"
    using assms(1) by (simp add: ready_of_def announced_eq at_stage_def)
  from at_mech_send [OF assms(1) [unfolded at_stage_mech], of ?c] assms(2) obtain h1 where
      h1: "send_handshake_command_frame ?c h = (h1, Inr ())" "negotiated_version h1 = negotiated_version h"
      "handshake_state h1 = handshake_state h" "at_stage h1 (s\<lparr>st_out := st_out s @ encode ?c []\<rparr>)"
    by (auto simp: at_stage_mech ready_of_def ready_is_command_frame)
  let ?h = "set_sub_phase HsDone (h1\<lparr>handshake_state := (handshake_state h1)\<lparr>peer_identity_from_ready := None\<rparr>\<rparr>)"
  have "advance_handshake X h = Returned (?h, Inr (progress_of_identity (peer_identity_from_ready (handshake_state h))))"
    using assms c h1 by (simp add: advance_handshake_def at_stage_def server_send_ready_def Let_def)
  then show ?thesis
    using h1 at_stage_next [OF at_stage_identity [OF h1(4), of None], of HsDone]
    by (auto simp: set_sub_phase_def)
qed



section \<open>Two peers\<close>

text \<open>Everything one side of a NULL or PLAIN session writes: its greeting, its token and its READY.\<close>

definition session_frames :: "('h, 't) env \<Rightarrow> ZmtpEngineConfig \<Rightarrow> bool \<Rightarrow> Msg list" where
  "session_frames X cfg srv =
    (if use_plain cfg
     then [token_frame (if srv then welcome_token
             else hello_token (case plain_username_for_engine cfg of None \<Rightarrow> [] | Some u \<Rightarrow> u)
                    (case plain_password_for_engine cfg of None \<Rightarrow> [] | Some p \<Rightarrow> p))]
     else []) @ [ready_of X cfg]"

definition session_mechanism :: "ZmtpEngineConfig \<Rightarrow> bytes" where
  "session_mechanism cfg = (if use_plain cfg then PLAIN_NAME_BYTES else NULL_NAME_BYTES)"

definition session_wire :: "('h, 't) env \<Rightarrow> ZmtpEngineConfig \<Rightarrow> bool \<Rightarrow> bytes" where
  "session_wire X cfg srv =
    greeting_encode (session_mechanism cfg) srv [] @ concat (map (\<lambda>c. encode c []) (session_frames X cfg srv))"

text \<open>Configurations without CURVE and NOISE_XX that use the same mechanism with the same credentials.\<close>

definition null_or_plain :: "ZmtpEngineConfig \<Rightarrow> bool" where
  "null_or_plain cfg \<longleftrightarrow> \<not> use_curve cfg \<and> \<not> use_noise_xx cfg \<and> security_enabled cfg = use_plain cfg"

definition matching :: "ZmtpEngineConfig \<Rightarrow> ZmtpEngineConfig \<Rightarrow> bool" where
  "matching cfg cfg' \<longleftrightarrow> null_or_plain cfg \<and> null_or_plain cfg' \<and> use_plain cfg = use_plain cfg' \<and>
    (use_plain cfg \<longrightarrow> (\<exists>u p. plain_username_for_engine cfg = Some u \<and> plain_username_for_engine cfg' = Some u \<and>
      plain_password_for_engine cfg = Some p \<and> plain_password_for_engine cfg' = Some p \<and> length u \<le> 255 \<and> length p \<le> 255))"

lemma run_step:
  assumes "at_stage h s" "st_phase s \<noteq> HsDone" "advance_handshake X h = Returned (h', Inr p)"
  shows "run_handshake (Suc n) X h = run_handshake n X h'"
  using assms by (simp add: at_stage_def is_handshake_complete_def)

lemma session_greeted:
  assumes "null_or_plain cfg" "timely (handler_new n fd cfg srv clock :: ('h, 't) ZmtpProtocolHandlerX)"
    and "data_of (rx n) = greeting_encode mech (\<not> srv) [] @ rest" "length mech = MECHANISM_LENGTH"
  shows "\<exists>h :: ('h, 't) ZmtpProtocolHandlerX. run_handshake 8 X (handler_new n fd cfg srv clock) = run_handshake 5 X h \<and> negotiated_version h = Some (V3 0) \<and>
    at_stage h \<lparr>st_cfg = cfg, st_server = srv, st_phase = SecurityHandshake, st_in = rest,
      st_out = tx n @ greeting_encode (session_mechanism cfg) srv [],
      st_greeting = Some \<lparr>greeting_version = (0x03, 0x00), greeting_mechanism = mech, greeting_as_server = \<not> srv\<rparr>\<rparr>"
proof -
  let ?h0 = "handler_new n fd cfg srv clock :: ('h, 't) ZmtpProtocolHandlerX"
  let ?s0 = "\<lparr>st_cfg = cfg, st_server = srv, st_phase = GreetingExchange, st_in = data_of (rx n), st_out = tx n, st_greeting = None\<rparr>"
  have s0: "at_stage ?h0 ?s0"
    using assms(2) by (simp add: at_stage_def) (simp add: handler_new_def handshake_state_new_def avail_def written_def)
  obtain h1 where h1: "advance_handshake X ?h0 = Returned (h1, Inr InProgress)"
      "at_stage h1 (?s0\<lparr>st_phase := WaitingForPeerRevision, st_out := tx n @ encode_signature [] @ [GREETING_VERSION_MAJOR_BYTE]\<rparr>)"
    using stage_signature [OF s0] by auto
  have inp: "data_of (rx n) = encode_signature [] @ [GREETING_VERSION_MAJOR_BYTE] @ drop 11 (data_of (rx n))"
    using assms(3,4) by (simp add: greeting_encode_eq encode_signature_def)
  have own: "determine_own_greeting_mechanism h1 = session_mechanism cfg"
    using h1(2) assms(1)
    by (simp add: determine_own_greeting_mechanism_def at_stage_def null_or_plain_def session_mechanism_def Let_def)
  have len: "length (session_mechanism cfg) = MECHANISM_LENGTH"
    by (simp add: session_mechanism_def PLAIN_NAME_BYTES_def NULL_NAME_BYTES_def mech_name_bytes_def MECHANISM_LENGTH_def)
  obtain h2 where h2: "advance_handshake X h1 = Returned (h2, Inr InProgress)"
      "at_stage h2 (?s0\<lparr>st_phase := WaitingForGreeting, st_out := tx n @ greeting_encode (session_mechanism cfg) srv []\<rparr>)"
    using stage_revision [OF h1(2), of "drop 11 (data_of (rx n))" X] inp own len greeting_staged(1) [of "session_mechanism cfg" srv]
    by (auto simp: post_major_eq)
  obtain h3 where h3: "advance_handshake X h2 = Returned (h3, Inr InProgress)" "negotiated_version h3 = Some (V3 0)"
      "at_stage h3 \<lparr>st_cfg = cfg, st_server = srv, st_phase = SecurityHandshake, st_in = rest,
      st_out = tx n @ greeting_encode (session_mechanism cfg) srv [],
      st_greeting = Some \<lparr>greeting_version = (0x03, 0x00), greeting_mechanism = mech, greeting_as_server = \<not> srv\<rparr>\<rparr>"
    using stage_greeting [OF h2(2) _ _ assms(4), of "\<not> srv" rest X] assms(3) by auto
  have "run_handshake 8 X ?h0 = run_handshake 5 X h3"
    using run_step [OF s0 _ h1(1), of 7] run_step [OF h1(2) _ h2(1), of 6] run_step [OF h2(2) _ h3(1), of 5]
    by (simp del: run_handshake.simps)
  then show ?thesis using h3 by blast
qed

lemma session_secured:
  assumes "at_stage h s" "st_phase s = SecurityHandshake" "st_greeting s = Some g"
    and "greeting_mechanism g = session_mechanism cfg'" "matching (st_cfg s) cfg'"
    and "st_in s = concat (map (\<lambda>c. encode c []) (session_frames Y cfg' (\<not> st_server s))) @ rest"
    and "\<forall>c \<in> set (session_frames Y cfg' (\<not> st_server s)). fits (st_cfg s) c"
  shows "\<exists>h' p out. advance_handshake X h = Returned (h', Inr p) \<and> negotiated_version h' = negotiated_version h \<and>
    out @ encode (ready_of X (st_cfg s)) [] = concat (map (\<lambda>c. encode c []) (session_frames X (st_cfg s) (st_server s))) \<and>
    at_stage h' \<lparr>st_cfg = st_cfg s, st_server = st_server s, st_phase = ReadyExchange,
      st_in = encode (ready_of Y cfg') [] @ rest, st_out = st_out s @ out, st_greeting = st_greeting s\<rparr>"
proof (cases "use_plain (st_cfg s)")
  case False
  then have off: "greeting_mechanism g = NULL_NAME_BYTES" "\<not> security_enabled (st_cfg s)"
    using assms(4,5) by (auto simp: matching_def null_or_plain_def session_mechanism_def)
  obtain h' p where h': "advance_handshake X h = Returned (h', Inr p)" "negotiated_version h' = negotiated_version h"
      "at_stage h' (s\<lparr>st_phase := ReadyExchange\<rparr>)"
    using stage_null [OF assms(1-3) off] by blast
  have "st_in s = encode (ready_of Y cfg') [] @ rest"
    using assms(5,6) False by (simp add: session_frames_def matching_def)
  moreover have eq: "s\<lparr>st_phase := ReadyExchange\<rparr> = \<lparr>st_cfg = st_cfg s, st_server = st_server s, st_phase = ReadyExchange,
      st_in = st_in s, st_out = st_out s, st_greeting = st_greeting s\<rparr>" by (cases s) simp
  note h'(3) [unfolded eq]
  ultimately show ?thesis
    using h'(1,2) False by (intro exI [of _ h'] exI [of _ p] exI [of _ "[]"]) (simp add: session_frames_def)
next
  case True
  then obtain u p where up: "plain_username_for_engine (st_cfg s) = Some u" "plain_password_for_engine (st_cfg s) = Some p"
      "plain_username_for_engine cfg' = Some u" "plain_password_for_engine cfg' = Some p" "length u \<le> 255" "length p \<le> 255"
      "use_plain cfg'" using assms(5) by (auto simp: matching_def)
  then have mech: "greeting_mechanism g = PLAIN_NAME_BYTES" using assms(4) by (simp add: session_mechanism_def)
  show ?thesis
  proof (cases "st_server s")
    case srv: True
    have tok: "st_in s = encode (token_frame (hello_token u p)) [] @ encode (ready_of Y cfg') [] @ rest"
        "fits (st_cfg s) (token_frame (hello_token u p))"
      using assms(6,7) srv up by (simp_all add: session_frames_def)
    have eq: "s\<lparr>st_in := i, st_out := out, st_phase := ReadyExchange\<rparr> = \<lparr>st_cfg = st_cfg s, st_server = st_server s, st_phase = ReadyExchange,
      st_in = i, st_out = out, st_greeting = st_greeting s\<rparr>" for i out by (cases s) simp
    obtain h' q where "advance_handshake X h = Returned (h', Inr q)" "negotiated_version h' = negotiated_version h"
        "at_stage h' \<lparr>st_cfg = st_cfg s, st_server = st_server s, st_phase = ReadyExchange,
          st_in = encode (ready_of Y cfg') [] @ rest, st_out = st_out s @ encode (token_frame welcome_token) [],
          st_greeting = st_greeting s\<rparr>"
      using stage_plain_server [OF assms(1-3) srv mech True up(1,2,5,6) tok, of X, unfolded eq] by blast
    then show ?thesis
      using srv True
      by (intro exI [of _ h'] exI [of _ q] exI [of _ "encode (token_frame welcome_token) []"]) (simp add: session_frames_def)
  next
    case srv: False
    have tok: "st_in s = encode (token_frame welcome_token) [] @ encode (ready_of Y cfg') [] @ rest"
        "fits (st_cfg s) (token_frame welcome_token)"
      using assms(6,7) srv up by (simp_all add: session_frames_def)
    have eq: "s\<lparr>st_out := out, st_in := i, st_phase := ReadyExchange\<rparr> = \<lparr>st_cfg = st_cfg s, st_server = st_server s, st_phase = ReadyExchange,
      st_in = i, st_out = out, st_greeting = st_greeting s\<rparr>" for i out by (cases s) simp
    obtain h' q where "advance_handshake X h = Returned (h', Inr q)" "negotiated_version h' = negotiated_version h"
        "at_stage h' \<lparr>st_cfg = st_cfg s, st_server = st_server s, st_phase = ReadyExchange,
          st_in = encode (ready_of Y cfg') [] @ rest, st_out = st_out s @ encode (token_frame (hello_token u p)) [],
          st_greeting = st_greeting s\<rparr>"
      using stage_plain_client [OF assms(1-3) srv mech True up(1,2) tok, of X, unfolded eq] by blast
    then show ?thesis
      using srv True up
      by (intro exI [of _ h'] exI [of _ q] exI [of _ "encode (token_frame (hello_token u p)) []"]) (simp add: session_frames_def)
  qed
qed

lemma session_readied:
  assumes "at_stage h s" "st_phase s = ReadyExchange" "st_in s = encode (ready_of Y cfg') [] @ rest"
    and "fits (st_cfg s) (ready_of Y cfg')" "lists_entries Y" "socket_type_code (cfg_socket_type_name cfg') \<noteq> None"
  shows "\<exists>h'. run_handshake 4 X h = Returned (h', Inr ()) \<and> negotiated_version h' = negotiated_version h \<and>
    peer_socket_type (handshake_state h') = Some (str (cfg_socket_type_name cfg')) \<and>
    written h' = st_out s @ encode (ready_of X (st_cfg s)) [] \<and> avail h' = rest"
proof (cases "st_server s")
  case True
  obtain h1 where h1: "advance_handshake X h = Returned (h1, Inr InProgress)" "negotiated_version h1 = negotiated_version h"
      "peer_socket_type (handshake_state h1) = Some (str (cfg_socket_type_name cfg'))"
      "at_stage h1 (s\<lparr>st_in := rest, st_phase := ServerReceivedReady\<rparr>)"
    using stage_server_ready [OF assms(1,2) True assms(3-6)] by blast
  obtain h2 p where h2: "advance_handshake X h1 = Returned (h2, Inr p)" "negotiated_version h2 = negotiated_version h"
      "peer_socket_type (handshake_state h2) = Some (str (cfg_socket_type_name cfg'))"
      "at_stage h2 (s\<lparr>st_in := rest, st_phase := ServerReceivedReady, st_out := st_out s @ encode (ready_of X (st_cfg s)) [], st_phase := HsDone\<rparr>)"
    using stage_server_done [OF h1(4), of X] h1(2,3) by auto
  have "run_handshake 4 X h = run_handshake (Suc 1) X h2"
    using run_step [OF assms(1) _ h1(1), of 3] run_step [OF h1(4) _ h2(1), of 2] assms(2)
    by (simp add: eval_nat_numeral del: run_handshake.simps)
  moreover have "is_handshake_complete h2" "written h2 = st_out s @ encode (ready_of X (st_cfg s)) []" "avail h2 = rest"
    using h2(4) by (simp_all add: at_stage_def is_handshake_complete_def)
  ultimately show ?thesis using h2(2,3) by simp
next
  case False
  obtain h1 where h1: "advance_handshake X h = Returned (h1, Inr InProgress)" "negotiated_version h1 = negotiated_version h"
      "at_stage h1 (s\<lparr>st_out := st_out s @ encode (ready_of X (st_cfg s)) [], st_phase := ClientSentReady\<rparr>)"
    using stage_client_ready [OF assms(1,2) False] by blast
  obtain h2 p where h2: "advance_handshake X h1 = Returned (h2, Inr p)" "negotiated_version h2 = negotiated_version h"
      "peer_socket_type (handshake_state h2) = Some (str (cfg_socket_type_name cfg'))"
      "at_stage h2 (s\<lparr>st_out := st_out s @ encode (ready_of X (st_cfg s)) [], st_phase := ClientSentReady, st_in := rest, st_phase := HsDone\<rparr>)"
    using stage_client_done [OF h1(3) _ _ _ assms(5,6), of rest X] assms(3,4) h1(2) by auto
  have "run_handshake 4 X h = run_handshake (Suc 1) X h2"
    using run_step [OF assms(1) _ h1(1), of 3] run_step [OF h1(3) _ h2(1), of 2] assms(2)
    by (simp add: eval_nat_numeral del: run_handshake.simps)
  moreover have "is_handshake_complete h2" "written h2 = st_out s @ encode (ready_of X (st_cfg s)) []" "avail h2 = rest"
    using h2(4) by (simp_all add: at_stage_def is_handshake_complete_def)
  ultimately show ?thesis using h2(2,3) by simp
qed

lemma session_completes:
  assumes "matching cfg cfg'" and "lists_entries Y" and "socket_type_code (cfg_socket_type_name cfg') \<noteq> None"
    and "data_of (rx n) = session_wire Y cfg' (\<not> srv) @ rest"
    and "timely (handler_new n fd cfg srv clock :: ('h, 't) ZmtpProtocolHandlerX)"
    and "\<forall>c \<in> set (session_frames Y cfg' (\<not> srv)). fits cfg c"
  shows "\<exists>h :: ('h, 't) ZmtpProtocolHandlerX. run_handshake 8 X (handler_new n fd cfg srv clock) = Returned (h, Inr ()) \<and>
    written h = tx n @ session_wire X cfg srv \<and> avail h = rest \<and> negotiated_version h = Some (V3 0) \<and>
    peer_socket_type (handshake_state h) = Some (str (cfg_socket_type_name cfg'))"
proof -
  have len: "length (session_mechanism cfg') = MECHANISM_LENGTH"
    by (simp add: session_mechanism_def PLAIN_NAME_BYTES_def NULL_NAME_BYTES_def mech_name_bytes_def MECHANISM_LENGTH_def)
  let ?more = "concat (map (\<lambda>c. encode c []) (session_frames Y cfg' (\<not> srv))) @ rest"
  have inp: "data_of (rx n) = greeting_encode (session_mechanism cfg') (\<not> srv) [] @ ?more"
    using assms(4) by (simp add: session_wire_def)
  have np: "null_or_plain cfg" using assms(1) by (simp add: matching_def)
  from session_greeted [OF np assms(5) inp len, of X] obtain h1 g where
      h1: "run_handshake 8 X (handler_new n fd cfg srv clock :: ('h, 't) ZmtpProtocolHandlerX) = run_handshake 5 X h1"
      "negotiated_version h1 = Some (V3 0)"
      "at_stage h1 \<lparr>st_cfg = cfg, st_server = srv, st_phase = SecurityHandshake, st_in = ?more,
        st_out = tx n @ greeting_encode (session_mechanism cfg) srv [], st_greeting = Some g\<rparr>"
      "greeting_mechanism g = session_mechanism cfg'"
    by fastforce
  from session_secured [OF h1(3) _ _ h1(4), of Y rest X] assms(1,6) obtain h2 p out where
      h2: "advance_handshake X h1 = Returned (h2, Inr p)" "negotiated_version h2 = Some (V3 0)"
      "out @ encode (ready_of X cfg) [] = concat (map (\<lambda>c. encode c []) (session_frames X cfg srv))"
      "at_stage h2 \<lparr>st_cfg = cfg, st_server = srv, st_phase = ReadyExchange, st_in = encode (ready_of Y cfg') [] @ rest,
        st_out = (tx n @ greeting_encode (session_mechanism cfg) srv []) @ out, st_greeting = Some g\<rparr>"
    using h1(2) by auto
  have "run_handshake 5 X h1 = run_handshake 4 X h2"
    using run_step [OF h1(3) _ h2(1), of 4] by (simp add: eval_nat_numeral del: run_handshake.simps)
  moreover have "fits cfg (ready_of Y cfg')" using assms(6) by (simp add: session_frames_def split: if_splits)
  ultimately show ?thesis
    using session_readied [OF h2(4) _ _ _ assms(2,3), of rest X] h1(1) h2(2,3) by (auto simp: session_wire_def)
qed

text \<open>
  C7. Two peers with matching NULL or PLAIN configurations complete the handshake: whatever chunks the
  stream delivers, if a side receives in time what its peer writes, it completes as a ZMTP/3 session,
  writes exactly what its peer in turn needs, learns the socket type the peer announced, and leaves the
  bytes after the peer's READY for the data phase.
\<close>

theorem session_handshake_completes:
  assumes "matching cfg cfg'" and "lists_entries Y" and "socket_type_code (cfg_socket_type_name cfg') \<noteq> None"
    and "data_of (rx n) = session_wire Y cfg' (\<not> srv) @ rest"
    and "timely (handler_new n fd cfg srv clock :: ('h, 't) ZmtpProtocolHandlerX)"
    and "\<forall>c \<in> set (session_frames Y cfg' (\<not> srv)). fits cfg c"
  shows "\<exists>h :: ('h, 't) ZmtpProtocolHandlerX. run_handshake 8 X (handler_new n fd cfg srv clock) = Returned (h, Inr ()) \<and>
    written h = tx n @ session_wire X cfg srv \<and> avail h = rest \<and> negotiated_version h = Some (V3 0) \<and>
    peer_socket_type (handshake_state h) = Some (str (cfg_socket_type_name cfg'))"
  using assms by (rule session_completes)

definition example_plain_peer :: "string \<Rightarrow> ZmtpEngineConfig" where
  "example_plain_peer socket_type = (example_plain_config (Some [117]) (Some [112]))
    \<lparr>security_enabled := True, use_plain := True, cfg_allow_zmtp2 := False, cfg_socket_type_name := socket_type\<rparr>"

definition chunked_net :: "nat \<Rightarrow> bytes list \<Rightarrow> net" where
  "chunked_net t bss = \<lparr>rx = map (\<lambda>bs. (t, Inr bs)) bss, tx = [], write_results = [], cork_results = []\<rparr>"

lemma example_plain_peer_simps [simp]:
  "cfg_max_msg_size (example_plain_peer s) = -1" "cfg_socket_type_name (example_plain_peer s) = s"
  "handshake_timeout (example_plain_peer s) = None" "use_plain (example_plain_peer s)"
  "plain_username_for_engine (example_plain_peer s) = Some [117]" "plain_password_for_engine (example_plain_peer s) = Some [112]"
  "plain_only (example_plain_peer s)" "null_or_plain (example_plain_peer s)"
  by (simp_all add: example_plain_peer_def example_plain_config_def engine_config_def options_default_def plain_only_def
      null_or_plain_def)

lemma example_matching: "matching (example_plain_peer s) (example_plain_peer s')"
  by (simp add: matching_def)

lemma example_lists_entries: "lists_entries example_env"
  by (simp add: lists_entries_def example_env_def)

text \<open>A stream in two chunks, all of it in time.\<close>

lemma example_timely:
  "a \<noteq> [] \<Longrightarrow> b \<noteq> [] \<Longrightarrow>
    timely (handler_new (chunked_net 5 [a, b]) 3 (example_plain_peer s) srv 0 :: ('h, 't) ZmtpProtocolHandlerX)"
  by (cases a; cases b) (auto simp: timely_def on_time_def handler_new_def chunked_net_def operation_timeout_def)

lemma data_of_chunks: "a \<noteq> [] \<Longrightarrow> b \<noteq> [] \<Longrightarrow> data_of (rx (chunked_net t [a, b])) = a @ b"
  by (cases a; cases b) (simp_all add: chunked_net_def)

lemma example_fits:
  "\<forall>c \<in> set (session_frames example_env (example_plain_peer ''PUSH'') False). fits (example_plain_peer s) c"
  by (simp add: session_frames_def fits_def token_frame_def hello_token_def create_hello_body_def CMD_HELLO_def ready_of_def
      ready_create_msg_def announced_def build_ready_properties_def handler_new_def example_env_def msg_size_def
      set_flags_def msg_from_vec_def encode_properties_def ZMTP_CMD_READY_NAME_def Let_def)

lemma example_wire_chunks:
  "\<exists>a b. session_wire example_env (example_plain_peer s) srv = a @ b \<and> a \<noteq> [] \<and> b \<noteq> []"
proof -
  have "session_wire example_env (example_plain_peer s) srv = [0xFF] @ tl (session_wire example_env (example_plain_peer s) srv)"
      "tl (session_wire example_env (example_plain_peer s) srv) \<noteq> []"
    by (simp_all add: session_wire_def greeting_encode_def encode_v3_tail_def encode_v3_tail_post_major_def
        encode_signature_def Let_def)
  then show ?thesis by (metis not_Cons_self2)
qed

theorem session_handshake_completes_witness:
  "\<exists>a b. session_wire example_env (example_plain_peer ''PUSH'') False = a @ b \<and>
    (\<exists>h :: (bool \<times> nat \<times> bytes option, unit) ZmtpProtocolHandlerX.
       run_handshake 8 example_env (handler_new (chunked_net 5 [a, b]) 3 (example_plain_peer ''PULL'') True 0) = Returned (h, Inr ()) \<and>
       peer_socket_type (handshake_state h) = Some (str ''PUSH''))"
proof -
  obtain a b where ab: "session_wire example_env (example_plain_peer ''PUSH'') False = a @ b" "a \<noteq> []" "b \<noteq> []"
    using example_wire_chunks by blast
  have data: "data_of (rx (chunked_net 5 [a, b])) = session_wire example_env (example_plain_peer ''PUSH'') (\<not> True) @ []"
    using ab data_of_chunks by simp
  from session_handshake_completes [OF example_matching example_lists_entries _ data example_timely [OF ab(2,3)], where X = example_env]
    example_fits ab(1) show ?thesis by (fastforce simp: socket_type_code_def)
qed

text \<open>
  C1. A server that requires PLAIN and refuses ZMTP/2.0 never completes the handshake of a session with a
  peer that does not know the credentials: if the handshake completes, then the first frame the peer
  sent after its greeting, in whatever chunks the bytes arrived, is a HELLO command that carries
  exactly the configured user name and password.
\<close>

theorem plain_session_authenticates:
  assumes "plain_only cfg"
    and "run_handshake n X (handler_new net fd cfg True clock) = Returned (h', Inr ())"
  shows "\<exists>parser' rest msg u p body.
    decode_from_buffer (manual_new (cfg_max_msg_size cfg)) (drop GREETING_LENGTH (data_of (rx net))) = (parser', rest, Inr (Some msg)) \<and>
    is_command msg \<and> msg_payload msg = be_bytes 1 5 @ CMD_HELLO @ body \<and> parse_hello_body body = Inr (u, p) \<and>
    plain_username_for_engine cfg = Some u \<and> plain_password_for_engine cfg = Some p"
proof -
  have "plain_phase cfg (data_of (rx net)) (handler_new net fd cfg True clock)"
    by (simp add: plain_phase_def handler_new_def handshake_state_new_def avail_def)
  from plain_phase_run [OF assms(2) this assms(1)] show ?thesis by (simp add: plain_authenticated_def)
qed

theorem plain_session_authenticates_witness:
  "\<exists>parser' rest msg u p body.
    decode_from_buffer (manual_new (-1)) (drop GREETING_LENGTH (session_wire example_env (example_plain_peer ''PUSH'') False)) =
      (parser', rest, Inr (Some msg)) \<and>
    is_command msg \<and> msg_payload msg = be_bytes 1 5 @ CMD_HELLO @ body \<and> parse_hello_body body = Inr (u, p) \<and>
    u = [117] \<and> p = [112]"
proof -
  obtain a b where ab: "session_wire example_env (example_plain_peer ''PUSH'') False = a @ b" "a \<noteq> []" "b \<noteq> []"
    using example_wire_chunks by blast
  have data: "data_of (rx (chunked_net 5 [a, b])) = session_wire example_env (example_plain_peer ''PUSH'') (\<not> True) @ []"
    using ab data_of_chunks by simp
  obtain h :: "(bool \<times> nat \<times> bytes option, unit) ZmtpProtocolHandlerX"
    where "run_handshake 8 example_env (handler_new (chunked_net 5 [a, b]) 3 (example_plain_peer ''PULL'') True 0) = Returned (h, Inr ())"
    using session_completes [OF example_matching example_lists_entries _ data example_timely [OF ab(2,3)]] example_fits
    by (fastforce simp: socket_type_code_def)
  from plain_session_authenticates [OF _ this] data show ?thesis by (auto simp: ab(1))
qed



section \<open>ZMTP/2.0\<close>

text \<open>What a ZMTP/2.0 peer without identity sends before its first message.\<close>

definition v2_prologue :: "byte \<Rightarrow> bytes" where
  "v2_prologue socket_type = v2_encode_full socket_type [] @ [0x00, 0x00]"

lemma v2_prologue_eq: "v2_prologue c = [0xFF, 0, 0, 0, 0, 0, 0, 0, 0, 0x7F, 0x01, c, 0, 0]"
  by (simp add: v2_prologue_def v2_encode_full_def v2_encode_tail_def V2_REVISION_def eval_nat_numeral)

lemma decode_empty_frame:
  "decode_from_buffer (manual_new l) [0, 0] = (manual_new l, [], Inr (Some (msg_of_frame 0 [])))"
  by (simp add: decode_from_buffer_def manual_new_def manual_read_header_def manual_read_body_def ZMTP_FLAG_LONG_def be_nat_def Let_def)

lemma v2_peek:
  assumes "stream h = Some n" "rx n = [(t, Inr bs)]" "length bs \<ge> k" "network_read_buffer h = []" "t \<le> now h" "now h < dl" "0 < k"
  shows "fill_buffer ep dl k h = (activity (h\<lparr>stream := Some (n\<lparr>rx := []\<rparr>), now := now h, network_read_buffer := bs\<rparr>), Inr ())"
proof -
  have "bs \<noteq> []" "\<not> dl < t" using assms(3,5,6,7) by auto
  then show ?thesis
    using assms
    by (simp add: fill_buffer.simps [of ep dl k h] timed_read_buf_def max_absorb1 fill_buffer.simps [of ep dl k "activity _"])
qed

lemma v2_filled: "stream h = Some n \<Longrightarrow> k \<le> length (network_read_buffer h) \<Longrightarrow> fill_buffer ep dl k h = (h, Inr ())"
  by (simp add: fill_buffer.simps [of ep dl k h])

lemmas io_defs = send_bytes_def timed_write_all_def timed_flush_def next_write_result_def activity_def set_sub_phase_def

lemma v2_revision_step:
  assumes "stream h = Some n" "rx n = [(t, Inr (v2_prologue peer_code))]" "write_results n = []" "network_read_buffer h = []"
    and "t \<le> now h" "0 < operation_timeout h" "sub_phase (handshake_state h) = WaitingForPeerRevision"
    and "cfg_allow_zmtp2 (config h)" "socket_type_code (cfg_socket_type_name (config h)) = Some own_code"
  shows "\<exists>h' n'. advance_handshake X h = Returned (h', Inr InProgress) \<and> stream h' = Some n' \<and> write_results n' = [] \<and>
    network_read_buffer h' = v2_prologue peer_code \<and> config h' = config h \<and> zmtp_manual_parser h' = zmtp_manual_parser h \<and>
    framer h' = framer h \<and> negotiated_version h' = Some V2 \<and>
    handshake_state h' = (handshake_state h)\<lparr>sub_phase := V2IdentityExchange\<rparr>"
proof -
  have len: "SIGNATURE_LENGTH + 1 \<le> length (v2_prologue peer_code)" by (simp add: v2_prologue_eq SIGNATURE_LENGTH_def)
  have "now h < now h + operation_timeout h" using assms(6) by simp
  from v2_peek [OF assms(1,2) len assms(4,5) this, of "''g peek read''"] have
    "read_peer_signature_and_peek_revision (SIGNATURE_LENGTH + 1) h =
      (activity (h\<lparr>stream := Some (n\<lparr>rx := []\<rparr>), now := now h, network_read_buffer := v2_prologue peer_code\<rparr>), Inr V2_REVISION)"
    by (simp add: read_peer_signature_and_peek_revision_def)
      (simp add: v2_prologue_eq peek_revision_def SIGNATURE_LENGTH_def VERSION_MAJOR_OFFSET_def V2_REVISION_def activity_def)
  then show ?thesis
    using assms
    by (simp add: advance_handshake_def wait_for_peer_revision_def write_v2_tail_and_advance_def io_defs)
qed

lemma v2_identity_step:
  assumes "stream h = Some n" "write_results n = []" "network_read_buffer h = v2_prologue peer_code"
    and "zmtp_manual_parser h = manual_new l" "sub_phase (handshake_state h) = V2IdentityExchange"
    and "socket_type_name_from_code peer_code = Some peer" "v2_compatible (cfg_socket_type_name (config h)) peer"
  shows "\<exists>h' p. advance_handshake X h = Returned (h', Inr p) \<and> framer h' = framer h \<and>
    negotiated_version h' = negotiated_version h \<and> sub_phase (handshake_state h') = HsDone \<and>
    peer_socket_type (handshake_state h') = Some (str peer)"
proof -
  let ?h1 = "h\<lparr>network_read_buffer := [0, 0]\<rparr>"
  let ?h2 = "?h1\<lparr>handshake_state := (handshake_state h)\<lparr>peer_socket_type := Some (str peer)\<rparr>\<rparr>"
  let ?h3 = "activity (?h2\<lparr>stream := Some (n\<lparr>write_results := [], tx := tx n @ [0, 0]\<rparr>)\<rparr>)"
  have "consume_peer_v2_greeting h = (?h1, Inr peer_code)"
    using assms(1,3)
    by (simp add: consume_peer_v2_greeting_def v2_filled v2_prologue_eq V2_GREETING_LENGTH_def SIGNATURE_LENGTH_def)
  moreover have "validate_v2_socket_type_compat (cfg_socket_type_name (config h)) peer_code = Inr ()"
    using assms(6,7) by (simp add: validate_v2_socket_type_compat_def)
  moreover have "send_empty_identity_frame_v2 ?h2 = (?h3, Inr ())"
    using assms(1,2) by (simp add: send_empty_identity_frame_v2_def io_defs)
  moreover have "decode_handshake ?h3 = (?h3\<lparr>network_read_buffer := []\<rparr>, Inr (Some (msg_of_frame 0 [])))"
    using assms(4) decode_empty_frame [of l] by (simp add: decode_handshake_def activity_def)
  then have "read_v2_identity_frame dl ?h3 = (activity (?h3\<lparr>network_read_buffer := []\<rparr>), Inr [])" for dl
    by (simp add: read_v2_identity_frame.simps [of dl ?h3] enforce_v2_identity_constraints_def msg_of_frame_def
        set_flags_def flags_empty_def msg_payload_def msg_from_vec_def ZMTP_FLAG_MORE_def ZMTP_FLAG_COMMAND_def)
  ultimately show ?thesis
    using assms(5,6) by (simp add: advance_handshake_def exchange_v2_identity_def Let_def) (simp add: activity_def set_sub_phase_def)
qed

lemma zmtp2_session:
  fixes X :: "('h, 't) env"
  assumes "cfg_allow_zmtp2 cfg" "socket_type_code (cfg_socket_type_name cfg) = Some own_code"
    and "socket_type_name_from_code peer_code = Some peer" "v2_compatible (cfg_socket_type_name cfg) peer"
    and "handshake_timeout cfg \<noteq> Some 0"
  shows "\<exists>h. run_handshake 8 X (handler_new (chunked_net clock [v2_prologue peer_code]) fd cfg srv clock) = Returned (h, Inr ()) \<and>
    negotiated_version h = Some V2 \<and> framer h = FNull (null_framer_new (cfg_max_msg_size cfg)) \<and>
    peer_socket_type (handshake_state h) = Some (str peer)"
proof -
  let ?n = "chunked_net clock [v2_prologue peer_code]" and ?sig = "encode_signature [] @ [GREETING_VERSION_MAJOR_BYTE]"
  let ?h0 = "handler_new ?n fd cfg srv clock :: ('h, 't) ZmtpProtocolHandlerX"
  define h1 where "h1 = set_sub_phase WaitingForPeerRevision
    ((activity (?h0\<lparr>stream := Some (?n\<lparr>write_results := [], tx := ?sig\<rparr>)\<rparr>))\<lparr>network_read_buffer := []\<rparr>)"
  have s1: "advance_handshake X ?h0 = Returned (h1, Inr InProgress)" "\<not> is_handshake_complete ?h0"
    by (simp_all add: h1_def advance_handshake_def handler_new_def handshake_state_new_def send_signature_def send_bytes_def
        timed_write_all_def timed_flush_def next_write_result_def chunked_net_def is_handshake_complete_def)
  have h1: "stream h1 = Some (?n\<lparr>write_results := [], tx := ?sig\<rparr>)" "network_read_buffer h1 = []" "now h1 = clock"
      "sub_phase (handshake_state h1) = WaitingForPeerRevision" "config h1 = cfg" "framer h1 = FNull (null_framer_new (cfg_max_msg_size cfg))"
      "zmtp_manual_parser h1 = manual_new (cfg_max_msg_size cfg)"
    by (simp_all add: h1_def set_sub_phase_def activity_def handler_new_def)
  have to: "0 < operation_timeout h1" using assms(5) h1(5) by (auto simp: operation_timeout_def split: option.split)
  have n1: "rx (?n\<lparr>write_results := [], tx := ?sig\<rparr>) = [(clock, Inr (v2_prologue peer_code))]"
      "write_results (?n\<lparr>write_results := [], tx := ?sig\<rparr>) = []" by (simp_all add: chunked_net_def)
  obtain h2 n2 where s2: "advance_handshake X h1 = Returned (h2, Inr InProgress)" "stream h2 = Some n2" "write_results n2 = []"
      "network_read_buffer h2 = v2_prologue peer_code" "config h2 = cfg" "zmtp_manual_parser h2 = manual_new (cfg_max_msg_size cfg)"
      "framer h2 = FNull (null_framer_new (cfg_max_msg_size cfg))" "negotiated_version h2 = Some V2"
      "sub_phase (handshake_state h2) = V2IdentityExchange"
    using v2_revision_step [OF h1(1) n1 h1(2) _ to h1(4), of own_code X] h1 assms(1,2) by auto
  from v2_identity_step [OF s2(2-4) s2(6,9) assms(3), of X] assms(4) s2(5) obtain h3 p where
      s3: "advance_handshake X h2 = Returned (h3, Inr p)" "framer h3 = framer h2" "negotiated_version h3 = negotiated_version h2"
      "sub_phase (handshake_state h3) = HsDone" "peer_socket_type (handshake_state h3) = Some (str peer)"
    by auto
  have "run_handshake (Suc (Suc (Suc (Suc k)))) X ?h0 = Returned (h3, Inr ())" for k
    using s1 s2 s3 h1(4) by (simp add: is_handshake_complete_def)
  from this [of 4] show ?thesis using s2 s3 by (simp del: run_handshake.simps)
qed



end
