(* ===== verification/Session_Life.thy ===== *)
theory Session_Life
  imports Session_Actor Session_Interop
begin

text \<open>
  The life of a session: what holds in every state the session actor reaches, how it becomes operational,
  how a dead peer is noticed, and what the data phase delivers.
\<close>

declare fill_buffer.simps [simp del] read_handshake_command_frame.simps [simp del] read_v2_identity_frame.simps [simp del]
  read_data_frame.simps [simp del]

section \<open>The stream stays open until the session shuts down\<close>

definition alive :: "('h, 't) ZmtpProtocolHandlerX \<Rightarrow> bool" where
  "alive h \<longleftrightarrow> stream h \<noteq> None"

lemma alive_simps [simp]:
  "alive (h\<lparr>network_read_buffer := b\<rparr>) = alive h" "alive (h\<lparr>handshake_state := s\<rparr>) = alive h"
  "alive (h\<lparr>security_mechanism := m\<rparr>) = alive h" "alive (h\<lparr>negotiated_version := v\<rparr>) = alive h"
  "alive (h\<lparr>pending_peer_greeting := g\<rparr>) = alive h" "alive (h\<lparr>framer := f\<rparr>) = alive h"
  "alive (h\<lparr>zmtp_manual_parser := p\<rparr>) = alive h" "alive (h\<lparr>heartbeat_state := hb\<rparr>) = alive h"
  "alive (h\<lparr>stream := Some n\<rparr>)" "alive (h\<lparr>now := c\<rparr>) = alive h" "alive (h\<lparr>cork_info := ci\<rparr>) = alive h"
  "alive (activity h) = alive h" "alive (set_sub_phase ph h) = alive h"
  by (simp_all add: alive_def activity_def set_sub_phase_def)

lemma send_bytes_alive: "send_bytes ep fl bs h = (h', r) \<Longrightarrow> alive h' = alive h"
  by (auto simp: send_bytes_def alive_def split: option.splits prod.splits sum.splits)

lemma send_command_alive: "send_handshake_command_frame m h = (h', r) \<Longrightarrow> alive h' = alive h"
  by (auto simp: send_handshake_command_frame_def split: prod.splits sum.splits dest!: send_bytes_alive)

lemma fill_buffer_alive: "fill_buffer ep dl k h = (h', r) \<Longrightarrow> alive h \<Longrightarrow> alive h'"
proof (induction ep dl k h rule: fill_buffer.induct)
  case (1 ep dl k h)
  from "1.prems"(2) obtain n where n: "stream h = Some n" by (auto simp: alive_def)
  obtain c n' q where q: "timed_read_buf ep dl (now h) n = (c, n', q)" by (metis prod_cases3)
  note turn = "1.prems"(1) [unfolded fill_buffer.simps [of ep dl k h] n option.case q prod.case]
  show ?case
  proof (cases "k \<le> length (network_read_buffer h) \<or> dl - now h = 0 \<or> (\<exists>e. q = Inl e) \<or> q = Inr []")
    case True
    then show ?thesis using turn "1.prems"(2) by (auto simp: Let_def split: if_splits)
  next
    case False
    then obtain bs where bs: "q = Inr bs" "bs \<noteq> []" by (cases q) auto
    show ?thesis
      using "1.IH" [OF n _ _ q [symmetric] refl bs(1) refl bs(2)] turn False bs by (simp add: Let_def)
  qed
qed

lemma decode_handshake_alive: "decode_handshake h = (h', r) \<Longrightarrow> alive h' = alive h"
  by (simp add: alive_def decode_handshake_stream)

lemma read_command_alive: "read_handshake_command_frame dl h = (h', r) \<Longrightarrow> alive h \<Longrightarrow> alive h'"
proof (induction dl h rule: read_handshake_command_frame.induct)
  case (1 dl h)
  from "1.prems"(2) obtain n where n: "stream h = Some n" by (auto simp: alive_def)
  obtain h1 d where d: "(if network_read_buffer h \<noteq> [] then decode_handshake h else (h, Inr None)) = (h1, d)" by fastforce
  then have h1: "alive h1" using "1.prems"(2) by (auto split: if_splits dest: decode_handshake_alive)
  obtain c n' q where q: "timed_read_buf ''handshake command read'' dl (now h1) n = (c, n', q)" by (metis prod_cases3)
  note turn = "1.prems"(1) [unfolded read_turn [OF n] d prod.case]
  show ?case
  proof (cases "d = Inr None \<and> dl - now h1 \<noteq> 0 \<and> (\<exists>bs. q = Inr bs \<and> bs \<noteq> [])")
    case False
    then show ?thesis
      using turn h1 q by (auto simp: Let_def split: sum.splits option.splits if_splits)
  next
    case True
    then obtain bs where bs: "q = Inr bs" "bs \<noteq> []" by auto
    from True have dn: "d = Inr None" by simp
    show ?thesis
      using "1.IH" [OF n d [unfolded dn, symmetric] refl refl _ q [symmetric] refl bs(1) refl bs(2)] turn True bs q
      by (simp add: Let_def)
  qed
qed

lemma read_v2_alive: "read_v2_identity_frame dl h = (h', r) \<Longrightarrow> alive h \<Longrightarrow> alive h'"
proof (induction dl h rule: read_v2_identity_frame.induct)
  case (1 dl h)
  obtain h1 d where d: "(if network_read_buffer h \<noteq> [] then decode_handshake h else (h, Inr None)) = (h1, d)" by fastforce
  then have h1: "alive h1" using "1.prems"(2) by (auto split: if_splits dest: decode_handshake_alive)
  then obtain n where n: "stream h1 = Some n" by (auto simp: alive_def)
  obtain c n' q where q: "timed_read_buf ''v2 identity read'' dl (now h1) n = (c, n', q)" by (metis prod_cases3)
  note turn = "1.prems"(1) [unfolded read_v2_identity_frame.simps [of dl h] d prod.case]
  show ?case
  proof (cases "d = Inr None \<and> dl - now h1 \<noteq> 0 \<and> (\<exists>bs. q = Inr bs \<and> bs \<noteq> [])")
    case False
    then show ?thesis
      using turn h1 q n by (auto simp: Let_def split: sum.splits option.splits if_splits)
  next
    case True
    then obtain bs where bs: "q = Inr bs" "bs \<noteq> []" by auto
    from True have dn: "d = Inr None" by simp
    show ?thesis
      using "1.IH" [OF d [unfolded dn, symmetric] refl refl _ n q [symmetric] refl bs(1) refl bs(2)] turn True bs q n
      by (simp add: Let_def)
  qed
qed

lemmas alive_rules = send_bytes_alive send_command_alive fill_buffer_alive read_command_alive read_v2_alive

definition lives :: "(('h, 't) ZmtpProtocolHandlerX \<times> 'a) run \<Rightarrow> bool" where
  "lives x \<longleftrightarrow> (\<forall>h r. x = Returned (h, r) \<longrightarrow> alive h)"

lemma lives_simps [simp]: "lives (Returned (h, r)) = alive h" "lives Panicked" "lives Spinning"
  by (simp_all add: lives_def)

lemma security_loop_alive: "alive h \<Longrightarrow> lives (security_loop n X h)"
proof (induction n arbitrary: h)
  case (Suc n)
  have sent: "alive h'" if "send_handshake_command_frame c (g\<lparr>security_mechanism := m\<rparr>) = (h', r)" "alive g" for c g m h' r
    using send_command_alive [OF that(1)] that(2) by simp
  have got: "alive h'" if "read_handshake_command_frame d (h\<lparr>security_mechanism := m\<rparr>) = (h', r)" for d m h' r
    using read_command_alive [OF that] Suc.prems by simp
  have reply: "lives (case send_handshake_command_frame c (g\<lparr>security_mechanism := m\<rparr>) of
      (h', Inl e) \<Rightarrow> Returned (h', Inl e) | (h', Inr _) \<Rightarrow> security_loop n X h')" if "alive g" for c g m
    using that by (auto split: prod.split sum.split intro: Suc.IH dest: sent)
  let ?m = "security_mechanism h"
  show ?case
  proof (cases "mech_is_complete ?m \<or> mech_is_error ?m")
    case True
    then show ?thesis using Suc.prems by (auto split: sum.split prod.split)
  next
    case False
    note go = security_loop.simps(2) [of n X h] if_not_P [OF conjunct1 [OF False [unfolded de_Morgan_disj]]]
      if_not_P [OF conjunct2 [OF False [unfolded de_Morgan_disj]]]
    consider "mech_produce_token X ?m = None" | m e where "mech_produce_token X ?m = Some (m, Inl e)"
      | m t where "mech_produce_token X ?m = Some (m, Inr (Some t))" | (wait) m where "mech_produce_token X ?m = Some (m, Inr None)"
      by (metis option.exhaust old.sum.exhaust surj_pair)
    then show ?thesis
    proof cases
      case wait
      obtain g c where g: "read_handshake_command_frame (now h + operation_timeout h) (h\<lparr>security_mechanism := m\<rparr>) = (g, c)"
        by fastforce
      show ?thesis
      proof (cases c)
        case (Inl e)
        then show ?thesis unfolding go wait using g got by simp
      next
        case (Inr msg)
        have "alive g" using got [OF g] .
        then show ?thesis
          unfolding go wait using g Inr
          by (auto split: option.split prod.split sum.split ProcessTokenAction.split intro: Suc.IH dest: sent)
      qed
    qed (unfold go, use Suc.prems reply in simp_all)
  qed
qed simp

lemma perform_security_alive: "alive h \<Longrightarrow> lives (perform_security_handshake_step X h)"
  by (auto simp: perform_security_handshake_step_def security_loop_alive split: option.split sum.split)

lemma advance_alive:
  assumes "advance_handshake X h = Returned (h', r)" "alive h"
  shows "alive h'"
proof (cases "sub_phase (handshake_state h)")
  case GreetingExchange
  with assms show ?thesis
    by (auto simp: advance_handshake_def send_signature_def split: prod.splits sum.splits dest: alive_rules)
next
  case WaitingForPeerRevision
  with assms show ?thesis
    by (auto simp: advance_handshake_def wait_for_peer_revision_def read_peer_signature_and_peek_revision_def
        write_v2_tail_and_advance_def write_v3_tail_and_advance_def
        split: prod.splits sum.splits if_splits option.splits dest!: alive_rules)
next
  case WaitingForGreeting
  with assms show ?thesis
    by (auto simp: advance_handshake_def receive_greeting_def Let_def
        split: prod.splits sum.splits if_splits option.splits dest!: alive_rules)
next
  case SecurityHandshake
  with assms perform_security_alive [OF assms(2), of X] show ?thesis by (simp add: advance_handshake_def)
next
  case ReadyExchange
  with assms show ?thesis
    by (auto simp: advance_handshake_def perform_ready_exchange_step_def record_peer_socket_type_def Let_def
        split: prod.splits sum.splits if_splits option.splits ZmtpCommand.splits dest!: alive_rules)
next
  case ClientSentReady
  with assms show ?thesis
    by (auto simp: advance_handshake_def client_receive_peer_ready_def record_peer_socket_type_def Let_def
        split: prod.splits sum.splits if_splits option.splits ZmtpCommand.splits dest!: alive_rules)
next
  case ServerReceivedReady
  with assms show ?thesis
    by (auto simp: advance_handshake_def server_send_ready_def Let_def split: prod.splits sum.splits dest!: alive_rules)
next
  case V2IdentityExchange
  with assms show ?thesis
    by (auto simp: advance_handshake_def exchange_v2_identity_def consume_peer_v2_greeting_def send_empty_identity_frame_v2_def Let_def
        split: prod.splits sum.splits if_splits option.splits dest!: alive_rules)
next
  case HsDone
  with assms show ?thesis by (simp add: advance_handshake_def)
qed


section \<open>What the data phase leaves alone\<close>

text \<open>The part of a handler that neither reading nor writing of data changes.\<close>

definition session_facts where
  "session_facts h = (config h, is_server h, handshake_state h, negotiated_version h, ivl (heartbeat_state h), hb_timeout (heartbeat_state h), alive h)"

lemma session_facts_simps [simp]:
  "session_facts (h\<lparr>network_read_buffer := b\<rparr>) = session_facts h" "session_facts (h\<lparr>framer := f\<rparr>) = session_facts h"
  "session_facts (activity h) = session_facts h" "session_facts (h\<lparr>now := c\<rparr>) = session_facts h"
  "session_facts (h\<lparr>cork_info := ci\<rparr>) = session_facts h"
  "alive h \<Longrightarrow> session_facts (h\<lparr>stream := Some n\<rparr>) = session_facts h"
  "session_facts (h\<lparr>heartbeat_state := pong_received (heartbeat_state h)\<rparr>) = session_facts h"
  "session_facts (h\<lparr>heartbeat_state := ping_sent t (heartbeat_state h)\<rparr>) = session_facts h"
  by (simp_all add: session_facts_def activity_def record_activity_def pong_received_def ping_sent_def)

lemma session_factsD:
  assumes "session_facts h' = session_facts h"
  shows "handshake_state h' = handshake_state h" "negotiated_version h' = negotiated_version h" "alive h' = alive h"
    "config h' = config h" "ivl (heartbeat_state h') = ivl (heartbeat_state h)" "hb_timeout (heartbeat_state h') = hb_timeout (heartbeat_state h)"
  using assms by (simp_all add: session_facts_def)

lemma read_data_turn:
  assumes "stream h = Some n" "length (network_read_buffer h) \<le> MAX_BUFFER_SIZE"
    and "framer_try_read_msg X (framer h) (network_read_buffer h) = (f, b, q)"
  shows "read_data_frame X h =
    (case q of
       Inr (Some msg) \<Rightarrow> (activity (h\<lparr>framer := f, network_read_buffer := b\<rparr>), Some (Inr (Some msg)))
     | Inl e \<Rightarrow> (h\<lparr>framer := f, network_read_buffer := b\<rparr>, Some (Inl e))
     | Inr None \<Rightarrow>
         (case rx n of
            [] \<Rightarrow> (h\<lparr>framer := f, network_read_buffer := b\<rparr>, None)
          | (t, Inl kind) # rest \<Rightarrow>
              (h\<lparr>framer := f, network_read_buffer := b, stream := Some (n\<lparr>rx := rest\<rparr>), now := max (now h) t\<rparr>,
               Some (Inl (from_io_endpoint kind ''data read'')))
          | (t, Inr bs) # rest \<Rightarrow>
              let h' = h\<lparr>framer := f, stream := Some (n\<lparr>rx := rest\<rparr>), now := max (now h) t, network_read_buffer := b @ bs\<rparr>
              in if bs = [] then (h', Some (Inl ConnectionClosed)) else read_data_frame X (activity h')))"
  using assms
  by (auto simp: read_data_frame.simps [of X h] Let_def split: sum.split option.split list.split prod.split)

lemma read_data_facts: "read_data_frame X h = (h', r) \<Longrightarrow> session_facts h' = session_facts h"
proof (induction X h rule: read_data_frame.induct)
  case (1 X h)
  show ?case
  proof (cases "stream h")
    case None
    then show ?thesis using "1.prems" by (simp add: read_data_frame.simps [of X h])
  next
    case (Some n)
    then have al: "alive h" by (simp add: alive_def)
    obtain f b q where q: "framer_try_read_msg X (framer h) (network_read_buffer h) = (f, b, q)" by (metis prod_cases3)
    show ?thesis
    proof (cases "length (network_read_buffer h) \<le> MAX_BUFFER_SIZE")
      case False
      then show ?thesis using "1.prems" Some by (simp add: read_data_frame.simps [of X h])
    next
      case True
      note turn = "1.prems" [unfolded read_data_turn [OF Some True q]]
      show ?thesis
      proof (cases "\<exists>t bs rest. q = Inr None \<and> rx n = (t, Inr bs) # rest \<and> bs \<noteq> []")
        case False
        then show ?thesis
          using turn al by (auto simp: Let_def split: sum.splits option.splits list.splits prod.splits if_splits)
      next
        case go: True
        then obtain t bs rest where g: "q = Inr None" "rx n = (t, Inr bs) # rest" "bs \<noteq> []" by blast
        have lim: "\<not> MAX_BUFFER_SIZE < length (network_read_buffer h)" using True by simp
        let ?h = "activity (h\<lparr>framer := f, stream := Some (n\<lparr>rx := rest\<rparr>), now := max (now h) t, network_read_buffer := b @ bs\<rparr>)"
        have "session_facts h' = session_facts ?h"
          using "1.IH" [OF Some lim q [symmetric] refl refl g(1) refl g(2) refl refl refl g(3)] turn g by simp
        then show ?thesis using al by simp
      qed
    qed
  qed
qed

lemma cork_handler_kept [simp]:
  "session_facts (cork_handler b h) = session_facts h" "now (cork_handler b h) = now h"
  "heartbeat_state (cork_handler b h) = heartbeat_state h" "network_read_buffer (cork_handler b h) = network_read_buffer h"
  "framer (cork_handler b h) = framer h"
  by (auto simp: cork_handler_def alive_def split: option.split prod.split)

lemma cork_handler_stream:
  "stream (cork_handler b h) = None \<longleftrightarrow> stream h = None"
  "stream h = Some n \<Longrightarrow> \<exists>n'. stream (cork_handler b h) = Some n' \<and> tx n' = tx n \<and> rx n' = rx n \<and> write_results n' = write_results n"
  by (auto simp: cork_handler_def apply_cork_state_def Let_def split: option.split prod.split if_splits)

lemma uncork_kept [simp]:
  "session_facts (uncork_after_write h) = session_facts h" "now (uncork_after_write h) = now h"
  "heartbeat_state (uncork_after_write h) = heartbeat_state h" "network_read_buffer (uncork_after_write h) = network_read_buffer h"
  "framer (uncork_after_write h) = framer h"
  by (auto simp: uncork_after_write_def Let_def split: option.split)

lemma write_data_facts:
  "write_data_msgs X msgs h = (h', r) \<Longrightarrow> session_facts h' = session_facts h \<and> now h' = now h"
proof -
  assume w: "write_data_msgs X msgs h = (h', r)"
  show ?thesis
  proof (cases "msgs = [] \<or> stream h = None")
    case True
    then show ?thesis using w by (auto simp: write_data_msgs_def split: if_splits)
  next
    case False
    then have al: "alive h" by (simp add: alive_def)
    obtain f q where q: "framer_write_msg_multipart X (framer h) msgs = (f, q)" by fastforce
    show ?thesis
    proof (cases q)
      case (Inl e)
      then show ?thesis using w q False by (auto simp: write_data_msgs_def)
    next
      case (Inr bs)
      let ?g = "cork_handler True (h\<lparr>framer := f\<rparr>)"
      have g: "session_facts ?g = session_facts h" "alive ?g" using al by (simp_all add: alive_def cork_handler_stream(1) del: not_None_eq)
      from g(2) obtain n where n: "stream ?g = Some n" by (auto simp: alive_def)
      obtain n' wr where t: "timed_write_all ''data write'' bs n = (n', wr)" by fastforce
      from w q Inr n t False
      have "h' = ?g\<lparr>stream := Some n'\<rparr> \<or> h' = uncork_after_write (activity (?g\<lparr>stream := Some n'\<rparr>))"
        by (auto simp: write_data_msgs_def Let_def split: if_splits write_result.splits)
      then show ?thesis using g by (auto simp: session_facts_simps(6) [OF g(2)])
    qed
  qed
qed

lemma write_msg_facts: "write_data_msg X m h = (h', r) \<Longrightarrow> session_facts h' = session_facts h \<and> now h' = now h"
  by (auto simp: write_data_msg_def split: prod.splits sum.splits dest: write_data_facts)

lemma maybe_send_ping_facts:
  "maybe_send_ping X h = (h', r) \<Longrightarrow> session_facts h' = session_facts h \<and> now h' = now h"
  by (auto simp: maybe_send_ping_def split: prod.splits sum.splits if_splits dest: write_msg_facts)

lemma process_heartbeat_facts:
  "process_heartbeat_command m h = (h', r) \<Longrightarrow> session_facts h' = session_facts h"
  by (auto simp: process_heartbeat_command_def split: option.splits ZmtpCommand.splits)


section \<open>Phases of the actor\<close>

text \<open>What the session told its socket: nothing, or the peer's identity once and then the data frames in order.\<close>

definition told :: "nat \<Rightarrow> ('h, 't) SessionConnectionActorX \<Rightarrow> bool" where
  "told r a \<longleftrightarrow> (\<exists>i st ms. (\<forall>m \<in> set ms. \<not> is_command m) \<and>
    sca_outputs a = PeerIdentityEstablished (parent_socket_id a) r i st # map (PipeMessageReceived r) ms)"

definition sca_inv :: "('h, 't) SessionConnectionActorX \<Rightarrow> bool" where
  "sca_inv a \<longleftrightarrow>
    (is_attached (core_pipe_manager a) \<longrightarrow> core_pipe_read_id_for_incoming_routing (core_pipe_manager a) \<noteq> None \<and>
       rx_from_core (core_pipe_manager a) \<noteq> None) \<and>
    (case current_phase a of
       Initial \<Rightarrow> False
     | HandshakeInProgress \<Rightarrow> alive (zmtp_handler a) \<and> sca_outputs a = []
     | WaitingForPipes \<Rightarrow> alive (zmtp_handler a) \<and> sca_outputs a = [] \<and> is_handshake_complete (zmtp_handler a) \<and>
         \<not> is_attached (core_pipe_manager a)
     | Operational \<Rightarrow> alive (zmtp_handler a) \<and> is_handshake_complete (zmtp_handler a) \<and> is_attached (core_pipe_manager a) \<and>
         (\<exists>r. core_pipe_read_id_for_incoming_routing (core_pipe_manager a) = Some r \<and> told r a)
     | ShuttingDownStream \<Rightarrow> sca_outputs a = [] \<or> (\<exists>r. told r a)
     | Terminating \<Rightarrow> (sca_outputs a = [] \<or> (\<exists>r. told r a)) \<and> \<not> alive (zmtp_handler a) \<and> \<not> is_attached (core_pipe_manager a))"

lemma shutdown_kept:
  "initiate_stream_shutdown h = (h', r) \<Longrightarrow> \<not> alive h' \<and> handshake_state h' = handshake_state h \<and> r = Inr () \<and> now h' = now h"
  by (auto simp: initiate_stream_shutdown_def clear_handshake_state_def Let_def alive_def
      split: option.splits prod.splits if_splits)

lemma shutdown_fst [simp]:
  "\<not> alive (fst (initiate_stream_shutdown h))" "handshake_state (fst (initiate_stream_shutdown h)) = handshake_state h"
  "now (fst (initiate_stream_shutdown h)) = now h"
  using shutdown_kept [of h] by (metis prod.collapse)+

lemma shutdown_stream [simp]: "stream (fst (initiate_stream_shutdown h)) = None"
  using shutdown_fst(1) [of h] by (simp add: alive_def)

lemma transition_simps [simp]:
  "current_phase (transition_to_shutdown_stream e a) = (if current_phase a = Terminating then Terminating else ShuttingDownStream)"
  "sca_outputs (transition_to_shutdown_stream e a) = sca_outputs a"
  "parent_socket_id (transition_to_shutdown_stream e a) = parent_socket_id a"
  "core_pipe_manager (transition_to_shutdown_stream e a) = core_pipe_manager a"
  "zmtp_handler (transition_to_shutdown_stream e a) = zmtp_handler a"
  by (auto simp: transition_to_shutdown_stream_def Let_def split: option.split)

lemma fatal_simps [simp]:
  "current_phase (set_fatal_error e a) = (if current_phase a = Terminating then Terminating else ShuttingDownStream)"
  "sca_outputs (set_fatal_error e a) = sca_outputs a" "parent_socket_id (set_fatal_error e a) = parent_socket_id a"
  "core_pipe_manager (set_fatal_error e a) = core_pipe_manager a"
  "zmtp_handler (set_fatal_error e a) = fst (initiate_stream_shutdown (zmtp_handler a))"
  by (auto simp: set_fatal_error_def Let_def)

lemma told_cong:
  "sca_outputs a' = sca_outputs a \<Longrightarrow> parent_socket_id a' = parent_socket_id a \<Longrightarrow> told r a' = told r a"
  by (simp add: told_def)

text \<open>Every state of the loop, whatever becomes of the stream, may be shut down.\<close>

lemma sca_inv_shut:
  assumes "sca_inv a" "current_phase a' = (if current_phase a = Terminating then Terminating else ShuttingDownStream)"
    "sca_outputs a' = sca_outputs a" "parent_socket_id a' = parent_socket_id a" "core_pipe_manager a' = core_pipe_manager a"
    "\<not> alive (zmtp_handler a) \<Longrightarrow> \<not> alive (zmtp_handler a')"
  shows "sca_inv a'"
  using assms told_cong [OF assms(3,4)]
  by (auto simp: sca_inv_def split: ConnectionPhaseX.splits if_splits)

lemma sca_inv_fatal: "sca_inv a \<Longrightarrow> sca_inv (set_fatal_error e a)"
  by (rule sca_inv_shut) simp_all

lemma sca_inv_transition: "sca_inv a \<Longrightarrow> sca_inv (transition_to_shutdown_stream e a)"
  by (rule sca_inv_shut) simp_all

lemma sca_inv_handler:
  assumes "sca_inv a" "session_facts h = session_facts (zmtp_handler a)"
  shows "sca_inv (a\<lparr>zmtp_handler := h\<rparr>)"
  using assms session_factsD [OF assms(2)]
  by (auto simp: sca_inv_def is_handshake_complete_def told_def split: ConnectionPhaseX.splits)

lemma sca_inv_checked:
  assumes "sca_inv (a\<lparr>core_pipe_manager := pipe_manager_new\<rparr>)" "current_phase a = WaitingForPipes"
    and "is_attached (core_pipe_manager a) \<Longrightarrow> core_pipe_read_id_for_incoming_routing (core_pipe_manager a) \<noteq> None \<and>
      rx_from_core (core_pipe_manager a) \<noteq> None"
  shows "sca_inv (check_and_transition_to_operational a)"
proof (cases "is_attached (core_pipe_manager a)")
  case True
  with assms(3) obtain r where "core_pipe_read_id_for_incoming_routing (core_pipe_manager a) = Some r" by auto
  with True assms show ?thesis
    by (auto simp: check_and_transition_to_operational_def Let_def sca_inv_def told_def is_handshake_complete_def)
next
  case False
  with assms show ?thesis
    by (auto simp: check_and_transition_to_operational_def Let_def sca_inv_def)
qed

lemma sca_inv_command:
  assumes "sca_inv a" "current_phase a \<noteq> ShuttingDownStream" "current_phase a \<noteq> Terminating"
  shows "sca_inv (process_command c a)"
proof (cases c)
  case (ScaInitializePipes hid route)
  let ?a = "a\<lparr>core_pipe_manager := pm_attach route (core_pipe_manager a)\<rparr>"
  show ?thesis
  proof (cases "sca_handle a \<noteq> hid \<or> is_attached (core_pipe_manager a)")
    case False
    then have at: "is_attached (core_pipe_manager ?a)" "core_pipe_read_id_for_incoming_routing (core_pipe_manager ?a) = Some route"
      "rx_from_core (core_pipe_manager ?a) = Some ()" by (simp_all add: pm_attach_def)
    have ph: "current_phase a = HandshakeInProgress \<or> current_phase a = WaitingForPipes"
      using assms False by (auto simp: sca_inv_def split: ConnectionPhaseX.splits)
    show ?thesis
    proof (cases "current_phase a = WaitingForPipes \<or> is_handshake_complete (zmtp_handler a)")
      case True
      have "sca_inv (check_and_transition_to_operational (?a\<lparr>current_phase := WaitingForPipes\<rparr>))"
        by (rule sca_inv_checked) (use True False assms at in \<open>auto simp: sca_inv_def pipe_manager_new_def split: ConnectionPhaseX.splits\<close>)
      moreover have same: "?a\<lparr>current_phase := WaitingForPipes\<rparr> = ?a" if "current_phase a = WaitingForPipes"
        using that by simp
      moreover have "process_command c a = check_and_transition_to_operational (?a\<lparr>current_phase := WaitingForPipes\<rparr>)"
        using True False ph ScaInitializePipes by (auto simp: process_command_def Let_def same)
      ultimately show ?thesis by simp
    next
      case nc: False
      then show ?thesis
        using False assms ScaInitializePipes at by (auto simp: process_command_def Let_def sca_inv_def told_def split: ConnectionPhaseX.splits)
    qed
  qed (use assms ScaInitializePipes in \<open>auto simp: process_command_def\<close>)
qed (use assms sca_inv_transition in \<open>simp_all add: process_command_def\<close>)

lemma sca_inv_progress:
  assumes "sca_inv a" "current_phase a = HandshakeInProgress"
  shows "sca_inv (handle_handshake_progression p a)"
proof -
  have finish: "sca_inv (if is_handshake_complete (zmtp_handler b)
      then check_and_transition_to_operational (b\<lparr>current_phase := WaitingForPipes, handshake_deadline := None\<rparr>) else b)"
    if "sca_inv b" "current_phase b = HandshakeInProgress" for b :: "('a, 'b) SessionConnectionActorX"
  proof (cases "is_handshake_complete (zmtp_handler b)")
    case True
    have "sca_inv (check_and_transition_to_operational (b\<lparr>current_phase := WaitingForPipes, handshake_deadline := None\<rparr>))"
      by (rule sca_inv_checked) (use True that in \<open>auto simp: sca_inv_def pipe_manager_new_def\<close>)
    with True show ?thesis by simp
  qed (use that in simp)
  have "sca_inv (a\<lparr>pending_peer_identity_from_handshake := i\<rparr>)" for i using assms by (simp add: sca_inv_def)
  then show ?thesis
    using assms finish [of a] finish [of "a\<lparr>pending_peer_identity_from_handshake := Some i\<rparr>" for i] sca_inv_fatal [OF assms(1)]
    by (cases p) (simp_all add: handle_handshake_progression_def Let_def)
qed

lemma sca_inv_incoming:
  assumes "sca_inv a" "current_phase a = Operational"
  shows "\<exists>a'. handle_incoming_from_network X D m a = Some a' \<and> sca_inv a'"
proof -
  from assms obtain r where r: "core_pipe_read_id_for_incoming_routing (core_pipe_manager a) = Some r" "told r a"
    by (auto simp: sca_inv_def)
  let ?b = "a\<lparr>sca_outputs := sca_outputs a @ [PipeMessageReceived r m]\<rparr>"
  have cmd: "sca_inv (case process_heartbeat_command m (zmtp_handler a) of
      (h, Inr (Some pong)) \<Rightarrow> (case write_data_msg X pong h of
          (h, Inl e) \<Rightarrow> set_fatal_error e (a\<lparr>zmtp_handler := h\<rparr>) | (h, Inr _) \<Rightarrow> a\<lparr>zmtp_handler := h\<rparr>)
    | (h, Inr None) \<Rightarrow> a\<lparr>zmtp_handler := h\<rparr>
    | (h, Inl e) \<Rightarrow> set_fatal_error e (a\<lparr>zmtp_handler := h\<rparr>))"
    using assms(1) by (auto split: prod.split sum.split option.split
        dest!: process_heartbeat_facts write_msg_facts intro!: sca_inv_fatal sca_inv_handler)
  have "sca_inv ?b" if "\<not> is_command m"
  proof -
    from r(2) obtain i st ms where "\<forall>m \<in> set ms. \<not> is_command m"
      "sca_outputs a = PeerIdentityEstablished (parent_socket_id a) r i st # map (PipeMessageReceived r) ms"
      by (auto simp: told_def)
    with that have "told r ?b" unfolding told_def by (intro exI [of _ i] exI [of _ st] exI [of _ "ms @ [m]"]) auto
    then show ?thesis using assms r by (auto simp: sca_inv_def)
  qed
  then show ?thesis
    using r cmd sca_inv_fatal [OF assms(1)] sca_inv_fatal [of ?b]
    by (auto simp: handle_incoming_from_network_def Let_def split: sum.split)
qed

lemma sca_inv_network:
  assumes "sca_inv a" "current_phase a = HandshakeInProgress \<or> current_phase a = Operational"
    and "network_arm X D a = Returned a'"
  shows "sca_inv a'"
proof -
  have failed: "sca_inv (if e = ConnectionClosed then transition_to_shutdown_stream (Some ConnectionClosed) b else set_fatal_error e b)"
    if "sca_inv b" for e and b :: "('a, 'b) SessionConnectionActorX"
    using that by (simp add: sca_inv_fatal sca_inv_transition)
  show ?thesis
  proof (cases "current_phase a = HandshakeInProgress")
    case True
    have keep: "sca_inv (a\<lparr>zmtp_handler := h\<rparr>)" if "advance_handshake X (zmtp_handler a) = Returned (h, q)" for h q
      using advance_alive [OF that] assms(1) True by (auto simp: sca_inv_def)
    show ?thesis
      using assms(3) True by (auto simp: network_arm_def Let_def split: run.splits prod.splits sum.splits if_splits
          dest: keep intro!: failed sca_inv_progress sca_inv_fatal sca_inv_transition)
  next
    case False
    then have op: "current_phase a = Operational" using assms(2) by simp
    have keep: "sca_inv (a\<lparr>zmtp_handler := h\<rparr>)" if "read_data_frame X (zmtp_handler a) = (h, q)" for h q
      using read_data_facts [OF that] assms(1) by (intro sca_inv_handler) simp_all
    have inc: "sca_inv b" if "read_data_frame X (zmtp_handler a) = (h, q)"
        "handle_incoming_from_network X D m (a\<lparr>zmtp_handler := h\<rparr>) = Some b" for h q m b
      using sca_inv_incoming [OF keep [OF that(1)], of X D m] op that(2) by auto
    show ?thesis
      using assms(3) False by (auto simp: network_arm_def Let_def split: prod.splits sum.splits option.splits if_splits
          dest: keep inc intro!: failed sca_inv_fatal sca_inv_transition)
  qed
qed

lemma sca_inv_arm:
  assumes "sca_inv a" "current_phase a \<noteq> ShuttingDownStream" "current_phase a \<noteq> Terminating" "arm_enabled t ev a"
    and "take_arm X D t ev a = Returned a'"
  shows "sca_inv a'"
proof -
  define b where "b = a\<lparr>zmtp_handler := (zmtp_handler a)\<lparr>now := max (now (zmtp_handler a)) t\<rparr>\<rparr>"
  have b: "sca_inv b" "current_phase b = current_phase a" using assms(1) by (simp_all add: b_def sca_inv_handler)
  have timer: "sca_inv (c\<lparr>ping_check_timer := x\<rparr>)" if "sca_inv c" for c :: "('a, 'b) SessionConnectionActorX" and x
    using that by (auto simp: sca_inv_def told_def split: ConnectionPhaseX.splits)
  have h: "sca_inv (c\<lparr>zmtp_handler := g\<rparr>)" if "sca_inv c" "session_facts g = session_facts (zmtp_handler c)"
    for c :: "('a, 'b) SessionConnectionActorX" and g using that by (rule sca_inv_handler)
  note arms = assms(5) [unfolded take_arm_def b_def [symmetric] Let_def]
  show ?thesis
  proof (cases ev)
    case (CommandReceived c)
    then show ?thesis using arms sca_inv_command [OF b(1)] b(2) assms(2,3) by auto
  next
    case (SystemEventReceived e)
    then show ?thesis using arms b(1) by (cases e) (auto simp: process_system_event_def intro: sca_inv_transition)
  next
    case PingTick
    then show ?thesis
      using arms b(1) by (auto split: prod.splits sum.splits dest!: maybe_send_ping_facts intro!: sca_inv_fatal h timer)
  next
    case NetworkReady
    then show ?thesis using arms sca_inv_network [OF b(1)] b(2) assms(4) by (auto simp: arm_enabled_def)
  next
    case (FromCore msgs)
    then show ?thesis
      using arms b(1) by (auto split: prod.splits sum.splits dest!: write_data_facts intro!: sca_inv_fatal h)
  qed (use arms b(1) in \<open>auto intro: sca_inv_fatal sca_inv_transition\<close>)
qed

lemma cleanup_inv:
  assumes "sca_inv a" "current_phase a = ShuttingDownStream"
  shows "sca_inv (perform_graceful_shutdown a) \<and> current_phase (perform_graceful_shutdown a) = Terminating"
proof -
  obtain h r where h: "initiate_stream_shutdown (zmtp_handler a) = (h, r)" by fastforce
  with shutdown_kept [OF h] have r: "r = Inr ()" "stream h = None" by (auto simp: alive_def)
  have "sca_outputs a = [] \<or> (\<exists>r. told r a)" using assms by (simp add: sca_inv_def)
  then show ?thesis
    using h r by (auto simp: perform_graceful_shutdown_def perform_final_cleanup_actions_def detach_and_clear_pipes_def sca_inv_def
        told_def alive_def)
qed

lemma sca_inv_step: "sca_step X D a a' \<Longrightarrow> sca_inv a \<Longrightarrow> sca_inv a'"
  by (elim sca_stepE) (use cleanup_inv sca_inv_arm in blast)+

lemma sca_inv_create: "sca_inv (sca_create own parent uri mon n fd srv cfg clock)"
  by (simp add: sca_inv_def sca_create_def pipe_manager_new_def handler_new_def alive_def)

lemma sca_inv_reachable:
  "(sca_step X D)\<^sup>*\<^sup>* (sca_create own parent uri mon n fd srv cfg clock) a \<Longrightarrow> sca_inv a"
  by (induction rule: rtranclp_induct) (auto intro: sca_inv_step sca_inv_create)


section \<open>From the first byte to an operational session\<close>

lemma handshake_turn:
  assumes "current_phase a = HandshakeInProgress" "alive (zmtp_handler a)"
    and "advance_handshake X (zmtp_handler a) = Returned (h, Inr p)"
  shows "sca_step X D a (handle_handshake_progression p (a\<lparr>zmtp_handler := h\<rparr>))"
proof (rule arm [where t = 0 and ev = NetworkReady])
  have same: "a\<lparr>zmtp_handler := zmtp_handler a\<lparr>now := now (zmtp_handler a)\<rparr>\<rparr> = a" by simp
  show "take_arm X D 0 NetworkReady a = Returned (handle_handshake_progression p (a\<lparr>zmtp_handler := h\<rparr>))"
    using assms same by (simp add: take_arm_def network_arm_def Let_def)
qed (use assms in \<open>simp_all add: arm_enabled_def alive_def\<close>)

text \<open>The progress reports of a handshake that goes well.\<close>

definition going_well :: "ZmtpHandshakeProgressX \<Rightarrow> bool" where
  "going_well p \<longleftrightarrow> (case p of ProtocolError \<Rightarrow> False | FatalError e \<Rightarrow> False | _ \<Rightarrow> True)"

lemma going_well_simps [simp]:
  "going_well InProgress" "going_well (IdentityReady b)" "going_well ProgressComplete" "going_well (progress_of_identity i)"
  by (simp_all add: going_well_def progress_of_identity_def split: option.split)

lemma security_loop_progress: "security_loop n X h = Returned (h', Inr p) \<Longrightarrow> going_well p"
proof (induction n arbitrary: h)
  case (Suc n)
  then show ?case
    by (auto split: if_splits option.splits sum.splits prod.splits ProcessTokenAction.splits)
qed simp

lemma advance_progress: "advance_handshake X h = Returned (h', Inr p) \<Longrightarrow> going_well p"
  by (auto simp: advance_handshake_def send_signature_def wait_for_peer_revision_def write_v2_tail_and_advance_def
      write_v3_tail_and_advance_def receive_greeting_def perform_security_handshake_step_def perform_ready_exchange_step_def
      client_receive_peer_ready_def server_send_ready_def exchange_v2_identity_def Let_def
      split: HandshakeSubPhaseX.splits prod.splits sum.splits if_splits option.splits ZmtpCommand.splits
      dest: security_loop_progress)

lemma progression_open:
  assumes "going_well p" "current_phase a = HandshakeInProgress" "\<not> is_handshake_complete (zmtp_handler a)"
  shows "\<exists>i. handle_handshake_progression p a = a\<lparr>pending_peer_identity_from_handshake := i\<rparr>"
proof -
  have same: "\<exists>i. a = a\<lparr>pending_peer_identity_from_handshake := i\<rparr>"
    by (rule exI [of _ "pending_peer_identity_from_handshake a"]) simp
  show ?thesis
    using assms by (cases p) (auto simp: handle_handshake_progression_def going_well_def intro: same)
qed

lemma progression_done:
  assumes "going_well p" "current_phase a = HandshakeInProgress" "is_handshake_complete (zmtp_handler a)"
    and "is_attached (core_pipe_manager a)" "core_pipe_read_id_for_incoming_routing (core_pipe_manager a) = Some r"
  shows "\<exists>i. let a' = handle_handshake_progression p a in current_phase a' = Operational \<and> zmtp_handler a' = zmtp_handler a \<and>
    core_pipe_manager a' = core_pipe_manager a \<and>
    sca_outputs a' = sca_outputs a @ [PeerIdentityEstablished (parent_socket_id a) r i (peer_socket_type (handshake_state (zmtp_handler a)))]"
  using assms
  by (cases p) (auto simp: handle_handshake_progression_def check_and_transition_to_operational_def Let_def going_well_def
      is_handshake_complete_def)

lemma actor_runs_handshake:
  assumes "run_handshake n X (zmtp_handler a) = Returned (h, Inr ())" "\<not> is_handshake_complete (zmtp_handler a)"
    and "current_phase a = HandshakeInProgress" "alive (zmtp_handler a)"
    and "is_attached (core_pipe_manager a)" "core_pipe_read_id_for_incoming_routing (core_pipe_manager a) = Some r"
  shows "\<exists>a' i. (sca_step X D)\<^sup>*\<^sup>* a a' \<and> current_phase a' = Operational \<and> zmtp_handler a' = h \<and>
    core_pipe_manager a' = core_pipe_manager a \<and>
    sca_outputs a' = sca_outputs a @ [PeerIdentityEstablished (parent_socket_id a) r i (peer_socket_type (handshake_state h))]"
  using assms
proof (induction n arbitrary: a)
  case (Suc n)
  from Suc.prems(1,2) obtain g p where g: "advance_handshake X (zmtp_handler a) = Returned (g, Inr p)" "run_handshake n X g = Returned (h, Inr ())"
    by (auto split: run.splits prod.splits sum.splits)
  let ?b = "a\<lparr>zmtp_handler := g\<rparr>"
  let ?c = "handle_handshake_progression p ?b"
  have step: "sca_step X D a ?c" by (rule handshake_turn [OF Suc.prems(3,4) g(1)])
  show ?case
  proof (cases "is_handshake_complete g")
    case True
    then have "g = h" using g(2) by (cases n) auto
    with progression_done [OF advance_progress [OF g(1)], of ?b r] Suc.prems True obtain i where
      "current_phase ?c = Operational" "zmtp_handler ?c = h" "core_pipe_manager ?c = core_pipe_manager a"
      "sca_outputs ?c = sca_outputs a @ [PeerIdentityEstablished (parent_socket_id a) r i (peer_socket_type (handshake_state h))]"
      by (auto simp: Let_def)
    with step show ?thesis by (intro exI [of _ ?c] exI [of _ i]) simp
  next
    case False
    with progression_open [OF advance_progress [OF g(1)], of ?b] Suc.prems(3) obtain i where
      c: "?c = ?b\<lparr>pending_peer_identity_from_handshake := i\<rparr>" by auto
    from Suc.IH [of ?c] g(2) False Suc.prems(3-6) advance_alive [OF g(1)] c obtain a' j where
      "(sca_step X D)\<^sup>*\<^sup>* ?c a'" "current_phase a' = Operational" "zmtp_handler a' = h" "core_pipe_manager a' = core_pipe_manager a"
      "sca_outputs a' = sca_outputs a @ [PeerIdentityEstablished (parent_socket_id a) r j (peer_socket_type (handshake_state h))]"
      by auto
    with converse_rtranclp_into_rtranclp [where r = "sca_step X D", OF step] show ?thesis by (intro exI [of _ a'] exI [of _ j]) simp
  qed
qed simp

lemma session_operational:
  assumes "matching cfg cfg'" and "lists_entries Y" and "socket_type_code (cfg_socket_type_name cfg') \<noteq> None"
    and "data_of (rx n) = session_wire Y cfg' (\<not> srv) @ rest"
    and "timely (handler_new n fd cfg srv clock :: ('h, 't) ZmtpProtocolHandlerX)"
    and "\<forall>c \<in> set (session_frames Y cfg' (\<not> srv)). fits cfg c"
  shows "\<exists>(a :: ('h, 't) SessionConnectionActorX) i.
    (sca_step X D)\<^sup>*\<^sup>* (process_command (ScaInitializePipes own route) (sca_create own parent uri mon n fd srv cfg clock)) a \<and>
    current_phase a = Operational \<and> avail (zmtp_handler a) = rest \<and> written (zmtp_handler a) = tx n @ session_wire X cfg srv \<and>
    sca_outputs a = [PeerIdentityEstablished parent route i (Some (str (cfg_socket_type_name cfg')))]"
proof -
  let ?a = "process_command (ScaInitializePipes own route) (sca_create own parent uri mon n fd srv cfg clock) :: ('h, 't) SessionConnectionActorX"
  from session_completes [OF assms, of X] obtain h :: "('h, 't) ZmtpProtocolHandlerX" where
    h: "run_handshake 8 X (handler_new n fd cfg srv clock) = Returned (h, Inr ())"
    "written h = tx n @ session_wire X cfg srv" "avail h = rest" "peer_socket_type (handshake_state h) = Some (str (cfg_socket_type_name cfg'))"
    by blast
  have a: "zmtp_handler ?a = handler_new n fd cfg srv clock" "current_phase ?a = HandshakeInProgress" "sca_outputs ?a = []"
    "parent_socket_id ?a = parent" "is_attached (core_pipe_manager ?a)" "core_pipe_read_id_for_incoming_routing (core_pipe_manager ?a) = Some route"
    by (simp_all add: process_command_def sca_create_def Let_def pipe_manager_new_def pm_attach_def is_handshake_complete_def
        handler_new_def handshake_state_new_def)
  from actor_runs_handshake [of 8 X ?a h route D] h(1) a obtain a' i where
    "(sca_step X D)\<^sup>*\<^sup>* ?a a'" "current_phase a' = Operational" "zmtp_handler a' = h"
    "sca_outputs a' = [PeerIdentityEstablished parent route i (peer_socket_type (handshake_state h))]"
    by (auto simp: is_handshake_complete_def handler_new_def handshake_state_new_def alive_def)
  with h show ?thesis by (intro exI [of _ a'] exI [of _ i]) simp
qed

lemma attach_turn:
  assumes "current_phase a \<noteq> ShuttingDownStream" "current_phase a \<noteq> Terminating"
  shows "sca_step X D a (process_command c a)"
proof (rule arm [where t = 0 and ev = "CommandReceived c"])
  have same: "a\<lparr>zmtp_handler := zmtp_handler a\<lparr>now := now (zmtp_handler a)\<rparr>\<rparr> = a" by simp
  show "take_arm X D 0 (CommandReceived c) a = Returned (process_command c a)"
    using same by (simp add: take_arm_def)
qed (use assms in \<open>simp_all add: arm_enabled_def\<close>)

text \<open>A session between two peers with the same PLAIN credentials, which becomes operational.\<close>

lemma example_operational:
  "\<exists>x y (a :: (bool \<times> nat \<times> bytes option, unit) SessionConnectionActorX) i.
    session_wire example_env (example_plain_peer ''PUSH'') False = x @ y \<and>
    (sca_step example_env (\<lambda>_ _. Inr ()))\<^sup>*\<^sup>* (sca_create 1 2 ''tcp://'' True (chunked_net 5 [x, y]) 3 True (example_plain_peer ''PULL'') 0) a \<and>
    current_phase a = Operational \<and> sca_outputs a = [PeerIdentityEstablished 2 4 i (Some (str ''PUSH''))]"
proof -
  obtain x y where xy: "session_wire example_env (example_plain_peer ''PUSH'') False = x @ y" "x \<noteq> []" "y \<noteq> []"
    using example_wire_chunks by blast
  have data: "data_of (rx (chunked_net 5 [x, y])) = session_wire example_env (example_plain_peer ''PUSH'') (\<not> True) @ []"
    using xy data_of_chunks by simp
  let ?s = "sca_create 1 2 ''tcp://'' True (chunked_net 5 [x, y]) 3 True (example_plain_peer ''PULL'') 0 :: (bool \<times> nat \<times> bytes option, unit) SessionConnectionActorX"
  have step: "sca_step example_env (\<lambda>_ _. Inr ()) ?s (process_command (ScaInitializePipes 1 4) ?s)"
    by (rule attach_turn) (simp_all add: sca_create_def)
  from session_operational [OF example_matching example_lists_entries _ data example_timely [OF xy(2,3)],
      where X = example_env and D = "\<lambda>_ _. Inr ()" and own = 1 and route = 4 and parent = 2 and uri = "''tcp://''" and mon = True]
    example_fits obtain a :: "(bool \<times> nat \<times> bytes option, unit) SessionConnectionActorX" and i where
    "(sca_step example_env (\<lambda>_ _. Inr ()))\<^sup>*\<^sup>* (process_command (ScaInitializePipes 1 4) ?s) a"
    "current_phase a = Operational" "sca_outputs a = [PeerIdentityEstablished 2 4 i (Some (str ''PUSH''))]"
    by (fastforce simp: socket_type_code_def)
  with converse_rtranclp_into_rtranclp [where r = "sca_step example_env (\<lambda>_ _. Inr ())", OF step] xy(1) show ?thesis by metis
qed


lemma operational_no_panic:
  assumes "sca_inv a" "current_phase a = Operational"
  shows "take_arm X D t ev a \<noteq> Panicked"
proof (cases "ev = NetworkReady")
  case True
  let ?b = "a\<lparr>zmtp_handler := (zmtp_handler a)\<lparr>now := max (now (zmtp_handler a)) t\<rparr>\<rparr>"
  obtain h q where h: "read_data_frame X (zmtp_handler ?b) = (h, q)" by fastforce
  have "sca_inv (?b\<lparr>zmtp_handler := h\<rparr>)"
    using assms(1) read_data_facts [OF h] by (intro sca_inv_handler) simp_all
  from sca_inv_incoming [OF this, of X D] assms(2)
  have some: "handle_incoming_from_network X D m (a\<lparr>zmtp_handler := h\<rparr>) \<noteq> None" for m by fastforce
  show ?thesis
    using assms(2) True h by (auto simp: some take_arm_def network_arm_def Let_def split: option.split sum.split)
qed (auto simp: take_arm_def Let_def split: sca_event.split prod.split sum.split)


section \<open>In every reachable state\<close>

text \<open>
  C3. In every state a session actor reaches, whatever arrives and in whatever order the loop takes its
  arms: data is exchanged only after a complete handshake, over an open stream and with the socket's
  pipe attached; the socket has been told nothing, or first the peer's identity, exactly once, and
  then data frames only, each under the identifier of its pipe; no arm of an operational session panics; and
  a terminated session has closed its stream and given back its pipe.
\<close>

theorem session_actor_invariant:
  assumes "(sca_step X D)\<^sup>*\<^sup>* (sca_create own parent uri mon n fd srv cfg clock) a"
  shows "(current_phase a = WaitingForPipes \<or> current_phase a = Operational \<longrightarrow>
      is_handshake_complete (zmtp_handler a) \<and> stream (zmtp_handler a) \<noteq> None) \<and>
    (current_phase a = Operational \<longrightarrow>
      (\<exists>r. core_pipe_read_id_for_incoming_routing (core_pipe_manager a) = Some r \<and> told r a) \<and>
      (\<forall>t ev. take_arm X D t ev a \<noteq> Panicked)) \<and>
    (sca_outputs a = [] \<or> (\<exists>r. told r a)) \<and>
    (current_phase a = Terminating \<longrightarrow> stream (zmtp_handler a) = None \<and> \<not> is_attached (core_pipe_manager a))"
proof -
  have inv: "sca_inv a" using assms by (rule sca_inv_reachable)
  have "take_arm X D t ev a \<noteq> Panicked" if "current_phase a = Operational" for t ev
    using operational_no_panic [OF inv that] .
  with inv show ?thesis by (auto simp: sca_inv_def alive_def split: ConnectionPhaseX.splits)
qed

theorem session_actor_invariant_witness:
  "\<exists>a :: (bool \<times> nat \<times> bytes option, unit) SessionConnectionActorX.
    current_phase a = Operational \<and> is_handshake_complete (zmtp_handler a) \<and> (\<exists>r. told r a)"
proof -
  obtain x y i and a :: "(bool \<times> nat \<times> bytes option, unit) SessionConnectionActorX" where
    "(sca_step example_env (\<lambda>_ _. Inr ()))\<^sup>*\<^sup>* (sca_create 1 2 ''tcp://'' True (chunked_net 5 [x, y]) 3 True (example_plain_peer ''PULL'') 0) a"
    "current_phase a = Operational"
    using example_operational by blast
  from session_actor_invariant [OF this(1)] this(2) show ?thesis by blast
qed



section \<open>A dead peer\<close>

text \<open>No complete message is buffered; writing does not change that.\<close>

fun framer_idle :: "'t SecureFramer \<Rightarrow> bytes \<Rightarrow> bool" where
  "framer_idle (FNull f) b = (decode_from_buffer (null_parser f) b = (null_parser f, b, Inr None))"
| "framer_idle (FCurve f) b = (decode_from_buffer (lp_parser f) (decrypted_buffer f) = (lp_parser f, decrypted_buffer f, Inr None) \<and>
     \<not> complete_frame b)"
| "framer_idle (FNoise f) b = (decode_from_buffer (lp_parser f) (decrypted_buffer f) = (lp_parser f, decrypted_buffer f, Inr None) \<and>
     \<not> complete_frame b)"

lemma framer_idle_read: "framer_idle f b \<Longrightarrow> framer_try_read_msg X f b = (f, b, Inr None)"
  by (cases f) (simp_all add: null_try_read_msg_def lp_try_read_msg_turn)

lemma framer_idle_write:
  "framer_write_msg_multipart X f msgs = (f', r) \<Longrightarrow> framer_idle f b \<Longrightarrow> framer_idle f' b"
  by (cases f) (auto simp: null_write_msg_multipart_def lp_write_msg_multipart_def apfst_def map_prod_def
      split: prod.splits sum.splits)

definition silent :: "('h, 't) ZmtpProtocolHandlerX \<Rightarrow> bool" where
  "silent h \<longleftrightarrow> (\<exists>n. stream h = Some n \<and> rx n = []) \<and> framer_idle (framer h) (network_read_buffer h) \<and>
    length (network_read_buffer h) \<le> MAX_BUFFER_SIZE"

lemma silent_read:
  assumes "silent h"
  shows "read_data_frame X h = (h, None)"
proof -
  from assms obtain n where n: "stream h = Some n" "rx n = []" "length (network_read_buffer h) \<le> MAX_BUFFER_SIZE"
    by (auto simp: silent_def)
  have "framer_try_read_msg X (framer h) (network_read_buffer h) = (framer h, network_read_buffer h, Inr None)"
    using assms by (simp add: silent_def framer_idle_read)
  from read_data_turn [OF n(1,3) this] n(2) show ?thesis by simp
qed

text \<open>The answer to a PING sent at a given time is outstanding.\<close>

definition awaiting :: "nat \<Rightarrow> duration \<Rightarrow> ('h, 't) ZmtpProtocolHandlerX \<Rightarrow> bool" where
  "awaiting sent limit h \<longleftrightarrow> silent h \<and> waiting_for_pong (heartbeat_state h) \<and> last_ping_sent_time (heartbeat_state h) = Some sent \<and>
    hb_timeout (heartbeat_state h) = limit"

lemma written_stream:
  "timed_write_all ep bs n = (n', r) \<Longrightarrow> rx n' = rx n"
  by (auto simp: timed_write_all_def Let_def split: write_result.splits)

lemma silent_cork [simp]: "silent (cork_handler b h) = silent h"
  using cork_handler_stream(1) [of b h] cork_handler_stream(2) [of h _ b] by (cases "stream h") (fastforce simp: silent_def)+

lemma silent_simps [simp]:
  "silent (activity h) = silent h" "silent (h\<lparr>cork_info := ci\<rparr>) = silent h" "silent (h\<lparr>heartbeat_state := hb\<rparr>) = silent h"
  "silent (h\<lparr>now := c\<rparr>) = silent h"
  by (simp_all add: silent_def activity_def)

lemma silent_uncork [simp]: "silent (uncork_after_write h) = silent h"
  by (auto simp: uncork_after_write_def Let_def split: option.split)

lemma write_data_quiet:
  assumes "write_data_msgs X msgs h = (h', r)" "silent h"
  shows "silent h' \<and> waiting_for_pong (heartbeat_state h') = waiting_for_pong (heartbeat_state h) \<and>
    last_ping_sent_time (heartbeat_state h') = last_ping_sent_time (heartbeat_state h)"
proof (cases "msgs = []")
  case True
  then show ?thesis using assms by (auto simp: write_data_msgs_def)
next
  case False
  obtain f q where q: "framer_write_msg_multipart X (framer h) msgs = (f, q)" by fastforce
  have f: "silent (h\<lparr>framer := f\<rparr>)" using assms(2) framer_idle_write [OF q] by (simp add: silent_def)
  have st: "stream h \<noteq> None" using assms(2) by (auto simp: silent_def)
  show ?thesis
  proof (cases q)
    case (Inl e)
    then show ?thesis using assms q f False st by (auto simp: write_data_msgs_def)
  next
    case (Inr bs)
    let ?g = "cork_handler True (h\<lparr>framer := f\<rparr>)"
    have g: "silent ?g" using f by simp
    then obtain n where n: "stream ?g = Some n" by (auto simp: silent_def)
    obtain n' wr where t: "timed_write_all ''data write'' bs n = (n', wr)" by fastforce
    have "silent (?g\<lparr>stream := Some n'\<rparr>)" using g n written_stream [OF t] by (auto simp: silent_def)
    moreover from assms(1) q Inr n t False st
    have "h' = ?g\<lparr>stream := Some n'\<rparr> \<or> h' = uncork_after_write (activity (?g\<lparr>stream := Some n'\<rparr>))"
      by (auto simp: write_data_msgs_def Let_def split: if_splits write_result.splits)
    ultimately show ?thesis by (auto simp: activity_def record_activity_def)
  qed
qed

lemma awaiting_step:
  assumes "sca_step X D a b" "current_phase a = Operational" "awaiting sent limit (zmtp_handler a)"
  shows "(current_phase b = Operational \<and> awaiting sent limit (zmtp_handler b)) \<or> current_phase b = ShuttingDownStream"
  using assms(1)
proof (cases rule: sca_step.cases)
  case (arm t ev)
  define c where "c = a\<lparr>zmtp_handler := (zmtp_handler a)\<lparr>now := max (now (zmtp_handler a)) t\<rparr>\<rparr>"
  have c: "current_phase c = Operational" "awaiting sent limit (zmtp_handler c)"
    using assms by (simp_all add: c_def awaiting_def)
  note arms = arm(4) [unfolded take_arm_def c_def [symmetric] Let_def]
  show ?thesis
  proof (cases ev)
    case (CommandReceived x)
    then show ?thesis
      using arms c by (cases x) (auto simp: process_command_def Let_def split: if_splits)
  next
    case (SystemEventReceived x)
    then show ?thesis using arms c by (cases x) (auto simp: process_system_event_def split: if_splits)
  next
    case PingTick
    have "maybe_send_ping X (zmtp_handler c) = (zmtp_handler c, Inr ())"
      using c by (simp add: maybe_send_ping_def should_send_ping_def awaiting_def)
    then show ?thesis using PingTick arms c by auto
  next
    case NetworkReady
    have "read_data_frame X (zmtp_handler c) = (zmtp_handler c, None)"
      using c by (simp add: silent_read awaiting_def)
    then show ?thesis using NetworkReady arms c by (auto simp: network_arm_def Let_def)
  next
    case (FromCore msgs)
    obtain h r where h: "write_data_msgs X msgs (zmtp_handler c) = (h, r)" by fastforce
    have "awaiting sent limit h"
      using write_data_quiet [OF h] write_data_facts [OF h] c by (auto simp: awaiting_def dest: session_factsD(6))
    then show ?thesis using FromCore arms c h by (auto split: sum.splits)
  qed (use arms c in \<open>auto split: if_splits\<close>)
qed (use assms in simp)

lemma closing_step:
  "sca_step X D a b \<Longrightarrow> current_phase a = ShuttingDownStream \<or> current_phase a = Terminating \<Longrightarrow> current_phase b = Terminating"
  by (elim sca_stepE)
    (auto simp: perform_graceful_shutdown_def perform_final_cleanup_actions_def Let_def split: prod.splits sum.splits)

lemma awaiting_reachable:
  assumes "(sca_step X D)\<^sup>*\<^sup>* a b" "current_phase a = Operational" "awaiting sent limit (zmtp_handler a)"
  shows "(current_phase b = Operational \<and> awaiting sent limit (zmtp_handler b)) \<or> current_phase b = ShuttingDownStream \<or>
    current_phase b = Terminating"
  using assms(1)
proof (induction rule: rtranclp_induct)
  case base
  then show ?case using assms by simp
next
  case (step b c)
  then show ?case using awaiting_step closing_step by metis
qed

lemma pong_timeout_ends:
  assumes "current_phase a = Operational" "awaiting sent limit (zmtp_handler a)" "sent + limit \<le> t"
  shows "arm_enabled t PongTimeout a \<and> (\<exists>b. take_arm X D t PongTimeout a = Returned b \<and> current_phase b = ShuttingDownStream \<and>
    error_for_drop_guard b \<noteq> None \<and> stream (zmtp_handler b) = None)"
proof -
  have err: "error_for_drop_guard (set_fatal_error e c) \<noteq> None" for e and c :: "('a, 'b) SessionConnectionActorX"
    by (auto simp: set_fatal_error_def transition_to_shutdown_stream_def Let_def)
  have "has_pong_timed_out (heartbeat_state (zmtp_handler a)) (max (now (zmtp_handler a)) t)"
    using assms by (auto simp: has_pong_timed_out_def awaiting_def)
  then show ?thesis
    using assms err [of Timeout]
    by (auto simp: arm_enabled_def take_arm_def Let_def awaiting_def get_pong_deadline_def simp del: not_None_eq)
qed


definition example_idle_session :: "(bool \<times> nat \<times> bytes option, unit) SessionConnectionActorX" where
  "example_idle_session = (sca_create 1 2 ''tcp://'' False (chunked_net 0 []) 3 True
     ((example_plain_peer ''PULL'')\<lparr>cfg_heartbeat_ivl := Some 10\<rparr>) 0)\<lparr>current_phase := Operational\<rparr>"


end
