(* ===== verification/Session_Data.thy ===== *)
theory Session_Data
  imports Session_Life
begin

text \<open>
  The data phase of a session: the messages that one session's actor writes are the messages
  that the peer's actor hands to its socket, and what the buffer limit of the data path does to long ones.
\<close>

section \<open>The framers as decoders\<close>

fun framer_weight :: "('h, 't) env \<Rightarrow> 't SecureFramer \<Rightarrow> bytes \<Rightarrow> nat" where
  "framer_weight X (FNull f) b = manual_weight (null_parser f) b"
| "framer_weight X (FCurve f) b = lp_weight (curve_cipher (env_dryoc X)) f b"
| "framer_weight X (FNoise f) b = lp_weight (noise_cipher (env_snow X)) f b"

lemma apfst_eq_iff: "apfst k p = (x, y) \<longleftrightarrow> (\<exists>z. p = (z, y) \<and> x = k z)"
  by (cases p) auto

lemma null_try_read_eq:
  "null_try_read_msg f b = (f', b', r) \<longleftrightarrow> (\<exists>p. decode_from_buffer (null_parser f) b = (p, b', r) \<and> f' = f\<lparr>null_parser := p\<rparr>)"
  by (auto simp: null_try_read_msg_def split: prod.splits)

lemma null_more:
  "null_try_read_msg f b = (f', b', Inr None) \<Longrightarrow> null_try_read_msg f (b @ x) = null_try_read_msg f' (b' @ x)"
  by (auto simp: null_try_read_eq dest!: manual.dec_more [where c = x]) (simp add: null_try_read_msg_def)

interpretation framed: incremental_decoder "framer_try_read_msg X" "framer_weight X" for X :: "('h, 't) env"
proof
  fix s s' :: "'t SecureFramer" and b b' x :: bytes and e m
  show "framer_try_read_msg X s b = (s', b', Inl e) \<Longrightarrow> framer_try_read_msg X s (b @ x) = (s', b' @ x, Inl e)"
    by (cases s) (auto simp: apfst_eq_iff null_try_read_eq dest: manual.dec_error lp.dec_error)
  show "framer_try_read_msg X s b = (s', b', Inr (Some m)) \<Longrightarrow> framer_try_read_msg X s (b @ x) = (s', b' @ x, Inr (Some m))"
    by (cases s) (auto simp: apfst_eq_iff null_try_read_eq dest: manual.dec_item lp.dec_item)
  show "framer_try_read_msg X s b = (s', b', Inr None) \<Longrightarrow> framer_try_read_msg X s (b @ x) = framer_try_read_msg X s' (b' @ x)"
    by (cases s) (auto simp: apfst_eq_iff dest!: null_more [where x = x] lp.dec_more [where c = x])
  show "framer_try_read_msg X s b = (s', b', Inr (Some m)) \<Longrightarrow> framer_weight X s' b' < framer_weight X s b"
    by (cases s) (auto simp: apfst_eq_iff null_try_read_eq dest: manual.dec_weight lp.dec_weight)
qed

text \<open>Framers only ever consume input.\<close>

lemma decode_consumes: "decode_from_buffer p b = (p', b', r) \<Longrightarrow> length b' \<le> length b"
  by (auto simp: manual_defs split: ManualDecodingState.splits option.splits if_splits dest!: frame_header_length)

lemma lp_consumes: "lp_try_read_msg C f b = (f', b', r) \<Longrightarrow> length b' \<le> length b"
proof (induction "length b" arbitrary: f b rule: less_induct)
  case less
  obtain p d q where d: "decode_from_buffer (lp_parser f) (decrypted_buffer f) = (p, d, q)" by (rule prod_cases3)
  show ?case
  proof (cases "complete_frame b \<and> q = Inr None")
    case False
    then show ?thesis using less.prems d by (auto simp: lp_try_read_msg_turn [of C f b] split: sum.splits option.splits)
  next
    case True
    then have "complete_frame b" by simp
    note short = after_frame_shorter [OF this]
    show ?thesis
      using less.prems d True short by (fastforce simp: lp_try_read_msg_turn [of C f b] split: sum.splits prod.splits dest: less.hyps [OF short])
  qed
qed

lemma framer_consumes: "framer_try_read_msg X f b = (f', b', r) \<Longrightarrow> length b' \<le> length b"
  by (cases f) (auto simp: apfst_eq_iff null_try_read_eq dest: decode_consumes lp_consumes)


section \<open>Reading\<close>

text \<open>The stream is open and delivers bytes, in chunks of any sizes and at any times.\<close>

definition flowing :: "('h, 't) ZmtpProtocolHandlerX \<Rightarrow> bool" where
  "flowing h \<longleftrightarrow> (\<exists>n. stream h = Some n \<and> (\<forall>(t, r) \<in> set (rx n). \<exists>b bs. r = Inr (b # bs)))"

lemma read_data_delivers:
  "framer_try_read_msg X (framer h) (avail h) = (f, rest, Inr (Some m)) \<Longrightarrow> flowing h \<Longrightarrow> length (avail h) \<le> MAX_BUFFER_SIZE \<Longrightarrow>
    \<exists>h'. read_data_frame X h = (h', Some (Inr (Some m))) \<and> framer h' = f \<and> avail h' = rest \<and> flowing h'"
proof (induction X h rule: read_data_frame.induct)
  case (1 X h)
  from "1.prems"(2) obtain n where n: "stream h = Some n" "\<forall>(t, r) \<in> set (rx n). \<exists>b bs. r = Inr (b # bs)" by (auto simp: flowing_def)
  have av: "avail h = network_read_buffer h @ data_of (rx n)" using n by (simp add: avail_def)
  have lim: "length (network_read_buffer h) \<le> MAX_BUFFER_SIZE" using "1.prems"(3) av by simp
  then have lim': "\<not> MAX_BUFFER_SIZE < length (network_read_buffer h)" by simp
  obtain f1 b q where q: "framer_try_read_msg X (framer h) (network_read_buffer h) = (f1, b, q)" by (metis prod_cases3)
  note turn = read_data_turn [OF n(1) lim q]
  consider e where "q = Inl e" | m' where "q = Inr (Some m')" | "q = Inr None" by (metis old.sum.exhaust option.exhaust)
  then show ?case
  proof cases
    case 1
    then show ?thesis using "1.prems"(1) framed.dec_error [of X _ _ f1 b e "data_of (rx n)"] q av by auto
  next
    case 2
    then have "f = f1" "rest = b @ data_of (rx n)" "m' = m"
      using "1.prems"(1) framed.dec_item [of X _ _ f1 b m' "data_of (rx n)"] q av by auto
    then show ?thesis using turn 2 n by (auto simp: avail_def flowing_def activity_def)
  next
    case 3
    then have more: "framer_try_read_msg X f1 (b @ data_of (rx n)) = (f, rest, Inr (Some m))"
      using "1.prems"(1) framed.dec_more [of X _ _ f1 b "data_of (rx n)"] q av by auto
    show ?thesis
    proof (cases "rx n")
      case Nil
      then show ?thesis using more framed.dec_more [of X "framer h" "network_read_buffer h" f1 b "[]"] q 3 by simp
    next
      case (Cons e es)
      then obtain t x xs where e: "e = (t, Inr (x # xs))" using n(2) by (cases e) auto
      let ?h = "activity (h\<lparr>framer := f1, stream := Some (n\<lparr>rx := es\<rparr>), now := max (now h) t, network_read_buffer := b @ x # xs\<rparr>)"
      have h: "avail ?h = b @ data_of (rx n)" "framer ?h = f1" "flowing ?h"
        using Cons e n(2) by (simp_all add: avail_def flowing_def activity_def)
      have "length (avail ?h) \<le> MAX_BUFFER_SIZE" using "1.prems"(3) framer_consumes [OF q] av h(1) by simp
      from "1.IH" [OF n(1) lim' q [symmetric] refl refl 3 refl Cons [unfolded e] refl refl refl, simplified] more this h
      show ?thesis using turn 3 Cons e by simp
    qed
  qed
qed

lemma now_same: "a\<lparr>zmtp_handler := zmtp_handler a\<lparr>now := now (zmtp_handler a)\<rparr>\<rparr> = a"
  by simp

text \<open>One message from the stream to the socket.\<close>

lemma actor_reads_one:
  assumes "current_phase a = Operational" "core_pipe_read_id_for_incoming_routing (core_pipe_manager a) = Some r"
    and "framer_try_read_msg X (framer (zmtp_handler a)) (avail (zmtp_handler a)) = (f, rest, Inr (Some m))"
    and "flowing (zmtp_handler a)" "length (avail (zmtp_handler a)) \<le> MAX_BUFFER_SIZE" "\<not> is_command m" "D r m = Inr ()"
  shows "\<exists>a'. sca_step X D a a' \<and> current_phase a' = Operational \<and> core_pipe_manager a' = core_pipe_manager a \<and>
    framer (zmtp_handler a') = f \<and> avail (zmtp_handler a') = rest \<and> flowing (zmtp_handler a') \<and>
    sca_outputs a' = sca_outputs a @ [PipeMessageReceived r m]"
proof -
  from read_data_delivers [OF assms(3-5)] obtain h where
    h: "read_data_frame X (zmtp_handler a) = (h, Some (Inr (Some m)))" "framer h = f" "avail h = rest" "flowing h" by blast
  let ?a = "a\<lparr>zmtp_handler := h, sca_outputs := sca_outputs a @ [PipeMessageReceived r m]\<rparr>"
  have "sca_step X D a ?a"
  proof (rule arm [where t = 0 and ev = NetworkReady])
    show "take_arm X D 0 NetworkReady a = Returned ?a"
      using assms h now_same [of a] by (simp add: take_arm_def network_arm_def handle_incoming_from_network_def Let_def)
  qed (use assms in \<open>auto simp: arm_enabled_def flowing_def\<close>)
  with h assms(1) show ?thesis by (intro exI [of _ ?a]) simp
qed

lemma actor_reads:
  assumes "drain (framer_try_read_msg X) k (framer (zmtp_handler a)) (avail (zmtp_handler a)) = (f, rest, ms, None)"
    and "current_phase a = Operational" "core_pipe_read_id_for_incoming_routing (core_pipe_manager a) = Some r"
    and "flowing (zmtp_handler a)" "length (avail (zmtp_handler a)) \<le> MAX_BUFFER_SIZE"
    and "\<forall>m \<in> set ms. \<not> is_command m \<and> D r m = Inr ()"
  shows "\<exists>a'. (sca_step X D)\<^sup>*\<^sup>* a a' \<and> current_phase a' = Operational \<and>
    sca_outputs a' = sca_outputs a @ map (PipeMessageReceived r) ms"
  using assms
proof (induction k arbitrary: a ms)
  case 0
  then show ?case by (intro exI [of _ a]) simp
next
  case (Suc k)
  obtain f1 b q where q: "framer_try_read_msg X (framer (zmtp_handler a)) (avail (zmtp_handler a)) = (f1, b, q)" by (metis prod_cases3)
  show ?case
  proof (cases "\<exists>m. q = Inr (Some m)")
    case True
    then obtain m where m: "q = Inr (Some m)" ..
    with Suc.prems(1) q obtain ms' where ms: "ms = m # ms'" "drain (framer_try_read_msg X) k f1 b = (f, rest, ms', None)"
      by (auto split: prod.splits)
    from actor_reads_one [OF Suc.prems(2,3) q [unfolded m] Suc.prems(4,5)] Suc.prems(6) ms obtain a1 where
      a1: "sca_step X D a a1" "current_phase a1 = Operational" "core_pipe_manager a1 = core_pipe_manager a" "framer (zmtp_handler a1) = f1"
      "avail (zmtp_handler a1) = b" "flowing (zmtp_handler a1)" "sca_outputs a1 = sca_outputs a @ [PipeMessageReceived r m]" by fastforce
    have "length b \<le> MAX_BUFFER_SIZE" using framer_consumes [OF q] Suc.prems(5) by simp
    with Suc.IH [of a1 ms'] ms a1 Suc.prems(3,6) obtain a' where
      "(sca_step X D)\<^sup>*\<^sup>* a1 a'" "current_phase a' = Operational" "sca_outputs a' = sca_outputs a @ map (PipeMessageReceived r) ms"
      by auto
    with converse_rtranclp_into_rtranclp [where r = "sca_step X D", OF a1(1)] show ?thesis by blast
  next
    case False
    then have "ms = []" using Suc.prems(1) q by (auto split: sum.splits option.splits)
    then show ?thesis using Suc.prems(2) by (intro exI [of _ a]) simp
  qed
qed


section \<open>Writing\<close>

text \<open>A session whose stream accepts everything and whose messages are not encrypted.\<close>

definition sending :: "('h, 't) SessionConnectionActorX \<Rightarrow> bool" where
  "sending a \<longleftrightarrow> current_phase a = Operational \<and> is_attached (core_pipe_manager a) \<and> rx_from_core (core_pipe_manager a) \<noteq> None \<and>
    (\<exists>f. framer (zmtp_handler a) = FNull f) \<and> (\<exists>n. stream (zmtp_handler a) = Some n \<and> write_results n = [])"

lemma uncork_stream:
  "stream h = Some n \<Longrightarrow> \<exists>n'. stream (uncork_after_write h) = Some n' \<and> tx n' = tx n \<and> rx n' = rx n \<and> write_results n' = write_results n"
  using cork_handler_stream(2) [of h n False] by (auto simp: uncork_after_write_def Let_def split: option.splits)

lemma write_data_plain:
  assumes "framer h = FNull f" "stream h = Some n" "write_results n = []"
  shows "\<exists>h' n'. write_data_msgs X msgs h = (h', Inr ()) \<and> framer h' = FNull f \<and> stream h' = Some n' \<and> write_results n' = [] \<and>
    tx n' = tx n @ fold encode msgs []"
proof (cases "msgs = []")
  case True
  then show ?thesis using assms by (auto simp: write_data_msgs_def)
next
  case False
  have same: "h\<lparr>framer := FNull f\<rparr> = h" using assms(1) by simp
  let ?g = "cork_handler True h"
  obtain n1 where n1: "stream ?g = Some n1" "tx n1 = tx n" "write_results n1 = []"
    using cork_handler_stream(2) [OF assms(2), of True] assms(3) by auto
  let ?n = "n1\<lparr>write_results := [], tx := tx n @ fold encode msgs []\<rparr>"
  have w: "timed_write_all ''data write'' (fold encode msgs []) n1 = (?n, Inr ())"
    using n1 by (simp add: timed_write_all_def next_write_result_def Let_def)
  let ?h = "uncork_after_write (activity (?g\<lparr>stream := Some ?n\<rparr>))"
  have "write_data_msgs X msgs h = (?h, Inr ())"
    using False assms n1 w by (simp add: write_data_msgs_def null_write_msg_multipart_def Let_def next_write_result_def same)
  moreover obtain n' where "stream ?h = Some n'" "tx n' = tx ?n" "write_results n' = []"
    using uncork_stream [of "activity (?g\<lparr>stream := Some ?n\<rparr>)" ?n] by auto
  ultimately show ?thesis using assms(1) by (intro exI [of _ ?h] exI [of _ n']) (simp add: activity_def)
qed

lemma actor_writes:
  "sending a \<Longrightarrow> \<exists>a'. (sca_step X D)\<^sup>*\<^sup>* a a' \<and> sending a' \<and> written (zmtp_handler a') = written (zmtp_handler a) @ fold encode (concat batches) []"
proof (induction batches arbitrary: a)
  case Nil
  then show ?case by (intro exI [of _ a]) simp
next
  case (Cons msgs batches)
  from Cons.prems obtain f n where a: "framer (zmtp_handler a) = FNull f" "stream (zmtp_handler a) = Some n" "write_results n = []"
    by (auto simp: sending_def)
  obtain h n' where h: "write_data_msgs X msgs (zmtp_handler a) = (h, Inr ())" "framer h = FNull f" "stream h = Some n'" "write_results n' = []"
    "tx n' = tx n @ fold encode msgs []" using write_data_plain [OF a, of X msgs] by blast
  let ?a = "a\<lparr>zmtp_handler := h\<rparr>"
  have step: "sca_step X D a ?a"
  proof (rule arm [where t = 0 and ev = "FromCore msgs"])
    show "take_arm X D 0 (FromCore msgs) a = Returned ?a" using h(1) now_same [of a] by (simp add: take_arm_def)
  qed (use Cons.prems in \<open>simp_all add: arm_enabled_def sending_def\<close>)
  have "sending ?a" using Cons.prems h by (simp add: sending_def)
  from Cons.IH [OF this] obtain a' where
    a': "(sca_step X D)\<^sup>*\<^sup>* ?a a'" "sending a'" "written (zmtp_handler a') = written h @ fold encode (concat batches) []" by auto
  have "written (zmtp_handler a') = written (zmtp_handler a) @ fold encode (concat (msgs # batches)) []"
    using a'(3) h a by (simp add: written_def fold_encode)
  with converse_rtranclp_into_rtranclp [where r = "sca_step X D", OF step a'(1)] a'(2) show ?case by blast
qed


definition example_session :: "bytes list \<Rightarrow> (bool \<times> nat \<times> bytes option, unit) SessionConnectionActorX" where
  "example_session chunks = (sca_create 1 2 ''tcp://'' False (chunked_net 0 chunks) 3 True (example_plain_peer ''PULL'') 0)
     \<lparr>current_phase := Operational, core_pipe_manager := pm_attach 4 pipe_manager_new\<rparr>"

lemma example_session_simps [simp]:
  "current_phase (example_session cs) = Operational" "sca_outputs (example_session cs) = []"
  "core_pipe_read_id_for_incoming_routing (core_pipe_manager (example_session cs)) = Some 4"
  "framer (zmtp_handler (example_session cs)) = FNull (null_framer_new (-1))"
  "stream (zmtp_handler (example_session cs)) = Some (chunked_net 0 cs)" "network_read_buffer (zmtp_handler (example_session cs)) = []"
  by (simp_all add: example_session_def sca_create_def handler_new_def pm_attach_def pipe_manager_new_def)

lemma example_session_sending: "sending (example_session cs)"
  by (simp add: sending_def chunked_net_def) (simp add: example_session_def pm_attach_def pipe_manager_new_def)



section \<open>Messages longer than the read buffer\<close>

lemma decode_item_size: "decode_from_buffer p b = (p', b', Inr (Some m)) \<Longrightarrow> msg_size m \<le> length b"
  by (auto simp: manual_defs split: ManualDecodingState.splits option.splits if_splits dest!: frame_header_length)

lemma long_message_read:
  "framer h = FNull f \<Longrightarrow> decode_from_buffer (null_parser f) (avail h) = (p, rest, Inr (Some m)) \<Longrightarrow>
    stream h = Some n \<Longrightarrow> \<forall>(t, r) \<in> set (rx n). \<exists>b bs. r = Inr (b # bs) \<and> length (b # bs) \<le> k \<Longrightarrow>
    MAX_BUFFER_SIZE + k < msg_size m \<Longrightarrow> length (network_read_buffer h) \<le> MAX_BUFFER_SIZE + k \<Longrightarrow>
    \<exists>h'. read_data_frame X h = (h', Some (Inl ResourceLimitReached))"
proof (induction X h arbitrary: f n rule: read_data_frame.induct)
  case (1 X h)
  note h = "1.prems"
  show ?case
  proof (cases "MAX_BUFFER_SIZE < length (network_read_buffer h)")
    case True
    then show ?thesis using h(3) by (simp add: read_data_frame.simps [of X h])
  next
    case lim: False
    obtain p1 b q where d: "decode_from_buffer (null_parser f) (network_read_buffer h) = (p1, b, q)" by (metis prod_cases3)
    have av: "avail h = network_read_buffer h @ data_of (rx n)" using h(3) by (simp add: avail_def)
    have "q = Inr None"
    proof (rule ccontr)
      assume "q \<noteq> Inr None"
      then consider e where "q = Inl e" | m' where "q = Inr (Some m')" by (metis old.sum.exhaust option.exhaust)
      then show False
      proof cases
        case 1
        then show False using manual.dec_error [OF d [unfolded 1], of "data_of (rx n)"] h(2) av by simp
      next
        case 2
        then have "m' = m" using manual.dec_item [OF d [unfolded 2], of "data_of (rx n)"] h(2) av by simp
        with decode_item_size [OF d [unfolded 2]] h(5,6) show False by simp
      qed
    qed
    note d = d [unfolded this]
    have more: "decode_from_buffer p1 (b @ data_of (rx n)) = (p, rest, Inr (Some m))"
      using manual.dec_more [OF d, of "data_of (rx n)"] h(2) av by simp
    have q: "framer_try_read_msg X (framer h) (network_read_buffer h) = (FNull (f\<lparr>null_parser := p1\<rparr>), b, Inr None)"
      using d h(1) by (simp add: null_try_read_msg_def)
    have le: "length (network_read_buffer h) \<le> MAX_BUFFER_SIZE" using lim by simp
    note turn = read_data_turn [OF h(3) le q]
    show ?thesis
    proof (cases "rx n")
      case Nil
      then show ?thesis using more manual_waiting [OF d] by simp
    next
      case (Cons e es)
      then obtain t x xs where e: "e = (t, Inr (x # xs))" "length (x # xs) \<le> k" using h(4) by (cases e) auto
      let ?f = "f\<lparr>null_parser := p1\<rparr>" and ?n = "n\<lparr>rx := es\<rparr>"
      let ?h = "h\<lparr>framer := FNull ?f, stream := Some ?n, now := max (now h) t, network_read_buffer := b @ x # xs\<rparr>"
      have fr: "framer (activity ?h) = FNull ?f"
        and dec: "decode_from_buffer (null_parser ?f) (avail ?h) = (p, rest, Inr (Some m))"
        and ch: "\<forall>(t, r) \<in> set (rx ?n). \<exists>b bs. r = Inr (b # bs) \<and> Suc (length bs) \<le> k"
        and len: "Suc (length b + length xs) \<le> MAX_BUFFER_SIZE + k"
        using more Cons e h(4) decode_consumes [OF d] le by (simp_all add: avail_def activity_def)
      have "\<exists>h'. read_data_frame X (activity ?h) = (h', Some (Inl ResourceLimitReached))"
        using "1.IH" [OF h(3) lim q [symmetric] refl refl refl refl Cons [unfolded e(1)] refl refl refl, simplified, OF fr dec refl ch h(5) len] .
      then show ?thesis using turn Cons e by simp
    qed
  qed
qed

text \<open>
  C32. A message longer than the read buffer never arrives, whatever ZMQ_MAXMSGSIZE allows: when its frame is
  within the configured limit, or the limit is off, but its payload exceeds 16 MB by more than the size of
  the chunks in which the stream delivers it, reading it fails with ``resource limit reached'', the error
  with which the actor closes the session.
\<close>

theorem long_message_refused:
  assumes "framer h = FNull (null_framer_new limit)" "network_read_buffer h = []" "stream h = Some n"
    and "data_of (rx n) = encode m [] @ rest" "\<forall>(t, r) \<in> set (rx n). \<exists>b bs. r = Inr (b # bs) \<and> length (b # bs) \<le> k"
    and "msg_size m < 2 ^ 64" "limit < 0 \<or> int (msg_size m) \<le> limit" "MAX_BUFFER_SIZE + k < msg_size m"
  shows "\<exists>h'. read_data_frame X h = (h', Some (Inl ResourceLimitReached))"
proof -
  have "avail h = encode m [] @ rest" using assms(2-4) by (simp add: avail_def)
  then have "decode_from_buffer (null_parser (null_framer_new limit)) (avail h) = (manual_new limit, rest, Inr (Some (wire_norm m)))"
    using decode_from_buffer_encode [OF assms(6,7), of rest] by (simp add: null_framer_new_def)
  from long_message_read [OF assms(1) this assms(3,5)] assms(2,8) show ?thesis
    by (simp add: wire_norm_def msg_size_def msg_payload_def split: option.splits)
qed

definition byte_by_byte :: "bytes \<Rightarrow> net" where
  "byte_by_byte bs = \<lparr>rx = map (\<lambda>b. (0, Inr [b])) bs, tx = [], write_results = [], cork_results = []\<rparr>"

lemma byte_by_byte_data: "data_of (rx (byte_by_byte bs)) = bs"
proof -
  have "data_of (map (\<lambda>b. (0, Inr [b])) bs) = bs" by (induction bs) simp_all
  then show ?thesis by (simp add: byte_by_byte_def)
qed

theorem long_message_refused_witness:
  "\<exists>h'. read_data_frame example_env (handler_new (byte_by_byte (encode (msg_from_vec (replicate 17000000 0)) [])) 3
      (example_plain_peer ''PULL'') True 0) = (h', Some (Inl ResourceLimitReached))"
  by (rule long_message_refused [where m = "msg_from_vec (replicate 17000000 0)" and limit = "-1" and k = 1 and rest = "[]"
        and n = "byte_by_byte (encode (msg_from_vec (replicate 17000000 0)) [])"])
    (simp_all add: handler_new_def byte_by_byte_data MAX_BUFFER_SIZE_def msg_size_def, auto simp: byte_by_byte_def msg_from_vec_def)

end
