(* ===== verification/Core_State.thy ===== *)
theory Core_State
  imports Options Orchestrator Load_Balancer
begin

text \<open>
  The state a socket core shares with its socket pattern (\<^verbatim>\<open>core/src/socket/core/state.rs\<close>,
  \<^verbatim>\<open>core/src/socket/core/mod.rs\<close>), the reconnect back-off, and the connections a pattern sends through
  (\<^verbatim>\<open>core/src/socket/connection_iface.rs\<close>, \<^verbatim>\<open>core/src/sessionx/iface.rs\<close>).

  A \<^verbatim>\<open>HashMap\<close> is an association list with distinct keys.  An \<^verbatim>\<open>Arc\<close> to a shared channel is the channel's
  address; the channels themselves are a store from addresses to states of the \<^verbatim>\<open>fibre\<close> channel
  (\<open>chan_ops\<close>).  Mailboxes, tasks and socket types are represented by their numbers.  An instant is a number of
  milliseconds.  The io_uring connection is not modelled.
\<close>

section \<open>Connections\<close>

datatype SocketEvent =
    Listening uri
  | BindFailed uri
  | Accepted uri
  | AcceptFailed uri
  | Connected uri
  | ConnectDelayed uri
  | ConnectRetried uri duration
  | ConnectFailed uri
  | EndpointClosed uri
  | Disconnected uri
  | HandshakeFailed uri
  | HandshakeSucceeded uri

text \<open>What an operation does to the world outside the socket, in the order in which it does it.\<close>

datatype core_effect =
    StopSent nat
  | Monitored SocketEvent
  | PublishedInprocPipePeerClosed string nat
  | PublishedSocketClosing nat
  | TaskAborted nat
  | ListenerSpawned uri nat
  | ConnecterSpawned uri nat
  | ForwarderSpawned nat nat
  | PublishedConnectionAttemptFailed uri ZmqError
  | PublishedInprocBindingRequest string uri nat nat nat
  | PublishedActorStopping nat "ZmqError option"
  | InitializePipesSent nat nat nat
  | Replied "unit res"
  | RepliedMsg "Msg res"
  | RepliedValue "bytes res"
  | InprocReplied "unit res"

record ScaConnectionIface =
  sca_stop_mailbox :: nat
  sca_handle_id :: nat
  pipe_sender :: nat
  pipe_write_id_to_sca :: nat
  sca_sndtimeo :: "duration option"

record InprocConnection =
  connection_id :: nat
  local_pipe_write_id_to_peer :: nat
  local_pipe_read_id_from_peer :: nat
  peer_inproc_name_or_uri :: uri
  data_tx_to_peer :: nat
  inproc_monitor_tx :: bool
  inproc_socket_options :: SocketOptions

datatype ISocketConnection =
  Sca ScaConnectionIface | Inproc InprocConnection | Dummy

type_synonym 'q chans = "nat \<Rightarrow> 'q"

text \<open>
  The asynchronous \<^verbatim>\<open>send\<close> of the channel at an address: it is still pending when the channel is full.
\<close>

definition chan_send ::
  "('q, Msg list) chan_ops \<Rightarrow> nat \<Rightarrow> Msg list \<Rightarrow> 'q chans \<Rightarrow> ('q chans \<times> unit res) option" where
  "chan_send ch c msgs w =
    (case try_send ch msgs (w c) of
       (q, Sent) \<Rightarrow> Some (w(c := q), Inr ())
     | (q, Closed _) \<Rightarrow> Some (w(c := q), Inl ConnectionClosed)
     | (q, Full _) \<Rightarrow> None)"

definition chan_try_send ::
  "('q, Msg list) chan_ops \<Rightarrow> nat \<Rightarrow> Msg list \<Rightarrow> 'q chans \<Rightarrow> 'q chans \<times> unit res" where
  "chan_try_send ch c msgs w =
    (case try_send ch msgs (w c) of
       (q, Sent) \<Rightarrow> (w(c := q), Inr ())
     | (q, Full _) \<Rightarrow> (w(c := q), Inl ResourceLimitReached)
     | (q, Closed _) \<Rightarrow> (w(c := q), Inl ConnectionClosed))"

text \<open>
  The session connection waits for room for \<^verbatim>\<open>SNDTIMEO\<close>, and for 30 seconds where no timeout is set; when
  that time is over the channel was full and the result is the same for both.
\<close>

definition sca_send_multipart ::
  "('q, Msg list) chan_ops \<Rightarrow> ScaConnectionIface \<Rightarrow> Msg list \<Rightarrow> 'q chans \<Rightarrow> 'q chans \<times> unit res" where
  "sca_send_multipart ch c msgs w =
    (if sca_sndtimeo c = Some 0 then chan_try_send ch (pipe_sender c) msgs w
     else
       (case chan_send ch (pipe_sender c) msgs w of
          Some (w', Inr _) \<Rightarrow> (w', Inr ())
        | Some (w', Inl _) \<Rightarrow> (w', Inl ConnectionClosed)
        | None \<Rightarrow> (w, Inl ResourceLimitReached)))"

definition inproc_send_multipart ::
  "('q, Msg list) chan_ops \<Rightarrow> InprocConnection \<Rightarrow> Msg list \<Rightarrow> 'q chans \<Rightarrow> ('q chans \<times> unit res) option" where
  "inproc_send_multipart ch c msgs w =
    (case sndtimeo (inproc_socket_options c) of
       None \<Rightarrow> chan_send ch (data_tx_to_peer c) msgs w
     | Some d \<Rightarrow>
         if d = 0 then Some (chan_try_send ch (data_tx_to_peer c) msgs w)
         else
           (case chan_send ch (data_tx_to_peer c) msgs w of
              Some r \<Rightarrow> Some r
            | None \<Rightarrow> Some (w, Inl Timeout)))"

fun conn_send_multipart ::
  "('q, Msg list) chan_ops \<Rightarrow> ISocketConnection \<Rightarrow> Msg list \<Rightarrow> 'q chans \<Rightarrow> ('q chans \<times> unit res) option" where
  "conn_send_multipart ch (Sca c) msgs w = Some (sca_send_multipart ch c msgs w)"
| "conn_send_multipart ch (Inproc c) msgs w = inproc_send_multipart ch c msgs w"
| "conn_send_multipart ch Dummy msgs w = Some (w, Inl UnsupportedFeature)"

definition conn_send_message ::
  "('q, Msg list) chan_ops \<Rightarrow> ISocketConnection \<Rightarrow> Msg \<Rightarrow> 'q chans \<Rightarrow> ('q chans \<times> unit res) option" where
  "conn_send_message ch c msg w = conn_send_multipart ch c [msg] w"

text \<open>\<open>open_mailbox\<close> tells whether the receiving end of a mailbox still exists.\<close>

definition strip_prefix :: "string \<Rightarrow> string \<Rightarrow> string option" where
  "strip_prefix p s = (if take (length p) s = p then Some (drop (length p) s) else None)"

fun close_connection :: "(nat \<Rightarrow> bool) \<Rightarrow> ISocketConnection \<Rightarrow> core_effect list \<times> unit res" where
  "close_connection open_mailbox (Sca c) =
    (if open_mailbox (sca_stop_mailbox c) then ([StopSent (sca_stop_mailbox c)], Inr ())
     else ([], Inl Internal))"
| "close_connection open_mailbox (Inproc c) =
    ((if inproc_monitor_tx c then [Monitored (Disconnected (peer_inproc_name_or_uri c))] else []) @
     [PublishedInprocPipePeerClosed
        (case strip_prefix ''inproc://'' (peer_inproc_name_or_uri c) of
           Some name \<Rightarrow> name | None \<Rightarrow> peer_inproc_name_or_uri c)
        (local_pipe_read_id_from_peer c)], Inr ())"
| "close_connection open_mailbox Dummy = ([], Inr ())"


section \<open>The reconnect back-off\<close>

definition U32_MAX :: nat where "U32_MAX = 2 ^ 32 - 1"

text \<open>\<^verbatim>\<open>Duration::MAX\<close> in whole milliseconds.\<close>

definition DURATION_MAX :: nat where "DURATION_MAX = (2 ^ 64 - 1) * 1000 + 999"

record ReconnectState =
  current_attempts :: nat
  next_attempt_at :: "nat option"

definition reconnect_default :: ReconnectState where
  "reconnect_default = \<lparr>current_attempts = 0, next_attempt_at = None\<rparr>"

definition on_connection_success :: "ReconnectState \<Rightarrow> ReconnectState" where
  "on_connection_success r = r\<lparr>current_attempts := 0, next_attempt_at := None\<rparr>"

definition on_connection_failure ::
  "nat \<Rightarrow> duration \<Rightarrow> duration \<Rightarrow> ReconnectState \<Rightarrow> ReconnectState \<times> duration" where
  "on_connection_failure now base_ivl max_ivl r =
    (let multiplier = min (2 ^ min (current_attempts r) 31) U32_MAX;
         delay = min (base_ivl * multiplier) DURATION_MAX;
         delay = (if max_ivl > 0 then min delay max_ivl else delay)
     in (r\<lparr>current_attempts := min (current_attempts r + 1) U32_MAX, next_attempt_at := Some (now + delay)\<rparr>,
         delay))"

definition is_due :: "nat \<Rightarrow> ReconnectState \<Rightarrow> bool" where
  "is_due now r = (case next_attempt_at r of Some t \<Rightarrow> now \<ge> t | None \<Rightarrow> False)"


section \<open>The core state\<close>

datatype EndpointType = Listener | Session

record EndpointInfo =
  ep_mailbox :: nat
  task_handle :: "nat option"
  endpoint_type :: EndpointType
  endpoint_uri :: uri
  pipe_ids :: "(nat \<times> nat) option"
  handle_id :: nat
  target_endpoint_uri :: "uri option"
  is_outbound_connection :: bool
  peer_socket_type :: "string option"
  connection_iface :: ISocketConnection

record CoreState =
  core_handle :: nat
  options :: SocketOptions
  core_socket_type :: int
  pipes_tx :: "(nat \<times> nat) list"
  pipe_reader_task_handles :: "(nat \<times> nat) list"
  endpoints :: "(uri \<times> EndpointInfo) list"
  reconnect_states :: "(uri \<times> ReconnectState) list"
  pipe_read_id_to_endpoint_uri :: "(nat \<times> uri) list"
  bound_inproc_names :: "string list"
  monitor_tx :: bool
  last_bound_endpoint :: "uri option"

definition core_state_new :: "nat \<Rightarrow> int \<Rightarrow> SocketOptions \<Rightarrow> CoreState" where
  "core_state_new h ty opts =
    \<lparr>core_handle = h, options = opts, core_socket_type = ty, pipes_tx = [], pipe_reader_task_handles = [], endpoints = [],
     reconnect_states = [], pipe_read_id_to_endpoint_uri = [], bound_inproc_names = [], monitor_tx = False,
     last_bound_endpoint = None\<rparr>"

definition get_pipe_sender :: "nat \<Rightarrow> CoreState \<Rightarrow> nat option" where
  "get_pipe_sender pipe_write_id cs = map_of (pipes_tx cs) pipe_write_id"

definition remove_pipe_state :: "nat \<Rightarrow> nat \<Rightarrow> CoreState \<Rightarrow> CoreState \<times> core_effect list \<times> bool" where
  "remove_pipe_state pipe_write_id pipe_read_id cs =
    (let tx_removed = map_of (pipes_tx cs) pipe_write_id \<noteq> None;
         reader = map_of (pipe_reader_task_handles cs) pipe_read_id;
         map_removed = map_of (pipe_read_id_to_endpoint_uri cs) pipe_read_id \<noteq> None
     in (cs\<lparr>pipes_tx := alist_del pipe_write_id (pipes_tx cs),
            pipe_reader_task_handles := alist_del pipe_read_id (pipe_reader_task_handles cs),
            pipe_read_id_to_endpoint_uri := alist_del pipe_read_id (pipe_read_id_to_endpoint_uri cs)\<rparr>,
         (case reader of Some h \<Rightarrow> [TaskAborted h] | None \<Rightarrow> []),
         tx_removed \<or> reader \<noteq> None \<or> map_removed))"

definition send_monitor_event :: "CoreState \<Rightarrow> SocketEvent \<Rightarrow> core_effect list" where
  "send_monitor_event cs e = (if monitor_tx cs then [Monitored e] else [])"

datatype ShutdownPhase = Running | StoppingChildren | Lingering | CleaningPipes | Finished

record ShutdownCoordinator =
  shutdown_state :: ShutdownPhase
  pending_child_actors :: "(nat \<times> uri) list"
  pending_connections_to_close :: "(nat \<times> uri \<times> ISocketConnection) list"
  inproc_connections_to_cleanup :: "(nat \<times> nat \<times> uri) list"
  linger_deadline :: "nat option"

definition coordinator_default :: ShutdownCoordinator where
  "coordinator_default =
    \<lparr>shutdown_state = Running, pending_child_actors = [], pending_connections_to_close = [],
     inproc_connections_to_cleanup = [], linger_deadline = None\<rparr>"

record SocketCore =
  core_state :: CoreState
  shutdown_coordinator :: ShutdownCoordinator
  command_mailbox_closed :: bool

definition socket_core_new :: "nat \<Rightarrow> int \<Rightarrow> SocketOptions \<Rightarrow> SocketCore" where
  "socket_core_new h ty opts =
    \<lparr>core_state = core_state_new h ty opts, shutdown_coordinator = coordinator_default,
     command_mailbox_closed = False\<rparr>"

definition is_running :: "SocketCore \<Rightarrow> bool" where
  "is_running core \<longleftrightarrow> shutdown_state (shutdown_coordinator core) = Running"

text \<open>The recurring lookups \<^verbatim>\<open>core_state.read().endpoints.get(uri)\<close> and its \<^verbatim>\<open>connection_iface\<close>.\<close>

definition endpoint_of :: "SocketCore \<Rightarrow> uri \<Rightarrow> EndpointInfo option" where
  "endpoint_of core u = map_of (endpoints (core_state core)) u"

definition get_endpoint :: "SocketCore \<Rightarrow> uri \<Rightarrow> ISocketConnection option" where
  "get_endpoint core u = map_option connection_iface (endpoint_of core u)"

definition uri_of_pipe :: "SocketCore \<Rightarrow> nat \<Rightarrow> uri option" where
  "uri_of_pipe core pipe_read_id = map_of (pipe_read_id_to_endpoint_uri (core_state core)) pipe_read_id"


section \<open>Selecting a peer\<close>

text \<open>
  The loop with which PUSH and REQ sockets look for a peer: the balancer's next URI, dropped while it no
  longer names an endpoint, and where there is none a wait for a connection.  \<open>waits\<close> lists the states
  that the waits of this call ended with, as other tasks left them; when the list is exhausted, no
  connection arrived, so a timer has elapsed or the call has not returned.
\<close>

function select_peer ::
  "(SocketCore \<Rightarrow> bool) \<Rightarrow> duration option \<Rightarrow> (SocketCore \<times> LoadBalancer) list \<Rightarrow> SocketCore \<Rightarrow> LoadBalancer \<Rightarrow>
    (SocketCore \<times> LoadBalancer \<times> uri res) option" where
  "select_peer terminated timeout_opt waits core lb =
    (case get_next_connection_uri lb of
       (lb', Some u) \<Rightarrow>
         if endpoint_of core u \<noteq> None then Some (core, lb', Inr u)
         else select_peer terminated timeout_opt waits core (remove_connection u lb')
     | (lb', None) \<Rightarrow>
         if terminated core then Some (core, lb', Inl InvalidState)
         else if timeout_opt = Some 0 then Some (core, lb', Inl ResourceLimitReached)
         else
           (case waits of
              (core2, lb2) # waits' \<Rightarrow> select_peer terminated timeout_opt waits' core2 lb2
            | [] \<Rightarrow> if timeout_opt = None then None else Some (core, lb', Inl Timeout)))"
  by pat_completeness auto

lemma next_uri_removed_shorter:
  "get_next_connection_uri lb = (lb', Some u) \<Longrightarrow>
    length (connection_uris (remove_connection u lb')) < length (connection_uris lb)"
  by (auto simp: get_next_connection_uri_def remove_connection_def length_remove1 split: list.splits)

termination select_peer
  by (relation "measures [\<lambda>(_, _, waits, _, _). length waits, \<lambda>(_, _, _, _, lb). length (connection_uris lb)]")
    (auto dest: next_uri_removed_shorter [OF sym])

declare select_peer.simps [simp del]


section \<open>What a connection does to the pipes\<close>

fun conn_channel :: "ISocketConnection \<Rightarrow> nat option" where
  "conn_channel (Sca c) = Some (pipe_sender c)"
| "conn_channel (Inproc c) = Some (data_tx_to_peer c)"
| "conn_channel Dummy = None"

text \<open>One message was appended to one pipe; or every pipe holds what it held.\<close>

definition delivered :: "('q \<Rightarrow> Msg list list) \<Rightarrow> nat \<Rightarrow> Msg list \<Rightarrow> 'q chans \<Rightarrow> 'q chans \<Rightarrow> bool" where
  "delivered items c msgs w w' \<longleftrightarrow>
    (\<forall>c'. items (w' c') = (if c' = c then items (w c) @ [msgs] else items (w c')))"

definition undelivered :: "('q \<Rightarrow> Msg list list) \<Rightarrow> 'q chans \<Rightarrow> 'q chans \<Rightarrow> bool" where
  "undelivered items w w' \<longleftrightarrow> (\<forall>c. items (w' c) = items (w c))"

lemmas conn_send_defs = sca_send_multipart_def inproc_send_multipart_def chan_send_def chan_try_send_def

lemma conn_send_result:
  assumes "conn_channel c = Some a" "try_send ch msgs (w a) = (q, r)"
  shows "r = Sent \<Longrightarrow> conn_send_multipart ch c msgs w = Some (w(a := q), Inr ())"
    and "r = Closed x \<Longrightarrow> conn_send_multipart ch c msgs w = Some (w(a := q), Inl ConnectionClosed)"
    and "r = Full x \<Longrightarrow> conn_send_multipart ch c msgs w \<in>
      {None, Some (w, Inl ResourceLimitReached), Some (w(a := q), Inl ResourceLimitReached), Some (w, Inl Timeout)}"
  subgoal using assms by (cases c) (simp_all add: conn_send_defs split: option.split)
  subgoal using assms by (cases c) (simp_all add: conn_send_defs split: option.split)
  subgoal using assms by (cases c) (simp_all add: conn_send_defs split: option.split)
  done

lemma conn_send_ok:
  assumes "fifo_channel ch items cap closed" "conn_send_multipart ch c msgs w = Some (w', Inr ())"
  shows "\<exists>a. conn_channel c = Some a \<and> delivered items a msgs w w'"
proof -
  obtain a where a: "conn_channel c = Some a" using assms(2) by (cases c) auto
  obtain q r where q: "try_send ch msgs (w a) = (q, r)" by fastforce
  have "r = Sent" using conn_send_result [where w = w, OF a q] assms(2) by (cases r) auto
  then show ?thesis using a conn_send_result(1) [where w = w, OF a q] fifo_send [OF assms(1) q] assms(2)
    by (cases "closed (w a)"; cases "length (items (w a)) < cap (w a)") (auto simp: delivered_def)
qed

lemma conn_send_error:
  assumes "fifo_channel ch items cap closed" "conn_send_multipart ch c msgs w = Some (w', Inl e)"
  shows "undelivered items w w'"
proof (cases "conn_channel c")
  case None
  then show ?thesis using assms(2) by (cases c) (auto simp: undelivered_def)
next
  case (Some a)
  obtain q r where q: "try_send ch msgs (w a) = (q, r)" by fastforce
  have "r \<noteq> Sent" using conn_send_result(1) [where w = w, OF Some q] assms(2) by auto
  then have "items q = items (w a)" using fifo_send [OF assms(1) q]
    by (cases "closed (w a)"; cases "length (items (w a)) < cap (w a)") auto
  then show ?thesis using conn_send_result [where w = w, OF Some q] assms(2) \<open>r \<noteq> Sent\<close>
    by (cases r) (auto simp: undelivered_def)
qed

lemma conn_send_same:
  assumes "fifo_channel ch items cap closed" "conn_send_multipart ch c msgs w = Some (w', r)"
  shows "cap (w' b) = cap (w b)" "closed (w' b) = closed (w b)"
proof -
  have "cap (w' b) = cap (w b) \<and> closed (w' b) = closed (w b)"
  proof (cases "conn_channel c")
    case None
    then show ?thesis using assms(2) by (cases c) auto
  next
    case (Some a)
    obtain q t where q: "try_send ch msgs (w a) = (q, t)" by fastforce
    show ?thesis using conn_send_result [where w = w, OF Some q] assms(2) fifo_send(1,2) [OF assms(1) q]
      by (cases t) (auto split: if_splits)
  qed
  then show "cap (w' b) = cap (w b)" "closed (w' b) = closed (w b)" by simp_all
qed

text \<open>A pipe with room takes the message, whatever the timeout.\<close>

definition has_room :: "('q \<Rightarrow> Msg list list) \<Rightarrow> ('q \<Rightarrow> nat) \<Rightarrow> ('q \<Rightarrow> bool) \<Rightarrow> ISocketConnection \<Rightarrow> 'q chans \<Rightarrow> bool" where
  "has_room items cap closed c w \<longleftrightarrow>
    (case conn_channel c of Some a \<Rightarrow> \<not> closed (w a) \<and> length (items (w a)) < cap (w a) | None \<Rightarrow> False)"

lemma conn_send_room:
  assumes "fifo_channel ch items cap closed" "has_room items cap closed c w"
  shows "\<exists>w'. conn_send_multipart ch c msgs w = Some (w', Inr ())"
proof -
  obtain a where a: "conn_channel c = Some a" "\<not> closed (w a)" "length (items (w a)) < cap (w a)"
    using assms(2) by (auto simp: has_room_def split: option.splits)
  obtain q r where q: "try_send ch msgs (w a) = (q, r)" by fastforce
  show ?thesis using conn_send_result(1) [where w = w, OF a(1) q] fifo_send(4) [OF assms(1) q a(2,3)] by auto
qed


section \<open>Properties\<close>

text \<open>
  A session connection gives up on a full pipe although no send timeout is set: with \<^verbatim>\<open>SNDTIMEO\<close> at \<open>-1\<close>,
  where an in-process connection keeps waiting, the message is refused.
\<close>

theorem infinite_sndtimeo_gives_up:
  assumes "fifo_channel ch items cap closed"
    and "\<not> closed (w a)" "length (items (w a)) \<ge> cap (w a)"
    and "sca_sndtimeo c = None" "pipe_sender c = a"
    and "sndtimeo (inproc_socket_options i) = None" "data_tx_to_peer i = a"
  shows "conn_send_multipart ch (Sca c) msgs w = Some (w, Inl ResourceLimitReached) \<and>
    conn_send_multipart ch (Inproc i) msgs w = None"
proof -
  obtain q r where q: "try_send ch msgs (w a) = (q, r)" by fastforce
  then have "try_send ch msgs (w a) = (q, Full msgs)" using fifo_send(5) [OF assms(1) q] assms(2,3) by simp
  then show ?thesis using assms(4-)
    by (simp add: sca_send_multipart_def inproc_send_multipart_def chan_send_def)
qed

theorem infinite_sndtimeo_gives_up_witness:
  "conn_send_multipart list_channel
      (Sca \<lparr>sca_stop_mailbox = 9, sca_handle_id = 5, pipe_sender = 3, pipe_write_id_to_sca = 6, sca_sndtimeo = None\<rparr>)
      [msg_new] (\<lambda>_. ([[msg_from_vec [1]]], 1, False)) =
    Some (\<lambda>_. ([[msg_from_vec [1]]], 1, False), Inl ResourceLimitReached)"
  using infinite_sndtimeo_gives_up [OF list_channel_fifo, of "\<lambda>_. ([[msg_from_vec [1]]], 1, False)" 3
    "\<lparr>sca_stop_mailbox = 9, sca_handle_id = 5, pipe_sender = 3, pipe_write_id_to_sca = 6, sca_sndtimeo = None\<rparr>"
    "\<lparr>connection_id = 1, local_pipe_write_id_to_peer = 2, local_pipe_read_id_from_peer = 3,
      peer_inproc_name_or_uri = ''inproc://a'', data_tx_to_peer = 3, inproc_monitor_tx = False,
      inproc_socket_options = options_default\<rparr>" "[msg_new]"]
  by (simp add: options_default_def)

text \<open>The state after a run of failed attempts at the given times.\<close>

fun after_failures :: "duration \<Rightarrow> duration \<Rightarrow> nat list \<Rightarrow> ReconnectState \<Rightarrow> ReconnectState" where
  "after_failures base_ivl max_ivl [] r = r"
| "after_failures base_ivl max_ivl (t # ts) r =
    after_failures base_ivl max_ivl ts (fst (on_connection_failure t base_ivl max_ivl r))"

lemma after_failures_attempts:
  "current_attempts r \<le> U32_MAX \<Longrightarrow>
    current_attempts (after_failures b m ts r) = min (current_attempts r + length ts) U32_MAX"
proof (induction ts arbitrary: r)
  case Nil
  then show ?case by simp
next
  case (Cons t ts)
  let ?r = "fst (on_connection_failure t b m r)"
  have "current_attempts ?r = min (current_attempts r + 1) U32_MAX"
    by (simp add: on_connection_failure_def Let_def)
  then show ?case using Cons.IH [of ?r] by simp
qed

definition backoff_delay :: "duration \<Rightarrow> duration \<Rightarrow> nat \<Rightarrow> duration" where
  "backoff_delay base_ivl max_ivl n =
    (let d = min (base_ivl * 2 ^ min n 31) DURATION_MAX in if max_ivl = 0 then d else min d max_ivl)"


end
