(* ===== verification/Socket_Pattern.thy ===== *)
theory Socket_Pattern
  imports Core_State
begin

text \<open>
  What the socket patterns share: the events a pattern receives from a connection, the common part of the
  \<^verbatim>\<open>handle_pipe_event\<close> methods (assemble a message, process it, queue it), and the contract of the patterns
  that balance over their connections.
\<close>

section \<open>Definitions\<close>

datatype pipe_event = PipeMessageReceived Msg | PipeClosedByPeer

text \<open>The commands a pattern is asked to process: the patterns distinguish \<^verbatim>\<open>Stop\<close> from the others.\<close>

datatype pattern_command = Stop | OtherCommand

text \<open>
  \<^verbatim>\<open>if let Some(m) = orchestrator.accumulate_pipe_frame(pipe, msg)? { ... orchestrator.queue_item(item).await?; }\<close>
  with the pattern's processing of a complete message in between: an error of the call, a message to drop,
  or the item to queue.
\<close>

definition receive_frame ::
  "('q, 'a) chan_ops \<Rightarrow> (Msg list \<Rightarrow> 'a option res) \<Rightarrow> nat \<Rightarrow> Msg \<Rightarrow> 'q IncomingMessageOrchestrator \<Rightarrow>
    ('q IncomingMessageOrchestrator \<times> unit res) option" where
  "receive_frame ch process pipe_read_id msg orch =
    (case accumulate_pipe_frame pipe_read_id msg orch of
       (orch, Inl e) \<Rightarrow> Some (orch, Inl e)
     | (orch, Inr None) \<Rightarrow> Some (orch, Inr ())
     | (orch, Inr (Some m)) \<Rightarrow>
         (case process m of
            Inl e \<Rightarrow> Some (orch, Inl e)
          | Inr None \<Rightarrow> Some (orch, Inr ())
          | Inr (Some item) \<Rightarrow> queue_item ch item orch))"

text \<open>Frames arriving on several connections, each call completing before the next.\<close>

fun receive_frames ::
  "('q, 'a) chan_ops \<Rightarrow> (nat \<Rightarrow> Msg list \<Rightarrow> 'a option res) \<Rightarrow> (nat \<times> Msg) list \<Rightarrow>
    'q IncomingMessageOrchestrator \<Rightarrow> 'q IncomingMessageOrchestrator option" where
  "receive_frames ch process [] orch = Some orch"
| "receive_frames ch process ((p, f) # fs) orch =
    (case receive_frame ch (process p) p f orch of
       Some (orch', Inr _) \<Rightarrow> receive_frames ch process fs orch'
     | _ \<Rightarrow> None)"


section \<open>Receiving\<close>

lemma accumulate_more:
  "is_more f \<Longrightarrow> accumulate_pipe_frame p f orch =
    (orch\<lparr>partial_pipe_messages := (partial_pipe_messages orch)(p \<mapsto> pending_frames orch p @ [f])\<rparr>, Inr None)"
  by (simp add: accumulate_pipe_frame_def pending_frames_def Let_def)

lemma accumulate_last:
  "\<not> is_more f \<Longrightarrow> accumulate_pipe_frame p f orch =
    (orch\<lparr>partial_pipe_messages := (partial_pipe_messages orch)(p := None)\<rparr>,
     Inr (Some (pending_frames orch p @ [f])))"
  by (simp add: accumulate_pipe_frame_def pending_frames_def Let_def)

lemma queue_item_room:
  assumes fifo: "fifo_channel ch items cap closed"
    and opened: "\<not> orch_items closed orch" and room: "length (orch_items items orch) < orch_items cap orch"
  shows "\<exists>c. queue_item ch item orch =
      Some (orch\<lparr>main_incoming_queue := (main_incoming_queue orch)\<lparr>fq_chan := c\<rparr>\<rparr>, Inr ()) \<and>
    items c = orch_items items orch @ [item] \<and> \<not> closed c \<and> cap c = orch_items cap orch"
proof -
  obtain c r where c: "try_send ch item (fq_chan (main_incoming_queue orch)) = (c, r)" by fastforce
  have "r = Sent" "items c = orch_items items orch @ [item]" "\<not> closed c" "cap c = orch_items cap orch"
    using fifo_send [OF fifo c] opened room by auto
  then show ?thesis using c by (auto simp: queue_item_def push_item_def try_push_item_def split: option.split)
qed

text \<open>Two orchestrators with the same partial messages assemble the same messages.\<close>

lemma assemble_run_cong:
  "partial_pipe_messages o1 = partial_pipe_messages o2 \<Longrightarrow>
    snd (assemble_run accumulate_pipe_frame fs o1) = snd (assemble_run accumulate_pipe_frame fs o2) \<and>
    partial_pipe_messages (fst (assemble_run accumulate_pipe_frame fs o1)) =
      partial_pipe_messages (fst (assemble_run accumulate_pipe_frame fs o2))"
proof (induction fs arbitrary: o1 o2)
  case Nil
  then show ?case by simp
next
  case (Cons x fs)
  obtain p f where x: "x = (p, f)" by (cases x)
  have pend: "pending_frames o1 p = pending_frames o2 p" using Cons.prems by (simp add: pending_frames_def)
  show ?case
  proof (cases "is_more f")
    case True
    then show ?thesis
      using Cons.IH [of "fst (accumulate_pipe_frame p f o1)" "fst (accumulate_pipe_frame p f o2)"] Cons.prems pend
      by (simp add: x accumulate_more case_prod_unfold)
  next
    case False
    then show ?thesis
      using Cons.IH [of "fst (accumulate_pipe_frame p f o1)" "fst (accumulate_pipe_frame p f o2)"] Cons.prems pend
      by (simp add: x accumulate_last case_prod_unfold)
  qed
qed

text \<open>The items that the messages of a run of frames become.\<close>

definition items_of :: "(nat \<Rightarrow> Msg list \<Rightarrow> 'a option) \<Rightarrow> (nat \<times> Msg list) list \<Rightarrow> 'a list" where
  "items_of proc ms = List.map_filter (\<lambda>(p, m). proc p m) ms"

lemma items_of_simps [simp]:
  "items_of proc [] = []"
  "items_of proc ((p, m) # ms) = (case proc p m of None \<Rightarrow> items_of proc ms | Some x \<Rightarrow> x # items_of proc ms)"
  by (simp_all add: items_of_def map_filter_simps split: option.split)

lemma receive_frames_queue:
  assumes fifo: "fifo_channel ch items cap closed"
  shows "\<not> orch_items closed orch \<Longrightarrow>
    length (orch_items items orch) +
      length (items_of proc (snd (assemble_run accumulate_pipe_frame fs orch))) \<le> orch_items cap orch \<Longrightarrow>
    \<exists>orch'. receive_frames ch (\<lambda>p m. Inr (proc p m)) fs orch = Some orch' \<and>
      orch_items items orch' = orch_items items orch @
        items_of proc (snd (assemble_run accumulate_pipe_frame fs orch)) \<and>
      \<not> orch_items closed orch' \<and> orch_items cap orch' = orch_items cap orch \<and>
      partial_pipe_messages orch' = partial_pipe_messages (fst (assemble_run accumulate_pipe_frame fs orch)) \<and>
      current_recv_frames_buffer orch' = current_recv_frames_buffer orch"
proof (induction fs arbitrary: orch)
  case Nil
  then show ?case by simp
next
  case (Cons x fs)
  obtain p f where x: "x = (p, f)" by (cases x)
  let ?o = "fst (accumulate_pipe_frame p f orch)"
  show ?case
  proof (cases "is_more f")
    case True
    then show ?thesis using Cons.IH [of ?o] Cons.prems
      by (auto simp: x receive_frame_def accumulate_more case_prod_unfold)
  next
    case False
    let ?m = "pending_frames orch p @ [f]"
    note last = accumulate_last [OF False]
    show ?thesis
    proof (cases "proc p ?m")
      case None
      then show ?thesis using Cons.IH [of ?o] Cons.prems
        by (auto simp: x receive_frame_def last case_prod_unfold)
    next
      case (Some item)
      have "length (orch_items items ?o) < orch_items cap ?o"
        using Cons.prems(2) Some by (simp add: x last case_prod_unfold)
      then obtain c where c: "queue_item ch item ?o =
          Some (?o\<lparr>main_incoming_queue := (main_incoming_queue ?o)\<lparr>fq_chan := c\<rparr>\<rparr>, Inr ())"
          "items c = orch_items items orch @ [item]" "\<not> closed c" "cap c = orch_items cap orch"
        using queue_item_room [OF fifo, of ?o item] Cons.prems(1) by (auto simp: last)
      let ?q = "?o\<lparr>main_incoming_queue := (main_incoming_queue ?o)\<lparr>fq_chan := c\<rparr>\<rparr>"
      have same: "snd (assemble_run accumulate_pipe_frame fs ?q) = snd (assemble_run accumulate_pipe_frame fs ?o)"
        "partial_pipe_messages (fst (assemble_run accumulate_pipe_frame fs ?q)) =
          partial_pipe_messages (fst (assemble_run accumulate_pipe_frame fs ?o))"
        using assemble_run_cong [of ?q ?o fs] by simp_all
      have "receive_frame ch (\<lambda>m. Inr (proc p m)) p f orch = Some (?q, Inr ())"
        using c(1) Some by (simp add: receive_frame_def last)
      then show ?thesis
        using Cons.IH [of ?q] Cons.prems(2) c Some same
        by (auto simp: x last case_prod_unfold)
    qed
  qed
qed

lemma receive_frames_cong:
  "(\<And>p f m. (p, f) \<in> set fs \<Longrightarrow> process p m = process' p m) \<Longrightarrow>
    receive_frames ch process fs orch = receive_frames ch process' fs orch"
proof (induction fs arbitrary: orch)
  case Nil
  show ?case by simp
next
  case (Cons x fs)
  obtain p f where x: "x = (p, f)" by (cases x)
  have "process p = process' p" using Cons.prems [of p f] by (auto simp: x)
  then show ?case using Cons by (auto simp: x split: option.split sum.split)
qed

lemma recv_logical_next:
  assumes "fifo_channel ch items cap closed"
    and "\<not> orch_items closed orch" and "orch_items items orch = x # xs"
  shows "\<exists>orch'. recv_logical_message ch tf tmo orch = Some (orch', Inr (tf x)) \<and>
    orch_items items orch' = xs \<and> \<not> orch_items closed orch' \<and> orch_items cap orch' = orch_items cap orch \<and>
    partial_pipe_messages orch' = partial_pipe_messages orch \<and> current_recv_frames_buffer orch' = []"
proof -
  let ?o = "if current_recv_frames_buffer orch \<noteq> [] then orch\<lparr>current_recv_frames_buffer := []\<rparr> else orch"
  have "orch_items items ?o = x # xs" "\<not> orch_items closed ?o" using assms(2,3) by simp_all
  from recv_item_next [OF assms(1) this(2,1), of tmo] show ?thesis
    by (auto simp: recv_logical_message_def Let_def)
qed


lemma assemble_one:
  "well_framed fs \<Longrightarrow> fs \<noteq> [] \<Longrightarrow>
    snd (assemble_run accumulate_pipe_frame (map (Pair p) fs) orch) = [(p, pending_frames orch p @ fs)]"
proof (induction fs arbitrary: orch)
  case Nil
  then show ?case by simp
next
  case (Cons f fs)
  show ?case
  proof (cases "fs = []")
    case True
    then show ?thesis using Cons.prems by (simp add: accumulate_last well_framed_Cons)
  next
    case False
    then show ?thesis
      using Cons.IH [of "fst (accumulate_pipe_frame p f orch)"] Cons.prems
      by (simp add: accumulate_more well_framed_Cons case_prod_unfold pending_frames_def)
  qed
qed

text \<open>What a queue needs to take a message of a pipe that has no unfinished message.\<close>

definition idle_queue ::
  "('q \<Rightarrow> 'a list) \<Rightarrow> ('q \<Rightarrow> nat) \<Rightarrow> ('q \<Rightarrow> bool) \<Rightarrow> nat \<Rightarrow> 'q IncomingMessageOrchestrator \<Rightarrow> bool" where
  "idle_queue items cap closed p orch \<longleftrightarrow> \<not> orch_items closed orch \<and> orch_items items orch = [] \<and>
    0 < orch_items cap orch \<and> pending_frames orch p = []"

lemma reset_buffer_idle [simp]:
  "idle_queue items cap closed p (reset_recv_message_buffer orch) = idle_queue items cap closed p orch"
  by (simp add: idle_queue_def reset_recv_message_buffer_def pending_frames_def)

lemma idle_new: "fifo_channel ch items cap closed \<Longrightarrow> idle_queue items cap closed p (orchestrator_new ch h n)"
  by (simp add: idle_queue_def orchestrator_new_def fq_new_def fifo_new pending_frames_def)


section \<open>Patterns that queue what they receive\<close>

text \<open>Frames arriving on the connections of a socket, and the results of successive receive calls.\<close>

fun feed ::
  "(nat \<Rightarrow> pipe_event \<Rightarrow> 's \<Rightarrow> ('s \<times> unit res) option) \<Rightarrow> (nat \<times> Msg) list \<Rightarrow> 's \<Rightarrow> 's option" where
  "feed handle [] s = Some s"
| "feed handle ((p, f) # fs) s =
    (case handle p (PipeMessageReceived f) s of Some (s', Inr _) \<Rightarrow> feed handle fs s' | _ \<Rightarrow> None)"

fun receive_all :: "('s \<Rightarrow> ('s \<times> 'm res) option) \<Rightarrow> nat \<Rightarrow> 's \<Rightarrow> ('s \<times> 'm list) option" where
  "receive_all recv 0 s = Some (s, [])"
| "receive_all recv (Suc n) s =
    (case recv s of
       Some (s', Inr m) \<Rightarrow> map_option (\<lambda>(s'', ms). (s'', m # ms)) (receive_all recv n s')
     | _ \<Rightarrow> None)"

lemma assembled_count:
  "length (snd (assemble_run accumulate_pipe_frame fs orch)) = length (filter (\<lambda>x. \<not> is_more (snd x)) fs)"
proof (induction fs arbitrary: orch)
  case Nil
  show ?case by simp
next
  case (Cons x fs)
  obtain p f where x: "x = (p, f)" by (cases x)
  show ?case using Cons.IH by (cases "is_more f") (simp_all add: x accumulate_more accumulate_last case_prod_unfold)
qed

lemma length_items_of: "length (items_of proc ms) \<le> length ms"
  by (induction ms) (auto split: option.split)

text \<open>
  Every receiving pattern holds an orchestrator, and processes a complete message into an item to queue, a
  message to drop, or an error of the call.
\<close>

locale queueing_socket =
  fixes ch :: "('q, 'a) chan_ops"
    and orch_of :: "'s \<Rightarrow> 'q IncomingMessageOrchestrator"
    and with_orch :: "'q IncomingMessageOrchestrator \<Rightarrow> 's \<Rightarrow> 's"
    and handle :: "nat \<Rightarrow> pipe_event \<Rightarrow> 's \<Rightarrow> ('s \<times> unit res) option"
    and process :: "'s \<Rightarrow> nat \<Rightarrow> Msg list \<Rightarrow> 'a option res"
  assumes orch_with: "orch_of (with_orch orch s) = orch"
    and with_with: "with_orch orch' (with_orch orch s) = with_orch orch' s"
    and with_same: "with_orch (orch_of s) s = s"
    and process_with: "process (with_orch orch s) = process s"
    and handle_frame: "handle p (PipeMessageReceived f) s =
      map_option (\<lambda>(orch, r). (with_orch orch s, r)) (receive_frame ch (process s p) p f (orch_of s))"
begin

lemma feed_eq:
  "feed handle fs s = map_option (\<lambda>orch. with_orch orch s) (receive_frames ch (process s) fs (orch_of s))"
proof (induction fs arbitrary: s)
  case Nil
  show ?case by (simp add: with_same)
next
  case (Cons x fs)
  obtain p f where x: "x = (p, f)" by (cases x)
  show ?case
    by (auto simp: x Cons.IH handle_frame orch_with with_with process_with option.map_comp comp_def
      split: option.splits sum.splits)
qed

text \<open>Where the pattern accepts the messages of the pipes, their items are queued in order.\<close>

lemma queues:
  assumes "fifo_channel ch items cap closed"
    and "\<And>p f m. (p, f) \<in> set fs \<Longrightarrow> process s p m = Inr (proc p m)"
    and "\<not> orch_items closed (orch_of s)" "orch_items items (orch_of s) = []"
    and "length (filter (\<lambda>x. \<not> is_more (snd x)) fs) \<le> orch_items cap (orch_of s)"
  defines "xs \<equiv> items_of proc (snd (assemble_run accumulate_pipe_frame fs (orch_of s)))"
  shows "\<exists>orch. feed handle fs s = Some (with_orch orch s) \<and>
    orch_items items orch = xs \<and> \<not> orch_items closed orch"
proof -
  have "length xs \<le> orch_items cap (orch_of s)"
    using length_items_of [of proc] assembled_count [of fs "orch_of s"] assms(5) unfolding xs_def
    by (metis order_trans)
  then obtain orch where orch: "receive_frames ch (\<lambda>p m. Inr (proc p m)) fs (orch_of s) = Some orch"
      "orch_items items orch = xs" "\<not> orch_items closed orch"
    using receive_frames_queue [OF assms(1,3), of proc fs] assms(4) unfolding xs_def by auto
  moreover have "receive_frames ch (process s) fs (orch_of s) = receive_frames ch (\<lambda>p m. Inr (proc p m)) fs (orch_of s)"
    by (rule receive_frames_cong) (use assms(2) in auto)
  ultimately show ?thesis by (auto simp: feed_eq)
qed

lemma queues_one:
  assumes "fifo_channel ch items cap closed" "idle_queue items cap closed p (orch_of s)"
    and "well_framed fs" "fs \<noteq> []" and "\<And>m. process s p m = Inr (Some (item m))"
  obtains orch where "feed handle (map (Pair p) fs) s = Some (with_orch orch s)"
    "orch_items items orch = [item fs]" "\<not> orch_items closed orch"
proof -
  have "length (filter (\<lambda>x. \<not> is_more (snd x)) (map (Pair p) fs)) = 1"
    using assembled_count [of "map (Pair p) fs" "orch_of s"] by (simp only: assemble_one [OF assms(3,4)] list.size)
  then show ?thesis
    using queues [OF assms(1), of "map (Pair p) fs" s "\<lambda>q m. Some (item m)"] that assms(2,5)
      assemble_one [OF assms(3,4), of p "orch_of s"]
    by (auto simp: idle_queue_def)
qed

end

text \<open>
  PULL, SUB, DEALER and ROUTER sockets: a complete message becomes a queued item or is dropped, and a
  receive call turns the next item into frames for the application.
\<close>

locale inbound_socket = queueing_socket ch orch_of with_orch handle "\<lambda>s p m. Inr (proc s p m)"
  for ch :: "('q, 'a) chan_ops"
    and orch_of :: "'s \<Rightarrow> 'q IncomingMessageOrchestrator"
    and with_orch :: "'q IncomingMessageOrchestrator \<Rightarrow> 's \<Rightarrow> 's"
    and handle :: "nat \<Rightarrow> pipe_event \<Rightarrow> 's \<Rightarrow> ('s \<times> unit res) option"
    and proc :: "'s \<Rightarrow> nat \<Rightarrow> Msg list \<Rightarrow> 'a option" +
  fixes recv :: "SocketCore \<Rightarrow> 's \<Rightarrow> ('s \<times> Msg list res) option"
    and app :: "'a \<Rightarrow> Msg list"
  assumes recv_message_next: "is_running core \<Longrightarrow> recv core s =
      map_option (\<lambda>(orch, r). (with_orch orch s, r))
        (recv_logical_message ch app (rcvtimeo (options (core_state core))) (orch_of s))"
begin

lemma receive_all_eq:
  assumes "fifo_channel ch items cap closed" "is_running core"
  shows "\<not> orch_items closed (orch_of s) \<Longrightarrow> orch_items items (orch_of s) = xs \<Longrightarrow>
    \<exists>orch. receive_all (recv core) (length xs) s = Some (with_orch orch s, map app xs) \<and>
      orch_items items orch = [] \<and> \<not> orch_items closed orch"
proof (induction xs arbitrary: s)
  case Nil
  then show ?case by (auto intro!: exI [of _ "orch_of s"] simp: with_same)
next
  case (Cons x xs)
  obtain orch' where "recv_logical_message ch app (rcvtimeo (options (core_state core))) (orch_of s) =
      Some (orch', Inr (app x))" "orch_items items orch' = xs" "\<not> orch_items closed orch'"
    using recv_logical_next [OF assms(1) Cons.prems, of app] by metis
  then show ?case using Cons.IH [of "with_orch orch' s"] recv_message_next [OF assms(2), of s]
    by (auto simp: orch_with with_with)
qed

text \<open>The items that a run of frames becomes are what the receive calls return.\<close>

lemma delivers:
  assumes "fifo_channel ch items cap closed" "is_running core"
    and "\<not> orch_items closed (orch_of s)" "orch_items items (orch_of s) = []"
    and "length (filter (\<lambda>x. \<not> is_more (snd x)) fs) \<le> orch_items cap (orch_of s)"
  defines "xs \<equiv> items_of (proc s) (snd (assemble_run accumulate_pipe_frame fs (orch_of s)))"
  shows "\<exists>s1 orch. feed handle fs s = Some s1 \<and>
    receive_all (recv core) (length xs) s1 = Some (with_orch orch s, map app xs) \<and>
    orch_items items orch = [] \<and> \<not> orch_items closed orch"
proof -
  obtain orch where orch: "feed handle fs s = Some (with_orch orch s)"
      "orch_items items orch = xs" "\<not> orch_items closed orch"
    using queues [OF assms(1) _ assms(3-5), of "proc s"] unfolding xs_def by auto
  then show ?thesis
    using receive_all_eq [OF assms(1,2), of "with_orch orch s" xs] by (auto simp: orch_with with_with)
qed

lemma delivers_one:
  assumes "fifo_channel ch items cap closed" "is_running core" "idle_queue items cap closed p (orch_of s)"
    and "well_framed fs" "fs \<noteq> []" and "\<And>m. proc s p m = Some (item m)"
  obtains s1 orch where "feed handle (map (Pair p) fs) s = Some s1"
    "recv core s1 = Some (with_orch orch s, Inr (app (item fs)))"
proof -
  obtain orch where fed: "feed handle (map (Pair p) fs) s = Some (with_orch orch s)"
    "orch_items items orch = [item fs]" "\<not> orch_items closed orch"
    by (rule queues_one [OF assms(1,3-5), of item]) (use assms(6) in auto)
  obtain orch' where "recv_logical_message ch app (rcvtimeo (options (core_state core))) orch = Some (orch', Inr (app (item fs)))"
    using recv_logical_next [OF assms(1) fed(3,2), of app] by metis
  then have "recv core (with_orch orch s) = Some (with_orch orch' s, Inr (app (item fs)))"
    using recv_message_next [OF assms(2), of "with_orch orch s"] by (simp add: orch_with with_with)
  with fed(1) show ?thesis by (rule that)
qed

end


section \<open>Patterns that balance over their connections\<close>

text \<open>
  PUSH, REQ and DEALER sockets keep the URI of every attached pipe and the URIs in a load balancer.
\<close>

locale balanced_socket =
  fixes attach :: "nat \<Rightarrow> uri \<Rightarrow> 's \<Rightarrow> 's"
    and detach :: "nat \<Rightarrow> 's \<Rightarrow> 's"
    and pipes :: "'s \<Rightarrow> (nat \<times> uri) list"
    and conns :: "'s \<Rightarrow> uri list"
  assumes pipes_attach: "map_of (pipes (attach p u s)) = (map_of (pipes s))(p \<mapsto> u)"
    and conns_attach: "conns (attach p u s) = (if u \<in> set (conns s) then conns s else conns s @ [u])"
    and pipes_detach: "map_of (pipes (detach p s)) = (map_of (pipes s))(p := None)"
    and conns_detach: "conns (detach p s) =
      (case map_of (pipes s) p of Some u \<Rightarrow> remove1 u (conns s) | None \<Rightarrow> conns s)"
begin

text \<open>The pipes of a socket whose connections have distinct URIs, and the balancer in step with them.\<close>

definition in_step :: "'s \<Rightarrow> bool" where
  "in_step s \<longleftrightarrow> distinct (conns s) \<and> set (conns s) = ran (map_of (pipes s)) \<and>
    inj_on (map_of (pipes s)) (dom (map_of (pipes s)))"

lemma in_step_attach:
  assumes "in_step s" "u \<notin> ran (map_of (pipes s))" "map_of (pipes s) p = None"
  shows "in_step (attach p u s)" "set (conns (attach p u s)) = insert u (set (conns s))"
proof -
  have "ran ((map_of (pipes s))(p \<mapsto> u)) = insert u (ran (map_of (pipes s)))"
    using assms(3) by (simp add: ran_map_upd)
  moreover have "inj_on ((map_of (pipes s))(p \<mapsto> u)) (insert p (dom (map_of (pipes s))))"
    using assms by (auto simp: in_step_def inj_on_def ran_def)
  ultimately show "in_step (attach p u s)" "set (conns (attach p u s)) = insert u (set (conns s))"
    using assms by (auto simp: in_step_def pipes_attach conns_attach)
qed

lemma in_step_detach:
  assumes "in_step s"
  shows "in_step (detach p s)"
    and "map_of (pipes s) p = Some u \<Longrightarrow> set (conns (detach p s)) = set (conns s) - {u}"
proof -
  let ?m = "map_of (pipes s)"
  have inj: "inj_on ?m (dom ?m)" using assms by (simp add: in_step_def)
  have ran: "ran (?m(p := None)) = (case ?m p of Some u \<Rightarrow> ran ?m - {u} | None \<Rightarrow> ran ?m)"
  proof (cases "?m p")
    case None
    then show ?thesis by (simp add: fun_upd_idem)
  next
    case (Some u)
    have only: "a = p" if "?m a = Some u" for a using inj_onD [OF inj, of a p] that Some by (simp add: domIff)
    have "x \<in> ran (?m(p := None)) \<longleftrightarrow> x \<in> ran ?m - {u}" for x
    proof
      assume "x \<in> ran (?m(p := None))"
      then obtain a where "a \<noteq> p" "?m a = Some x" by (auto simp: ran_def split: if_splits)
      then show "x \<in> ran ?m - {u}" using only [of a] by (auto intro: ranI)
    next
      assume "x \<in> ran ?m - {u}"
      then obtain a where "?m a = Some x" "x \<noteq> u" by (auto simp: ran_def)
      then have "(?m(p := None)) a = Some x" using Some by auto
      then show "x \<in> ran (?m(p := None))" by (rule ranI)
    qed
    then show ?thesis using Some by auto
  qed
  have "inj_on (?m(p := None)) (dom ?m - {p})" using inj by (auto simp: inj_on_def)
  then show "in_step (detach p s)" using assms ran
    by (auto simp: in_step_def pipes_detach conns_detach split: option.splits)
  show "map_of (pipes s) p = Some u \<Longrightarrow> set (conns (detach p s)) = set (conns s) - {u}"
    using assms by (simp add: in_step_def conns_detach)
qed

end


section \<open>Sending to a live peer\<close>

lemma select_peer_live:
  "connection_uris lb = u # us \<Longrightarrow> endpoint_of core u \<noteq> None \<Longrightarrow>
    select_peer terminated tmo waits core lb = Some (core, lb\<lparr>connection_uris := us @ [u]\<rparr>, Inr u)"
  by (subst select_peer.simps) (simp add: get_next_connection_uri_def)

text \<open>The pipe behind a URI.\<close>

definition peer_channel :: "SocketCore \<Rightarrow> uri \<Rightarrow> nat option" where
  "peer_channel core u = Option.bind (get_endpoint core u) conn_channel"

definition open_room :: "('q \<Rightarrow> Msg list list) \<Rightarrow> ('q \<Rightarrow> nat) \<Rightarrow> ('q \<Rightarrow> bool) \<Rightarrow> nat \<Rightarrow> nat \<Rightarrow> 'q chans \<Rightarrow> bool" where
  "open_room items cap closed n a w \<longleftrightarrow> \<not> closed (w a) \<and> length (items (w a)) + n \<le> cap (w a)"

lemma send_to_peer:
  assumes fifo: "fifo_channel ch items cap closed" and peer: "peer_channel core u = Some a"
    and room: "open_room items cap closed (Suc n) a w"
  obtains conn w' where "get_endpoint core u = Some conn" "endpoint_of core u \<noteq> None"
    "conn_send_multipart ch conn msgs w = Some (w', Inr ())" "delivered items a msgs w w'"
    "open_room items cap closed n a w'"
    "\<And>b k. b \<noteq> a \<Longrightarrow> open_room items cap closed k b w' = open_room items cap closed k b w"
proof -
  obtain conn where conn: "get_endpoint core u = Some conn" "conn_channel conn = Some a"
    using peer by (auto simp: peer_channel_def split: Option.bind_splits)
  then have "has_room items cap closed conn w" using room by (simp add: has_room_def open_room_def)
  then obtain w' where w': "conn_send_multipart ch conn msgs w = Some (w', Inr ())"
    using conn_send_room [OF fifo] by blast
  then have d: "delivered items a msgs w w'" using conn_send_ok [OF fifo w'] conn(2) by simp
  have same: "cap (w' b) = cap (w b)" "closed (w' b) = closed (w b)" for b using conn_send_same [OF fifo w'] by auto
  show ?thesis
  proof (rule that [OF conn(1) _ w' d])
    show "endpoint_of core u \<noteq> None" using conn(1) by (auto simp: get_endpoint_def)
    show "open_room items cap closed n a w'" using room d same by (simp add: open_room_def delivered_def)
    show "open_room items cap closed k b w' = open_room items cap closed k b w" if "b \<noteq> a" for b k
      using that d same by (simp add: open_room_def delivered_def)
  qed
qed


section \<open>Notifiers\<close>

text \<open>
  The \<^verbatim>\<open>Notify\<close> of the REQ and DEALER sockets is tokio's, a parameter (\<open>notify_ops\<close>); \<open>single_permit\<close> states
  its documented behaviour where no task is waiting.
\<close>

record 'n notify_ops =
  notify_new :: 'n
  notify_one :: "'n \<Rightarrow> 'n"
  notify_waiters :: "'n \<Rightarrow> 'n"
  poll_notified :: "'n \<Rightarrow> 'n \<times> bool"

text \<open>
  \<open>notify_one\<close> stores at most one permit, which the next \<open>notified\<close> consumes; \<open>notify_waiters\<close> stores none.
\<close>

definition single_permit :: "'n notify_ops \<Rightarrow> ('n \<Rightarrow> bool) \<Rightarrow> bool" where
  "single_permit nt permit \<longleftrightarrow>
    \<not> permit (notify_new nt) \<and> (\<forall>n. permit (notify_one nt n)) \<and>
    (\<forall>n. permit (notify_waiters nt n) = permit n) \<and>
    (\<forall>n. snd (poll_notified nt n) = permit n \<and> \<not> permit (fst (poll_notified nt n)))"

definition bool_notify :: "bool notify_ops" where
  "bool_notify = \<lparr>notify_new = False, notify_one = (\<lambda>_. True), notify_waiters = (\<lambda>n. n), poll_notified = (\<lambda>n. (False, n))\<rparr>"

lemma bool_notify_permit: "single_permit bool_notify (\<lambda>n. n)"
  by (simp add: single_permit_def bool_notify_def)


section \<open>An example core\<close>

text \<open>A running core with one session per pair of a URI and the number of its pipes.\<close>

definition example_endpoint :: "uri \<Rightarrow> nat \<Rightarrow> EndpointInfo" where
  "example_endpoint u n =
    \<lparr>ep_mailbox = n, task_handle = None, endpoint_type = Session, endpoint_uri = u, pipe_ids = Some (n, n),
     handle_id = n, target_endpoint_uri = Some u, is_outbound_connection = True, peer_socket_type = None,
     connection_iface =
       Sca \<lparr>sca_stop_mailbox = n, sca_handle_id = n, pipe_sender = n, pipe_write_id_to_sca = n,
           sca_sndtimeo = Some 0\<rparr>\<rparr>"

definition example_core :: "(uri \<times> nat) list \<Rightarrow> SocketCore" where
  "example_core peers =
    (let core = socket_core_new 1 0 (options_default\<lparr>rcvtimeo := Some 0\<rparr>)
     in core\<lparr>core_state := (core_state core)
          \<lparr>endpoints := map (\<lambda>(u, n). (u, example_endpoint u n)) peers,
           pipe_read_id_to_endpoint_uri := map (\<lambda>(u, n). (n, u)) peers\<rparr>\<rparr>)"

lemmas example_core_defs = example_core_def example_endpoint_def socket_core_new_def core_state_new_def
  coordinator_default_def is_running_def endpoint_of_def get_endpoint_def uri_of_pipe_def Let_def

end
