(* ===== verification/Push_Pull.thy ===== *)
theory Push_Pull
  imports Socket_Pattern
begin

text \<open>
  The pipeline patterns: \<^verbatim>\<open>core/src/socket/push_socket.rs\<close> and \<^verbatim>\<open>core/src/socket/pull_socket.rs\<close>.  A call that has
  not returned is the value \<^const>\<open>None\<close>; \<open>waits\<close> are the states with which the waits of a call ended.
\<close>

section \<open>PUSH\<close>

record PushSocket =
  push_load_balancer :: LoadBalancer
  push_pipe_read_to_endpoint_uri :: "(nat \<times> uri) list"

definition push_new :: PushSocket where
  "push_new = \<lparr>push_load_balancer = lb_new, push_pipe_read_to_endpoint_uri = []\<rparr>"

definition push_drop_peer :: "uri \<Rightarrow> PushSocket \<Rightarrow> PushSocket" where
  "push_drop_peer u s = s\<lparr>push_load_balancer := remove_connection u (push_load_balancer s)\<rparr>"

definition push_send ::
  "('q, Msg list) chan_ops \<Rightarrow> (SocketCore \<times> LoadBalancer) list \<Rightarrow> SocketCore \<Rightarrow> Msg \<Rightarrow> PushSocket \<Rightarrow> 'q chans \<Rightarrow>
    (PushSocket \<times> 'q chans \<times> unit res) option" where
  "push_send ch waits core msg s w =
    (if \<not> is_running core then Some (s, w, Inl ResourceLimitReached)
     else
       (case select_peer command_mailbox_closed (sndtimeo (options (core_state core))) waits core
               (push_load_balancer s) of
          None \<Rightarrow> None
        | Some (core, lb, Inl e) \<Rightarrow> Some (s\<lparr>push_load_balancer := lb\<rparr>, w, Inl e)
        | Some (core, lb, Inr u) \<Rightarrow>
            (let s = s\<lparr>push_load_balancer := lb\<rparr>
             in case get_endpoint core u of
                  None \<Rightarrow> Some (push_drop_peer u s, w, Inl HostUnreachable)
                | Some conn \<Rightarrow>
                    (case conn_send_message ch conn msg w of
                       None \<Rightarrow> None
                     | Some (w, Inr _) \<Rightarrow> Some (s, w, Inr ())
                     | Some (w, Inl e) \<Rightarrow>
                         (if e = ConnectionClosed then Some (push_drop_peer u s, w, Inl HostUnreachable)
                          else if e = ResourceLimitReached \<or> e = Timeout then Some (s, w, Inl e)
                          else Some (push_drop_peer u s, w, Inl e))))))"

definition push_recv :: "Msg res" where
  "push_recv = Inl UnsupportedFeature"

definition push_send_multipart ::
  "('q, Msg list) chan_ops \<Rightarrow> (SocketCore \<times> LoadBalancer) list \<Rightarrow> SocketCore \<Rightarrow> Msg list \<Rightarrow> PushSocket \<Rightarrow>
    'q chans \<Rightarrow> (PushSocket \<times> 'q chans \<times> unit res) option" where
  "push_send_multipart ch waits core frames s w =
    (if \<not> is_running core then Some (s, w, Inl ResourceLimitReached)
     else if frames = [] then Some (s, w, Inr ())
     else
       (case select_peer (\<lambda>core. \<not> is_running core) (sndtimeo (options (core_state core))) waits core
               (push_load_balancer s) of
          None \<Rightarrow> None
        | Some (core, lb, Inl e) \<Rightarrow> Some (s\<lparr>push_load_balancer := lb\<rparr>, w, Inl e)
        | Some (core, lb, Inr u) \<Rightarrow>
            (let s = s\<lparr>push_load_balancer := lb\<rparr>
             in case get_endpoint core u of
                  None \<Rightarrow> Some (push_drop_peer u s, w, Inl HostUnreachable)
                | Some conn \<Rightarrow>
                    (case conn_send_multipart ch conn (mark_more frames) w of
                       None \<Rightarrow> None
                     | Some (w, Inr _) \<Rightarrow> Some (s, w, Inr ())
                     | Some (w, Inl e) \<Rightarrow>
                         (if e = ConnectionClosed then Some (push_drop_peer u s, w, Inl HostUnreachable)
                          else Some (s, w, Inl e))))))"

definition push_attach :: "nat \<Rightarrow> uri \<Rightarrow> PushSocket \<Rightarrow> PushSocket" where
  "push_attach pipe_read_id u s =
    s\<lparr>push_pipe_read_to_endpoint_uri := alist_put pipe_read_id u (push_pipe_read_to_endpoint_uri s),
      push_load_balancer := add_connection u (push_load_balancer s)\<rparr>"

definition push_pipe_attached :: "SocketCore \<Rightarrow> nat \<Rightarrow> PushSocket \<Rightarrow> PushSocket" where
  "push_pipe_attached core pipe_read_id s =
    (case uri_of_pipe core pipe_read_id of Some u \<Rightarrow> push_attach pipe_read_id u s | None \<Rightarrow> s)"

definition push_pipe_detached :: "nat \<Rightarrow> PushSocket \<Rightarrow> PushSocket" where
  "push_pipe_detached pipe_read_id s =
    (let removed = map_of (push_pipe_read_to_endpoint_uri s) pipe_read_id;
         s = s\<lparr>push_pipe_read_to_endpoint_uri := alist_del pipe_read_id (push_pipe_read_to_endpoint_uri s)\<rparr>
     in case removed of Some u \<Rightarrow> push_drop_peer u s | None \<Rightarrow> s)"


section \<open>PULL\<close>

record 'q PullSocket =
  pull_orchestrator :: "'q IncomingMessageOrchestrator"

definition pull_new :: "('q, Msg list) chan_ops \<Rightarrow> SocketCore \<Rightarrow> 'q PullSocket" where
  "pull_new ch core =
    \<lparr>pull_orchestrator =
       orchestrator_new ch (core_handle (core_state core)) (max (rcvhwm (options (core_state core))) 1)\<rparr>"

definition pull_send :: "unit res" where
  "pull_send = Inl InvalidState"

definition pull_recv ::
  "('q, Msg list) chan_ops \<Rightarrow> SocketCore \<Rightarrow> 'q PullSocket \<Rightarrow> ('q PullSocket \<times> Msg res) option" where
  "pull_recv ch core s =
    (if \<not> is_running core then Some (s, Inl InvalidState)
     else map_option (\<lambda>(orch, r). (s\<lparr>pull_orchestrator := orch\<rparr>, r))
            (recv_message ch (\<lambda>m. m) (rcvtimeo (options (core_state core))) (pull_orchestrator s)))"

definition pull_recv_multipart ::
  "('q, Msg list) chan_ops \<Rightarrow> SocketCore \<Rightarrow> 'q PullSocket \<Rightarrow> ('q PullSocket \<times> Msg list res) option" where
  "pull_recv_multipart ch core s =
    (if \<not> is_running core then Some (s, Inl InvalidState)
     else map_option (\<lambda>(orch, r). (s\<lparr>pull_orchestrator := orch\<rparr>, r))
            (recv_logical_message ch (\<lambda>m. m) (rcvtimeo (options (core_state core))) (pull_orchestrator s)))"

fun pull_handle_pipe_event ::
  "('q, Msg list) chan_ops \<Rightarrow> nat \<Rightarrow> pipe_event \<Rightarrow> 'q PullSocket \<Rightarrow> ('q PullSocket \<times> unit res) option" where
  "pull_handle_pipe_event ch pipe_id (PipeMessageReceived msg) s =
    map_option (\<lambda>(orch, r). (s\<lparr>pull_orchestrator := orch\<rparr>, r))
      (receive_frame ch (\<lambda>m. Inr (Some m)) pipe_id msg (pull_orchestrator s))"
| "pull_handle_pipe_event ch pipe_id PipeClosedByPeer s = Some (s, Inr ())"

definition pull_pipe_detached :: "nat \<Rightarrow> 'q PullSocket \<Rightarrow> 'q PullSocket" where
  "pull_pipe_detached pipe_read_id s =
    s\<lparr>pull_orchestrator := clear_pipe_state pipe_read_id (pull_orchestrator s)\<rparr>"


section \<open>The balanced peers of a PUSH socket\<close>

interpretation push: balanced_socket push_attach push_pipe_detached push_pipe_read_to_endpoint_uri
  "\<lambda>s. connection_uris (push_load_balancer s)"
  by unfold_locales
    (auto simp: push_attach_def push_pipe_detached_def push_drop_peer_def Let_def lb.conns_add lb.conns_remove
      split: option.split)

fun push_run ::
  "('q, Msg list) chan_ops \<Rightarrow> SocketCore \<Rightarrow> Msg list \<Rightarrow> PushSocket \<Rightarrow> 'q chans \<Rightarrow> (PushSocket \<times> 'q chans) option" where
  "push_run ch core [] s w = Some (s, w)"
| "push_run ch core (m # ms) s w =
    (case push_send ch [] core m s w of
       Some (s', w', Inr _) \<Rightarrow> push_run ch core ms s' w'
     | _ \<Rightarrow> None)"

text \<open>The messages of a run that the peer at \<open>u\<close> gets when the peers take turns.\<close>

definition dealt :: "uri list \<Rightarrow> uri \<Rightarrow> 'm list \<Rightarrow> 'm list" where
  "dealt us u ms = map ((!) ms) (filter (\<lambda>j. us ! (j mod length us) = u) [0..<length ms])"

lemma dealt_simps:
  "dealt us u [] = []"
  "us \<noteq> [] \<Longrightarrow> dealt us u (m # ms) = (if hd us = u then [m] else []) @ dealt (rotate1 us) u ms"
proof -
  show "dealt us u [] = []" by (simp add: dealt_def)
  assume ne: "us \<noteq> []"
  have "[0..<length (m # ms)] = 0 # map Suc [0..<length ms]" by (simp add: upt_conv_Cons map_Suc_upt del: upt_Suc)
  moreover have "us ! (Suc j mod length us) = rotate1 us ! (j mod length us)" for j
    using ne by (simp add: nth_rotate1 mod_Suc_eq)
  ultimately show "dealt us u (m # ms) = (if hd us = u then [m] else []) @ dealt (rotate1 us) u ms"
    using ne by (simp add: dealt_def filter_map comp_def hd_conv_nth del: upt_Suc)
qed

text \<open>
  C16. A PUSH socket deals its messages out in turns: while the peers' pipes have room, every \<open>send\<close> succeeds,
  and of a run of messages the \<open>j\<close>-th is appended to the pipe of the \<open>j\<close>-th peer, counted modulo their
  number, whatever its flags; nothing is lost, duplicated or reordered within a pipe, and no other pipe
  changes.
\<close>

theorem push_round_robin:
  assumes "fifo_channel ch items cap closed" "is_running core"
    and "connection_uris (push_load_balancer s) \<noteq> []"
    and "\<forall>u\<in>set (connection_uris (push_load_balancer s)). peer_channel core u = Some (chan u) \<and>
      open_room items cap closed (length (dealt (connection_uris (push_load_balancer s)) u ms)) (chan u) w"
    and "inj_on chan (set (connection_uris (push_load_balancer s)))"
  shows "\<exists>s' w'. push_run ch core ms s w = Some (s', w') \<and>
    (\<forall>u\<in>set (connection_uris (push_load_balancer s)). items (w' (chan u)) =
       items (w (chan u)) @ map (\<lambda>m. [m]) (dealt (connection_uris (push_load_balancer s)) u ms)) \<and>
    (\<forall>a. a \<notin> chan ` set (connection_uris (push_load_balancer s)) \<longrightarrow> items (w' a) = items (w a))"
  using assms(3-)
proof (induction ms arbitrary: s w)
  case Nil
  then show ?case by (simp add: dealt_simps)
next
  case (Cons m ms)
  obtain u us where us: "connection_uris (push_load_balancer s) = u # us"
    using Cons.prems(1) by (cases "connection_uris (push_load_balancer s)") auto
  let ?s = "s\<lparr>push_load_balancer := (push_load_balancer s)\<lparr>connection_uris := us @ [u]\<rparr>\<rparr>"
  have chan: "peer_channel core u = Some (chan u)"
    and room: "open_room items cap closed (Suc (length (dealt (us @ [u]) u ms))) (chan u) w"
    using Cons.prems(2) by (simp_all add: us dealt_simps)
  obtain conn w1 where sent: "get_endpoint core u = Some conn" "endpoint_of core u \<noteq> None"
      "conn_send_multipart ch conn [m] w = Some (w1, Inr ())" "delivered items (chan u) [m] w w1"
      "open_room items cap closed (length (dealt (us @ [u]) u ms)) (chan u) w1"
      "\<And>b k. b \<noteq> chan u \<Longrightarrow> open_room items cap closed k b w1 = open_room items cap closed k b w"
    using send_to_peer [OF assms(1) chan room, of "[m]"] by metis
  have step: "push_send ch [] core m s w = Some (?s, w1, Inr ())"
    using assms(2) sent(1,3) select_peer_live [OF us sent(2)]
    by (simp add: push_send_def conn_send_message_def Let_def)
  have rest: "\<forall>v\<in>set (us @ [u]). peer_channel core v = Some (chan v) \<and>
      open_room items cap closed (length (dealt (us @ [u]) v ms)) (chan v) w1"
  proof
    fix v assume v: "v \<in> set (us @ [u])"
    then have "peer_channel core v = Some (chan v) \<and>
        open_room items cap closed (length (dealt (u # us) v (m # ms))) (chan v) w"
      using Cons.prems(2) by (auto simp: us)
    moreover have "v \<noteq> u \<Longrightarrow> chan v \<noteq> chan u"
      using v Cons.prems(3) by (auto simp: us inj_on_def)
    ultimately show "peer_channel core v = Some (chan v) \<and>
        open_room items cap closed (length (dealt (us @ [u]) v ms)) (chan v) w1"
      using sent(5,6) by (cases "v = u") (auto simp: dealt_simps)
  qed
  obtain s' w' where IH: "push_run ch core ms ?s w1 = Some (s', w')"
      "\<forall>v\<in>set (us @ [u]). items (w' (chan v)) = items (w1 (chan v)) @ map (\<lambda>m. [m]) (dealt (us @ [u]) v ms)"
      "\<forall>a. a \<notin> chan ` set (us @ [u]) \<longrightarrow> items (w' a) = items (w1 a)"
    using Cons.IH [of ?s w1] rest Cons.prems(3) by (auto simp: us)
  have "items (w' (chan v)) = items (w (chan v)) @ map (\<lambda>m. [m]) (dealt (u # us) v (m # ms))"
    if v: "v \<in> set (u # us)" for v
  proof -
    have "chan v = chan u \<longleftrightarrow> v = u" using v Cons.prems(3) by (auto simp: us inj_on_def)
    then show ?thesis using IH(2) v sent(4) by (auto simp: dealt_simps delivered_def)
  qed
  moreover have "items (w' a) = items (w a)" if "a \<notin> chan ` set (u # us)" for a
    using IH(3) that sent(4) by (auto simp: delivered_def)
  ultimately show ?case using step IH(1) by (simp add: us)
qed

theorem push_round_robin_witness:
  "\<exists>s' w'. push_run list_channel (example_core [(''a'', 2), (''b'', 3)])
      [with_more True msg_new, msg_from_vec [1], msg_from_vec [2]]
      (push_attach 3 ''b'' (push_attach 2 ''a'' push_new)) (\<lambda>_. ([], 2, False)) = Some (s', w') \<and>
    fst (w' 2) = [[with_more True msg_new], [msg_from_vec [2]]] \<and> fst (w' 3) = [[msg_from_vec [1]]]"
proof -
  let ?s = "push_attach 3 ''b'' (push_attach 2 ''a'' push_new)"
  let ?ms = "[with_more True msg_new, msg_from_vec [1], msg_from_vec [2]]"
  have us: "connection_uris (push_load_balancer ?s) = [''a'', ''b'']"
    by (simp add: push_attach_def push_new_def add_connection_def lb_new_def)
  have d: "dealt [''a'', ''b''] ''a'' ?ms = [with_more True msg_new, msg_from_vec [2]]"
    "dealt [''a'', ''b''] ''b'' ?ms = [msg_from_vec [1]]"
    by (simp_all add: dealt_simps)
  show ?thesis
    using push_round_robin [OF list_channel_fifo, of "example_core [(''a'', 2), (''b'', 3)]" ?s
      "\<lambda>u. if u = ''a'' then 2 else 3" ?ms "\<lambda>_. ([], 2, False)"]
    by (auto simp: us d peer_channel_def open_room_def example_core_defs)
qed

section \<open>What a PULL socket returns\<close>

interpretation pull: inbound_socket ch pull_orchestrator "\<lambda>orch s. s\<lparr>pull_orchestrator := orch\<rparr>"
  "pull_handle_pipe_event ch" "\<lambda>s p m. Some m" "pull_recv_multipart ch" "\<lambda>m. m" for ch
  by unfold_locales (simp_all add: pull_recv_multipart_def)

lemma items_of_Some [simp]: "items_of (\<lambda>p m. Some m) ms = map snd ms"
  by (induction ms) auto

text \<open>
  C17. A PULL socket returns every complete message exactly once: whatever the interleaving in which frames
  arrive on its connections, as long as the complete messages do not exceed the receive high-water mark,
  successive calls of \<open>recv_multipart\<close> return a sequence of messages whose part from each connection is
  the sequence of messages in that connection's own frames, in their order.
\<close>

theorem pull_returns_each_message:
  assumes "fifo_channel ch items cap closed" "is_running core"
    and "length (filter (\<lambda>x. \<not> is_more (snd x)) fs) \<le> max (rcvhwm (options (core_state core))) 1"
  shows "\<exists>s tagged s'. feed (pull_handle_pipe_event ch) fs (pull_new ch core) = Some s \<and>
    receive_all (pull_recv_multipart ch core) (length tagged) s = Some (s', map snd tagged) \<and>
    (\<forall>p. map snd (filter (\<lambda>x. fst x = p) tagged) =
      fst (split_messages [] (map snd (filter (\<lambda>x. fst x = p) fs))))"
proof -
  let ?o = "pull_orchestrator (pull_new ch core)"
  let ?tagged = "snd (assemble_run accumulate_pipe_frame fs ?o)"
  have start: "\<not> orch_items closed ?o" "orch_items items ?o = []"
    "orch_items cap ?o = max (rcvhwm (options (core_state core))) 1" "\<And>p. pending_frames ?o p = []"
    by (simp_all add: pull_new_def orchestrator_new_def fq_new_def fifo_new [OF assms(1)] pending_frames_def)
  obtain s s' where "feed (pull_handle_pipe_event ch) fs (pull_new ch core) = Some s"
      "receive_all (pull_recv_multipart ch core) (length ?tagged) s = Some (s', map snd ?tagged)"
    using pull.delivers [OF assms(1,2) start(1,2), of fs] start(3) assms(3) by auto
  moreover have "map snd (filter (\<lambda>x. fst x = p) ?tagged) =
      fst (split_messages [] (map snd (filter (\<lambda>x. fst x = p) fs)))" for p
    using orch.assemble_per_pipe [of ?o p fs] start(4) by simp
  ultimately show ?thesis by blast
qed

theorem pull_returns_each_message_witness:
  "\<exists>s tagged s'. feed (pull_handle_pipe_event list_channel)
      [(2::nat, with_more True msg_new), (3, msg_from_vec [1]), (2, msg_from_vec [2])]
      (pull_new list_channel (example_core [])) = Some s \<and>
    receive_all (pull_recv_multipart list_channel (example_core [])) (length tagged) s = Some (s', map snd tagged) \<and>
    (\<forall>p. map snd (filter (\<lambda>x. fst x = p) tagged) =
      fst (split_messages [] (map snd (filter (\<lambda>x. fst x = p)
        [(2::nat, with_more True msg_new), (3, msg_from_vec [1]), (2, msg_from_vec [2])]))))"
  by (rule pull_returns_each_message [OF list_channel_fifo])
    (simp_all add: example_core_defs options_default_def)

end
