(* ===== verification/Pub_Sub.thy ===== *)
theory Pub_Sub
  imports Socket_Pattern Trie
begin

text \<open>
  Publish and subscribe: the distributor (\<^verbatim>\<open>core/src/socket/patterns/distributor.rs\<close>), the PUB socket
  (\<^verbatim>\<open>core/src/socket/pub_socket.rs\<close>) and the SUB socket (\<^verbatim>\<open>core/src/socket/sub_socket.rs\<close>).  The distributor's hash
  set of URIs is a list without repetitions in the set's iteration order.  A PUB socket sends every
  message to every peer; the filtering by topic takes place in the SUB socket.
\<close>

section \<open>The distributor\<close>

record Distributor =
  peer_uris :: "uri list"

definition distributor_new :: Distributor where
  "distributor_new = \<lparr>peer_uris = []\<rparr>"

definition add_peer_uri :: "uri \<Rightarrow> Distributor \<Rightarrow> Distributor" where
  "add_peer_uri u d = d\<lparr>peer_uris := List.insert u (peer_uris d)\<rparr>"

definition remove_peer_uri :: "uri \<Rightarrow> Distributor \<Rightarrow> Distributor" where
  "remove_peer_uri u d = d\<lparr>peer_uris := filter (\<lambda>v. v \<noteq> u) (peer_uris d)\<rparr>"

definition get_peer_uris :: "Distributor \<Rightarrow> uri list" where
  "get_peer_uris d = peer_uris d"

text \<open>The loop over the peers that both ways of sending share; the failures are collected in order.\<close>

fun distribute ::
  "('q, Msg list) chan_ops \<Rightarrow> SocketCore \<Rightarrow> Msg list \<Rightarrow> uri list \<Rightarrow> 'q chans \<Rightarrow>
    ('q chans \<times> (uri \<times> ZmqError) list) option" where
  "distribute ch core msgs [] w = Some (w, [])"
| "distribute ch core msgs (u # us) w =
    (case get_endpoint core u of
       None \<Rightarrow> map_option (\<lambda>(w, failed). (w, (u, Internal) # failed)) (distribute ch core msgs us w)
     | Some conn \<Rightarrow>
         (case conn_send_multipart ch conn msgs w of
            None \<Rightarrow> None
          | Some (w, Inr _) \<Rightarrow> distribute ch core msgs us w
          | Some (w, Inl e) \<Rightarrow>
              if e = ResourceLimitReached \<or> e = Timeout then distribute ch core msgs us w
              else map_option (\<lambda>(w, failed). (w, (u, e) # failed)) (distribute ch core msgs us w)))"

definition send_to_all ::
  "('q, Msg list) chan_ops \<Rightarrow> SocketCore \<Rightarrow> Msg \<Rightarrow> Distributor \<Rightarrow> 'q chans \<Rightarrow>
    ('q chans \<times> ((uri \<times> ZmqError) list + unit)) option" where
  "send_to_all ch core msg d w =
    map_option (\<lambda>(w, failed). (w, if failed = [] then Inr () else Inl failed))
      (distribute ch core [msg] (get_peer_uris d) w)"

definition send_to_all_multipart ::
  "('q, Msg list) chan_ops \<Rightarrow> SocketCore \<Rightarrow> Msg list \<Rightarrow> Distributor \<Rightarrow> 'q chans \<Rightarrow>
    ('q chans \<times> ((uri \<times> ZmqError) list + unit)) option" where
  "send_to_all_multipart ch core zmtp_frames d w =
    (if get_peer_uris d = [] \<or> zmtp_frames = [] then Some (w, Inr ())
     else map_option (\<lambda>(w, failed). (w, if failed = [] then Inr () else Inl failed))
            (distribute ch core zmtp_frames (get_peer_uris d) w))"


section \<open>PUB\<close>

record PubSocket =
  distributor :: Distributor
  pub_pipe_read_to_endpoint_uri :: "(nat \<times> uri) list"

definition pub_new :: PubSocket where
  "pub_new = \<lparr>distributor = distributor_new, pub_pipe_read_to_endpoint_uri = []\<rparr>"

definition pub_drop_failed :: "(uri \<times> ZmqError) list \<Rightarrow> PubSocket \<Rightarrow> PubSocket" where
  "pub_drop_failed failed s =
    s\<lparr>distributor := fold (\<lambda>(u, e). remove_peer_uri u) failed (distributor s)\<rparr>"

definition pub_send ::
  "('q, Msg list) chan_ops \<Rightarrow> SocketCore \<Rightarrow> Msg \<Rightarrow> PubSocket \<Rightarrow> 'q chans \<Rightarrow>
    (PubSocket \<times> 'q chans \<times> unit res) option" where
  "pub_send ch core msg s w =
    (if \<not> is_running core then Some (s, w, Inl InvalidState)
     else
       (case send_to_all ch core msg (distributor s) w of
          None \<Rightarrow> None
        | Some (w, Inr _) \<Rightarrow> Some (s, w, Inr ())
        | Some (w, Inl failed) \<Rightarrow> Some (pub_drop_failed failed s, w, Inr ())))"

definition pub_recv :: "Msg res" where "pub_recv = Inl InvalidState"

definition pub_send_multipart ::
  "('q, Msg list) chan_ops \<Rightarrow> SocketCore \<Rightarrow> Msg list \<Rightarrow> PubSocket \<Rightarrow> 'q chans \<Rightarrow>
    (PubSocket \<times> 'q chans \<times> unit res) option" where
  "pub_send_multipart ch core frames s w =
    (if \<not> is_running core then Some (s, w, Inl InvalidState)
     else if frames = [] then Some (s, w, Inr ())
     else
       (case send_to_all_multipart ch core (mark_more frames) (distributor s) w of
          None \<Rightarrow> None
        | Some (w, Inr _) \<Rightarrow> Some (s, w, Inr ())
        | Some (w, Inl failed) \<Rightarrow> Some (pub_drop_failed failed s, w, Inr ())))"

definition pub_recv_multipart :: "Msg list res" where "pub_recv_multipart = Inl UnsupportedFeature"

definition pub_handle_pipe_event :: "nat \<Rightarrow> pipe_event \<Rightarrow> PubSocket \<Rightarrow> PubSocket \<times> unit res" where
  "pub_handle_pipe_event pipe_id event s = (s, Inr ())"

definition pub_pipe_attached :: "SocketCore \<Rightarrow> nat \<Rightarrow> PubSocket \<Rightarrow> PubSocket" where
  "pub_pipe_attached core pipe_read_id s =
    (case uri_of_pipe core pipe_read_id of
       Some u \<Rightarrow>
         s\<lparr>pub_pipe_read_to_endpoint_uri := alist_put pipe_read_id u (pub_pipe_read_to_endpoint_uri s),
           distributor := add_peer_uri u (distributor s)\<rparr>
     | None \<Rightarrow> s)"

definition pub_pipe_detached :: "nat \<Rightarrow> PubSocket \<Rightarrow> PubSocket" where
  "pub_pipe_detached pipe_read_id s =
    (let removed = map_of (pub_pipe_read_to_endpoint_uri s) pipe_read_id;
         s = s\<lparr>pub_pipe_read_to_endpoint_uri := alist_del pipe_read_id (pub_pipe_read_to_endpoint_uri s)\<rparr>
     in case removed of
          Some u \<Rightarrow> s\<lparr>distributor := remove_peer_uri u (distributor s)\<rparr>
        | None \<Rightarrow> s)"


section \<open>SUB\<close>

record 'q SubSocket =
  subscriptions :: TrieNode
  sub_orchestrator :: "'q IncomingMessageOrchestrator"
  sub_pipe_read_to_endpoint_uri :: "(nat \<times> uri) list"

definition sub_new :: "('q, Msg list) chan_ops \<Rightarrow> SocketCore \<Rightarrow> 'q SubSocket" where
  "sub_new ch core =
    \<lparr>subscriptions = trie_new,
     sub_orchestrator =
       orchestrator_new ch (core_handle (core_state core)) (rcvhwm (options (core_state core))),
     sub_pipe_read_to_endpoint_uri = []\<rparr>"

definition construct_subscription_message :: "bool \<Rightarrow> bytes \<Rightarrow> Msg" where
  "construct_subscription_message is_subscribe topic =
    msg_from_vec ((if is_subscribe then 0x01 else 0x00) # topic)"

text \<open>Failures of single peers are logged and ignored.\<close>

definition send_subscription_command_to_uri ::
  "('q, Msg list) chan_ops \<Rightarrow> SocketCore \<Rightarrow> uri \<Rightarrow> Msg \<Rightarrow> 'q chans \<Rightarrow> 'q chans option" where
  "send_subscription_command_to_uri ch core u msg w =
    (case get_endpoint core u of
       Some conn \<Rightarrow> map_option fst (conn_send_message ch conn msg w)
     | None \<Rightarrow> Some w)"

fun send_subscription_commands ::
  "('q, Msg list) chan_ops \<Rightarrow> SocketCore \<Rightarrow> Msg \<Rightarrow> uri list \<Rightarrow> 'q chans \<Rightarrow> 'q chans option" where
  "send_subscription_commands ch core msg [] w = Some w"
| "send_subscription_commands ch core msg (u # us) w =
    Option.bind (send_subscription_command_to_uri ch core u msg w) (send_subscription_commands ch core msg us)"

definition send_subscription_command_to_all ::
  "('q, Msg list) chan_ops \<Rightarrow> SocketCore \<Rightarrow> bool \<Rightarrow> bytes \<Rightarrow> 'q SubSocket \<Rightarrow> 'q chans \<Rightarrow> 'q chans option" where
  "send_subscription_command_to_all ch core is_subscribe topic s w =
    send_subscription_commands ch core (construct_subscription_message is_subscribe topic)
      (map snd (sub_pipe_read_to_endpoint_uri s)) w"

definition sub_send :: "unit res" where "sub_send = Inl InvalidState"

definition sub_recv ::
  "('q, Msg list) chan_ops \<Rightarrow> SocketCore \<Rightarrow> 'q SubSocket \<Rightarrow> ('q SubSocket \<times> Msg res) option" where
  "sub_recv ch core s =
    (if \<not> is_running core then Some (s, Inl InvalidState)
     else map_option (\<lambda>(orch, r). (s\<lparr>sub_orchestrator := orch\<rparr>, r))
            (recv_message ch (\<lambda>m. m) (rcvtimeo (options (core_state core))) (sub_orchestrator s)))"

definition sub_recv_multipart ::
  "('q, Msg list) chan_ops \<Rightarrow> SocketCore \<Rightarrow> 'q SubSocket \<Rightarrow> ('q SubSocket \<times> Msg list res) option" where
  "sub_recv_multipart ch core s =
    (if \<not> is_running core then Some (s, Inl InvalidState)
     else map_option (\<lambda>(orch, r). (s\<lparr>sub_orchestrator := orch\<rparr>, r))
            (recv_logical_message ch (\<lambda>m. m) (rcvtimeo (options (core_state core))) (sub_orchestrator s)))"

definition sub_set_pattern_option ::
  "('q, Msg list) chan_ops \<Rightarrow> SocketCore \<Rightarrow> int \<Rightarrow> bytes \<Rightarrow> 'q SubSocket \<Rightarrow> 'q chans \<Rightarrow>
    ('q SubSocket \<times> 'q chans \<times> unit res) option" where
  "sub_set_pattern_option ch core opt topic s w =
    (if opt = SUBSCRIBE then
       (let s = s\<lparr>subscriptions := subscribe topic (subscriptions s)\<rparr>
        in map_option (\<lambda>w. (s, w, Inr ())) (send_subscription_command_to_all ch core True topic s w))
     else if opt = UNSUBSCRIBE then
       (case unsubscribe topic (subscriptions s) of (t, was_last) \<Rightarrow>
          let s = s\<lparr>subscriptions := t\<rparr>
          in if was_last then map_option (\<lambda>w. (s, w, Inr ())) (send_subscription_command_to_all ch core False topic s w)
             else Some (s, w, Inr ()))
     else Some (s, w, Inl (UnsupportedOption opt)))"

fun sub_handle_pipe_event ::
  "('q, Msg list) chan_ops \<Rightarrow> nat \<Rightarrow> pipe_event \<Rightarrow> 'q SubSocket \<Rightarrow> ('q SubSocket \<times> unit res) option" where
  "sub_handle_pipe_event ch pipe_read_id (PipeMessageReceived msg) s =
    map_option (\<lambda>(orch, r). (s\<lparr>sub_orchestrator := orch\<rparr>, r))
      (receive_frame ch
        (\<lambda>m. Inr (if matches (subscriptions s) (case m of [] \<Rightarrow> [] | f # _ \<Rightarrow> msg_payload f) then Some m else None))
        pipe_read_id msg (sub_orchestrator s))"
| "sub_handle_pipe_event ch pipe_read_id PipeClosedByPeer s = Some (s, Inr ())"

text \<open>The synchronisation of a new peer stops at the first topic that cannot be sent.\<close>

fun sync_topics ::
  "('q, Msg list) chan_ops \<Rightarrow> ISocketConnection \<Rightarrow> bytes list \<Rightarrow> 'q chans \<Rightarrow> 'q chans option" where
  "sync_topics ch conn [] w = Some w"
| "sync_topics ch conn (topic # topics) w =
    (case conn_send_message ch conn (construct_subscription_message True topic) w of
       None \<Rightarrow> None
     | Some (w, Inr _) \<Rightarrow> sync_topics ch conn topics w
     | Some (w, Inl _) \<Rightarrow> Some w)"

definition sub_pipe_attached ::
  "('q, Msg list) chan_ops \<Rightarrow> SocketCore \<Rightarrow> nat \<Rightarrow> 'q SubSocket \<Rightarrow> 'q chans \<Rightarrow> ('q SubSocket \<times> 'q chans) option" where
  "sub_pipe_attached ch core pipe_read_id s w =
    (case uri_of_pipe core pipe_read_id of
       None \<Rightarrow> Some (s, w)
     | Some u \<Rightarrow>
         (let s = s\<lparr>sub_pipe_read_to_endpoint_uri :=
                alist_put pipe_read_id u (sub_pipe_read_to_endpoint_uri s)\<rparr>;
              current_topics = get_all_topics (subscriptions s)
          in if current_topics = [] then Some (s, w)
             else
               (case get_endpoint core u of
                  None \<Rightarrow> Some (s, w)
                | Some conn \<Rightarrow> map_option (\<lambda>w. (s, w)) (sync_topics ch conn current_topics w))))"

definition sub_pipe_detached :: "nat \<Rightarrow> 'q SubSocket \<Rightarrow> 'q SubSocket" where
  "sub_pipe_detached pipe_read_id s =
    s\<lparr>sub_pipe_read_to_endpoint_uri := alist_del pipe_read_id (sub_pipe_read_to_endpoint_uri s),
      sub_orchestrator := clear_pipe_state pipe_read_id (sub_orchestrator s)\<rparr>"


section \<open>Publishing\<close>

text \<open>The pipe of a peer that is reached through a session.\<close>

definition session_pipe :: "SocketCore \<Rightarrow> uri \<Rightarrow> nat option" where
  "session_pipe core u = (case get_endpoint core u of Some (Sca c) \<Rightarrow> Some (pipe_sender c) | _ \<Rightarrow> None)"

lemma session_pipeD:
  "session_pipe core u = Some a \<Longrightarrow> \<exists>c. get_endpoint core u = Some (Sca c) \<and> pipe_sender c = a"
  by (auto simp: session_pipe_def split: option.splits ISocketConnection.splits)

text \<open>What sending to one session does: the three states its pipe can be in.\<close>

lemma session_send:
  assumes fifo: "fifo_channel ch items cap closed"
  obtains w' r where "conn_send_multipart ch (Sca c) msgs w = Some (w', r)"
    "r = (if closed (w (pipe_sender c)) then Inl ConnectionClosed
          else if length (items (w (pipe_sender c))) < cap (w (pipe_sender c)) then Inr ()
          else Inl ResourceLimitReached)"
    "\<And>a. items (w' a) = items (w a) @ (if a = pipe_sender c \<and> r = Inr () then [msgs] else [])"
    "\<And>a. cap (w' a) = cap (w a)" "\<And>a. closed (w' a) = closed (w a)"
proof -
  let ?a = "pipe_sender c"
  obtain q t where q: "try_send ch msgs (w ?a) = (q, t)" by fastforce
  obtain w' r where s: "conn_send_multipart ch (Sca c) msgs w = Some (w', r)"
    by (cases "sca_send_multipart ch c msgs w") auto
  have r: "r = (if closed (w ?a) then Inl ConnectionClosed
      else if length (items (w ?a)) < cap (w ?a) then Inr () else Inl ResourceLimitReached)"
    using s q fifo_send(3-5) [OF fifo q]
    by (cases "closed (w ?a)"; cases "length (items (w ?a)) < cap (w ?a)")
      (auto simp: conn_send_defs split: if_splits)
  have "items (w' a) = items (w a) @ (if a = ?a \<and> r = Inr () then [msgs] else [])" for a
  proof (cases r)
    case (Inl e)
    then show ?thesis using conn_send_error [OF fifo, of "Sca c" msgs w w' e] s by (simp add: undelivered_def)
  next
    case (Inr x)
    then show ?thesis using conn_send_ok [OF fifo, of "Sca c" msgs w w'] s by (auto simp: delivered_def)
  qed
  from that [OF s r this] show ?thesis using conn_send_same [OF fifo s] by blast
qed

lemma distribute_sessions:
  assumes fifo: "fifo_channel ch items cap closed"
  shows "\<forall>u\<in>set us. session_pipe core u = Some (chan u) \<or> get_endpoint core u = None \<Longrightarrow>
    inj_on chan {u \<in> set us. get_endpoint core u \<noteq> None} \<Longrightarrow> distinct us \<Longrightarrow>
    \<exists>w' failed. distribute ch core msgs us w = Some (w', failed) \<and>
      map fst failed = filter (\<lambda>u. get_endpoint core u = None \<or> closed (w (chan u))) us \<and>
      (\<forall>a. cap (w' a) = cap (w a) \<and> closed (w' a) = closed (w a) \<and> items (w' a) = items (w a) @
        (if \<not> closed (w a) \<and> length (items (w a)) < cap (w a) \<and>
            (\<exists>u\<in>set us. get_endpoint core u \<noteq> None \<and> chan u = a)
         then [msgs] else []))"
proof (induction us arbitrary: w)
  case Nil
  then show ?case by simp
next
  case (Cons u us)
  have prems: "\<forall>u\<in>set us. session_pipe core u = Some (chan u) \<or> get_endpoint core u = None"
    "inj_on chan {u \<in> set us. get_endpoint core u \<noteq> None}" "distinct us" "u \<notin> set us"
    using Cons.prems by (auto intro: inj_on_subset)
  show ?case
  proof (cases "get_endpoint core u")
    case None
    then show ?thesis using Cons.IH [OF prems(1-3), of w] by auto
  next
    case (Some conn)
    then obtain c where c: "get_endpoint core u = Some (Sca c)" "pipe_sender c = chan u"
      using Cons.prems(1) session_pipeD [of core u] by auto
    obtain w1 r where s: "conn_send_multipart ch (Sca c) msgs w = Some (w1, r)"
      "r = (if closed (w (chan u)) then Inl ConnectionClosed
          else if length (items (w (chan u))) < cap (w (chan u)) then Inr () else Inl ResourceLimitReached)"
      "\<And>a. items (w1 a) = items (w a) @ (if a = chan u \<and> r = Inr () then [msgs] else [])"
      "\<And>a. cap (w1 a) = cap (w a)" "\<And>a. closed (w1 a) = closed (w a)"
      using session_send [OF fifo, of c msgs w] c(2) by metis
    obtain w' failed where IH: "distribute ch core msgs us w1 = Some (w', failed)"
      "map fst failed = filter (\<lambda>u. get_endpoint core u = None \<or> closed (w1 (chan u))) us"
      "\<And>a. cap (w' a) = cap (w1 a)" "\<And>a. closed (w' a) = closed (w1 a)"
      "\<And>a. items (w' a) = items (w1 a) @ (if \<not> closed (w1 a) \<and> length (items (w1 a)) < cap (w1 a) \<and>
            (\<exists>u\<in>set us. get_endpoint core u \<noteq> None \<and> chan u = a) then [msgs] else [])"
      using Cons.IH [OF prems(1-3), of w1] by blast
    have other: "\<not> (\<exists>v\<in>set us. get_endpoint core v \<noteq> None \<and> chan v = chan u)"
      using Cons.prems(2) c(1) prems(4) by (auto simp: inj_on_def)
    have "items (w' a) = items (w a) @ (if \<not> closed (w a) \<and> length (items (w a)) < cap (w a) \<and>
        (\<exists>v\<in>set (u # us). get_endpoint core v \<noteq> None \<and> chan v = a) then [msgs] else [])" for a
      using IH(5) [of a] s(2,3,4,5) c(1) other by (cases "a = chan u") auto
    moreover obtain failed' where "distribute ch core msgs (u # us) w = Some (w', failed')"
        "map fst failed' = filter (\<lambda>u. get_endpoint core u = None \<or> closed (w (chan u))) (u # us)"
      using that IH(1,2) s(1,2,5) c(1)
      by (cases "closed (w (chan u))"; cases "length (items (w (chan u))) < cap (w (chan u))") auto
    ultimately show ?thesis
      by (intro exI [of _ w'] exI [of _ failed']) (simp only: IH(3,4) s(4,5) simp_thms)
  qed
qed

text \<open>Removing the failed peers.\<close>

lemma pub_drop_failed_uris:
  "peer_uris (distributor (pub_drop_failed failed s)) =
    filter (\<lambda>u. u \<notin> set (map fst failed)) (peer_uris (distributor s))"
proof -
  have "peer_uris (fold (\<lambda>(u, e). remove_peer_uri u) failed d) = filter (\<lambda>u. u \<notin> set (map fst failed)) (peer_uris d)" for d
    by (induction failed arbitrary: d) (auto simp: remove_peer_uri_def split_def conj_commute)
  then show ?thesis by (simp add: pub_drop_failed_def)
qed




section \<open>Subscribing\<close>

interpretation sub: inbound_socket ch sub_orchestrator "\<lambda>orch s. s\<lparr>sub_orchestrator := orch\<rparr>"
  "sub_handle_pipe_event ch"
  "\<lambda>s p m. if matches (subscriptions s) (case m of [] \<Rightarrow> [] | f # _ \<Rightarrow> msg_payload f) then Some m else None"
  "sub_recv_multipart ch" "\<lambda>m. m" for ch
  by unfold_locales (simp_all add: sub_recv_multipart_def)

text \<open>A sequence of subscribe and unsubscribe calls of the application.\<close>

fun sub_configure ::
  "('q, Msg list) chan_ops \<Rightarrow> SocketCore \<Rightarrow> sub_op list \<Rightarrow> 'q SubSocket \<Rightarrow> 'q chans \<Rightarrow>
    ('q SubSocket \<times> 'q chans) option" where
  "sub_configure ch core [] s w = Some (s, w)"
| "sub_configure ch core (x # xs) s w =
    (case (case x of
             Subscribe topic \<Rightarrow> sub_set_pattern_option ch core SUBSCRIBE topic s w
           | Unsubscribe topic \<Rightarrow> sub_set_pattern_option ch core UNSUBSCRIBE topic s w) of
       Some (s', w', Inr _) \<Rightarrow> sub_configure ch core xs s' w'
     | _ \<Rightarrow> None)"

lemma sub_configure_result:
  "sub_configure ch core xs s w = Some (s', w') \<Longrightarrow> s' = s\<lparr>subscriptions := fold trie_op xs (subscriptions s)\<rparr>"
proof (induction xs arbitrary: s w)
  case Nil
  then show ?case by simp
next
  case (Cons x xs)
  have "SUBSCRIBE \<noteq> UNSUBSCRIBE" by (simp add: option_ids)
  then obtain w1 where "sub_configure ch core xs (s\<lparr>subscriptions := trie_op x (subscriptions s)\<rparr>) w1 = Some (s', w')"
    using Cons.prems
    by (cases x) (auto simp: sub_set_pattern_option_def Let_def split: option.splits prod.splits if_splits)
  from Cons.IH [OF this] show ?case by simp
qed

lemma configured_trie:
  assumes "length xs < 2 ^ 64 - 1"
  shows "trie_wf (fold trie_op xs trie_new)"
    "topic_count (fold trie_op xs trie_new) p = count (fold spec_op xs {#}) p"
proof -
  have "trie_op = (\<lambda>x t. case x of Subscribe p \<Rightarrow> subscribe p t | Unsubscribe p \<Rightarrow> fst (unsubscribe p t))"
    by (intro ext) (auto split: sub_op.split)
  with trie.refines_multiset [OF assms] show "trie_wf (fold trie_op xs trie_new)"
    "topic_count (fold trie_op xs trie_new) p = count (fold spec_op xs {#}) p" by auto
qed

text \<open>The topic of a message, and whether one of the subscribed topics is a prefix of it.\<close>

definition wanted :: "bytes multiset \<Rightarrow> Msg list \<Rightarrow> bool" where
  "wanted M m \<longleftrightarrow> (\<exists>p \<in># M. prefix p (case m of [] \<Rightarrow> [] | f # _ \<Rightarrow> msg_payload f))"

lemma items_of_filter:
  "items_of (\<lambda>p m. if P m then Some m else None) ms = filter P (map snd ms)"
  by (induction ms) auto



lemma sync_topics_room:
  assumes fifo: "fifo_channel ch items cap closed"
  shows "\<not> closed (w (pipe_sender c)) \<Longrightarrow>
    length (items (w (pipe_sender c))) + length topics \<le> cap (w (pipe_sender c)) \<Longrightarrow>
    \<exists>w'. sync_topics ch (Sca c) topics w = Some w' \<and>
      (\<forall>a. items (w' a) = items (w a) @
        (if a = pipe_sender c then map (\<lambda>t. [construct_subscription_message True t]) topics else []))"
proof (induction topics arbitrary: w)
  case Nil
  then show ?case by simp
next
  case (Cons t topics)
  obtain w1 where s: "conn_send_multipart ch (Sca c) [construct_subscription_message True t] w = Some (w1, Inr ())"
    "\<And>a. items (w1 a) = items (w a) @
      (if a = pipe_sender c then [[construct_subscription_message True t]] else [])"
    "\<And>a. cap (w1 a) = cap (w a)" "\<And>a. closed (w1 a) = closed (w a)"
    by (rule session_send [OF fifo, of c "[construct_subscription_message True t]" w]) (use Cons.prems in auto)
  obtain w' where "sync_topics ch (Sca c) topics w1 = Some w'"
    "\<forall>a. items (w' a) = items (w1 a) @
      (if a = pipe_sender c then map (\<lambda>t. [construct_subscription_message True t]) topics else [])"
    using Cons.IH [of w1] Cons.prems s by auto
  then show ?case using s(1,2) by (auto simp: conn_send_message_def)
qed

text \<open>
  C20. A publisher that connects later learns every subscription: when its pipe has room for them, attaching it
  sends one subscription command for each topic that is still subscribed, each once, and nothing else.
\<close>

theorem sub_resubscribes:
  assumes "fifo_channel ch items cap closed" "length ops < 2 ^ 64 - 1"
    and "sub_configure ch core ops (sub_new ch core) w0 = Some (s, w)"
    and "uri_of_pipe core p = Some u" "get_endpoint core u = Some (Sca c)"
    and "\<not> closed (w (pipe_sender c))"
    and "length (items (w (pipe_sender c))) + card (set_mset (fold spec_op ops {#})) \<le> cap (w (pipe_sender c))"
  shows "\<exists>s' w' topics. sub_pipe_attached ch core p s w = Some (s', w') \<and>
    distinct topics \<and> set topics = set_mset (fold spec_op ops {#}) \<and>
    (\<forall>a. items (w' a) = items (w a) @
      (if a = pipe_sender c then map (\<lambda>t. [construct_subscription_message True t]) topics else []))"
proof -
  let ?t = "fold trie_op ops trie_new"
  note configured = configured_trie [OF assms(2)]
  have s: "s = (sub_new ch core)\<lparr>subscriptions := ?t\<rparr>"
    using sub_configure_result [OF assms(3)] by (simp add: sub_new_def)
  have topics: "distinct (get_all_topics ?t)" "set (get_all_topics ?t) = set_mset (fold spec_op ops {#})"
    using trie.topics_distinct [OF configured(1)] trie.topics_set [OF configured(1)] configured(2) by auto
  then have "length (get_all_topics ?t) = card (set_mset (fold spec_op ops {#}))"
    by (metis distinct_card)
  then obtain w' where w': "sync_topics ch (Sca c) (get_all_topics ?t) w = Some w'"
    "\<forall>a. items (w' a) = items (w a) @
      (if a = pipe_sender c then map (\<lambda>t. [construct_subscription_message True t]) (get_all_topics ?t) else [])"
    using sync_topics_room [OF assms(1), where w = w, OF assms(6), of "get_all_topics ?t"] assms(7) by auto
  have "\<exists>s'. sub_pipe_attached ch core p s w = Some (s', w')"
    using w'(1) assms(4,5) by (auto simp: sub_pipe_attached_def s Let_def)
  then show ?thesis using w'(2) topics by blast
qed

theorem sub_resubscribes_witness:
  "\<exists>s w s' w'. sub_configure list_channel (example_core [(''a'', 2)]) [Subscribe [1], Subscribe [1]]
      (sub_new list_channel (example_core [(''a'', 2)])) (\<lambda>_. ([], 4, False)) = Some (s, w) \<and>
    sub_pipe_attached list_channel (example_core [(''a'', 2)]) 2 s w = Some (s', w') \<and>
    fst (w' 2) = [[construct_subscription_message True [1]]]"
proof -
  let ?core = "example_core [(''a'', 2)]" and ?ops = "[Subscribe [1], Subscribe [1]]"
  obtain s where c: "sub_configure list_channel ?core ?ops (sub_new list_channel ?core) (\<lambda>_. ([], 4, False)) =
      Some (s, \<lambda>_. ([], 4, False))"
    by (simp add: sub_set_pattern_option_def send_subscription_command_to_all_def option_ids example_core_defs sub_new_def)
  obtain cn where cn: "uri_of_pipe ?core 2 = Some ''a''" "get_endpoint ?core ''a'' = Some (Sca cn)" "pipe_sender cn = 2"
    by (simp add: example_core_defs)
  have ops: "set_mset (fold spec_op ?ops {#}) = {[1]}" by simp
  obtain s' w' topics where r: "sub_pipe_attached list_channel ?core 2 s (\<lambda>_. ([], 4, False)) = Some (s', w')"
    "distinct topics" "set topics = {[1]}"
    "\<And>a. fst (w' a) = (if a = 2 then map (\<lambda>t. [construct_subscription_message True t]) topics else [])"
    using sub_resubscribes [OF list_channel_fifo _ c cn(1,2)] cn(3) by (auto simp: ops)
  have "topics = [[1]]" using r(2,3) by (cases topics; cases "tl topics") auto
  then show ?thesis using c r(1) r(4) [of 2] by auto
qed

end
