(* ===== verification/Req_Rep.thy ===== *)
theory Req_Rep
  imports Socket_Pattern
begin

text \<open>
  Request and reply: \<^verbatim>\<open>core/src/socket/req_socket.rs\<close> and \<^verbatim>\<open>core/src/socket/rep_socket.rs\<close>.

  A call of a REQ socket's \<open>recv\<close> that waits and is woken by the notifier is evaluated on the state in which
  it wakes up, its argument \<open>woken\<close>.
\<close>

section \<open>REQ\<close>

datatype ReqState = ReadyToSend | ExpectingReply uri

record ('q, 'n) ReqSocket =
  req_load_balancer :: LoadBalancer
  req_orchestrator :: "'q IncomingMessageOrchestrator"
  req_state :: ReqState
  reply_available_notifier :: 'n
  req_pipe_read_to_endpoint_uri :: "(nat \<times> uri) list"

definition req_new :: "'n notify_ops \<Rightarrow> ('q, Msg list) chan_ops \<Rightarrow> SocketCore \<Rightarrow> ('q, 'n) ReqSocket" where
  "req_new nt ch core =
    \<lparr>req_load_balancer = lb_new, req_orchestrator = orchestrator_new ch (core_handle (core_state core)) 1,
     req_state = ReadyToSend, reply_available_notifier = notify_new nt, req_pipe_read_to_endpoint_uri = []\<rparr>"

definition process_incoming_zmtp_message_for_req :: "Msg list \<Rightarrow> Msg list res" where
  "process_incoming_zmtp_message_for_req raw_zmtp_message =
    (case raw_zmtp_message of
       f # rest \<Rightarrow> if msg_size f = 0 then Inr rest else Inr (f # rest)
     | [] \<Rightarrow> Inr [])"

definition req_drop_peer :: "uri \<Rightarrow> ('q, 'n) ReqSocket \<Rightarrow> ('q, 'n) ReqSocket" where
  "req_drop_peer u s = s\<lparr>req_load_balancer := remove_connection u (req_load_balancer s)\<rparr>"

definition req_send ::
  "('c, Msg list) chan_ops \<Rightarrow> (SocketCore \<times> LoadBalancer) list \<Rightarrow> SocketCore \<Rightarrow> Msg \<Rightarrow> ('q, 'n) ReqSocket \<Rightarrow>
    'c chans \<Rightarrow> (('q, 'n) ReqSocket \<times> 'c chans \<times> unit res) option" where
  "req_send ch waits core msg s w =
    (if \<not> is_running core then Some (s, w, Inl InvalidState)
     else
       (let msg = (if is_more msg then with_more False msg else msg)
        in if req_state s \<noteq> ReadyToSend then Some (s, w, Inl InvalidState)
           else
             (case select_peer (\<lambda>core. \<not> is_running core) (sndtimeo (options (core_state core))) waits core
                     (req_load_balancer s) of
                None \<Rightarrow> None
              | Some (core, lb, Inl e) \<Rightarrow> Some (s\<lparr>req_load_balancer := lb\<rparr>, w, Inl e)
              | Some (core, lb, Inr u) \<Rightarrow>
                  (let s = s\<lparr>req_load_balancer := lb\<rparr>
                   in case get_endpoint core u of
                        None \<Rightarrow> Some (req_drop_peer u s, w, Inl HostUnreachable)
                      | Some conn \<Rightarrow>
                          (case conn_send_multipart ch conn [with_more True msg_new, msg] w of
                             None \<Rightarrow> None
                           | Some (w, Inr _) \<Rightarrow>
                               Some (s\<lparr>req_state := ExpectingReply u,
                                   req_orchestrator := reset_recv_message_buffer (req_orchestrator s)\<rparr>, w, Inr ())
                           | Some (w, Inl e) \<Rightarrow>
                               (if e = ConnectionClosed then Some (req_drop_peer u s, w, Inl HostUnreachable)
                                else Some (s, w, Inl e)))))))"

text \<open>The future of the orchestrator's \<open>recv_message\<close> is pending when it is polled.\<close>

definition recv_pending :: "('q, 'a) chan_ops \<Rightarrow> duration option \<Rightarrow> 'q IncomingMessageOrchestrator \<Rightarrow> bool" where
  "recv_pending ch tmo orch \<longleftrightarrow>
    current_recv_frames_buffer orch = [] \<and> tmo \<noteq> Some 0 \<and> pop_item ch (main_incoming_queue orch) = None"

text \<open>The branch of the notifier, and the update of the state at the end of \<open>recv\<close>.\<close>

definition req_recv_notified ::
  "('q, Msg list) chan_ops \<Rightarrow> SocketCore \<Rightarrow> ('q, 'n) ReqSocket \<Rightarrow> (('q, 'n) ReqSocket \<times> Msg res) option" where
  "req_recv_notified ch core s =
    (if \<not> is_running core then Some (s, Inl ConnectionClosed)
     else
       (case recv_message ch (\<lambda>q_item. q_item) (Some 0) (req_orchestrator s) of
          None \<Rightarrow> None
        | Some (orch, Inr msg) \<Rightarrow> Some (s\<lparr>req_orchestrator := orch\<rparr>, Inr msg)
        | Some (orch, Inl e) \<Rightarrow>
            Some (s\<lparr>req_orchestrator := orch\<rparr>,
              Inl (if e = ResourceLimitReached \<or> e = Timeout
                   then (if req_state s = ReadyToSend then ConnectionClosed else Internal) else e))))"

definition req_recv_done ::
  "'n notify_ops \<Rightarrow> ('q, 'n) ReqSocket \<times> Msg res \<Rightarrow> ('q, 'n) ReqSocket \<times> Msg res" where
  "req_recv_done nt = (\<lambda>(s, r).
    (if (case r of Inr msg \<Rightarrow> \<not> is_more msg | Inl _ \<Rightarrow> True) \<and> req_state s \<noteq> ReadyToSend
     then s\<lparr>req_state := ReadyToSend,
            reply_available_notifier := notify_waiters nt (reply_available_notifier s)\<rparr>
     else s, r))"

definition req_recv ::
  "'n notify_ops \<Rightarrow> ('q, Msg list) chan_ops \<Rightarrow> (SocketCore \<times> ('q, 'n) ReqSocket) option \<Rightarrow> SocketCore \<Rightarrow>
    ('q, 'n) ReqSocket \<Rightarrow> (('q, 'n) ReqSocket \<times> Msg res) option" where
  "req_recv nt ch woken core s =
    (if \<not> is_running core then Some (s, Inl InvalidState)
     else if req_state s = ReadyToSend then Some (s, Inl InvalidState)
     else
       (let rcvtimeo_opt = rcvtimeo (options (core_state core))
        in case poll_notified nt (reply_available_notifier s) of
             (n, True) \<Rightarrow>
               map_option (req_recv_done nt) (req_recv_notified ch core (s\<lparr>reply_available_notifier := n\<rparr>))
           | (n, False) \<Rightarrow>
               (case woken of
                  Some (core', s') \<Rightarrow>
                    if recv_pending ch rcvtimeo_opt (req_orchestrator s)
                    then map_option (req_recv_done nt) (req_recv_notified ch core' s') else None
                | None \<Rightarrow>
                    map_option (\<lambda>(orch, r).
                        req_recv_done nt (s\<lparr>reply_available_notifier := n, req_orchestrator := orch\<rparr>, r))
                      (recv_message ch (\<lambda>q_item. q_item) rcvtimeo_opt (req_orchestrator s)))))"

definition req_send_multipart :: "unit res" where
  "req_send_multipart = Inl UnsupportedFeature"

text \<open>A request ends: the state is reset and waiting calls are notified.\<close>

definition req_end :: "'n notify_ops \<Rightarrow> ('q, 'n) ReqSocket \<Rightarrow> ('q, 'n) ReqSocket" where
  "req_end nt s =
    s\<lparr>req_state := ReadyToSend, reply_available_notifier := notify_waiters nt (reply_available_notifier s)\<rparr>"

definition req_recv_multipart ::
  "'n notify_ops \<Rightarrow> ('q, Msg list) chan_ops \<Rightarrow> SocketCore \<Rightarrow> ('q, 'n) ReqSocket \<Rightarrow>
    (('q, 'n) ReqSocket \<times> Msg list res) option" where
  "req_recv_multipart nt ch core s =
    (if \<not> is_running core then Some (s, Inl InvalidState)
     else if req_state s = ReadyToSend then Some (s, Inl InvalidState)
     else
       (case recv_logical_message ch (\<lambda>q_item. q_item) (rcvtimeo (options (core_state core))) (req_orchestrator s) of
          None \<Rightarrow> None
        | Some (orch, Inr payload_frames) \<Rightarrow> Some (req_end nt (s\<lparr>req_orchestrator := orch\<rparr>), Inr payload_frames)
        | Some (orch, Inl e) \<Rightarrow>
            (if req_state s \<noteq> ReadyToSend then Some (req_end nt (s\<lparr>req_orchestrator := orch\<rparr>), Inl e)
             else Some (s\<lparr>req_orchestrator := orch\<rparr>, Inl e))))"

definition req_process_command ::
  "'n notify_ops \<Rightarrow> pattern_command \<Rightarrow> ('q, 'n) ReqSocket \<Rightarrow> ('q, 'n) ReqSocket \<times> bool res" where
  "req_process_command nt c s =
    (case c of
       Stop \<Rightarrow> (s\<lparr>reply_available_notifier := notify_waiters nt (reply_available_notifier s)\<rparr>, Inr True)
     | _ \<Rightarrow> (s, Inr False))"

fun req_handle_pipe_event ::
  "'n notify_ops \<Rightarrow> ('q, Msg list) chan_ops \<Rightarrow> nat \<Rightarrow> pipe_event \<Rightarrow> ('q, 'n) ReqSocket \<Rightarrow>
    (('q, 'n) ReqSocket \<times> unit res) option" where
  "req_handle_pipe_event nt ch pipe_read_id (PipeMessageReceived msg) s =
    (case map_of (req_pipe_read_to_endpoint_uri s) pipe_read_id of
       None \<Rightarrow> Some (s, Inr ())
     | Some source_uri \<Rightarrow>
         if req_state s \<noteq> ExpectingReply source_uri then Some (s, Inr ())
         else
           (case accumulate_pipe_frame pipe_read_id msg (req_orchestrator s) of
              (orch, Inl e) \<Rightarrow> Some (s\<lparr>req_orchestrator := orch\<rparr>, Inl e)
            | (orch, Inr None) \<Rightarrow> Some (s\<lparr>req_orchestrator := orch\<rparr>, Inr ())
            | (orch, Inr (Some raw)) \<Rightarrow>
                (case process_incoming_zmtp_message_for_req raw of
                   Inl e \<Rightarrow> Some (req_end nt (s\<lparr>req_orchestrator := orch\<rparr>), Inr ())
                 | Inr parts \<Rightarrow>
                     (case queue_item ch parts orch of
                        None \<Rightarrow> None
                      | Some (orch, Inl e) \<Rightarrow> Some (req_end nt (s\<lparr>req_orchestrator := orch\<rparr>), Inr ())
                      | Some (orch, Inr _) \<Rightarrow>
                          Some (s\<lparr>req_orchestrator := orch,
                              reply_available_notifier := notify_one nt (reply_available_notifier s)\<rparr>, Inr ())))))"
| "req_handle_pipe_event nt ch pipe_read_id PipeClosedByPeer s = Some (s, Inr ())"

definition req_attach :: "nat \<Rightarrow> uri \<Rightarrow> ('q, 'n) ReqSocket \<Rightarrow> ('q, 'n) ReqSocket" where
  "req_attach pipe_read_id u s =
    s\<lparr>req_pipe_read_to_endpoint_uri := alist_put pipe_read_id u (req_pipe_read_to_endpoint_uri s),
      req_load_balancer := add_connection u (req_load_balancer s)\<rparr>"

definition req_pipe_attached :: "SocketCore \<Rightarrow> nat \<Rightarrow> ('q, 'n) ReqSocket \<Rightarrow> ('q, 'n) ReqSocket" where
  "req_pipe_attached core pipe_read_id s =
    (case uri_of_pipe core pipe_read_id of Some u \<Rightarrow> req_attach pipe_read_id u s | None \<Rightarrow> s)"

definition req_pipe_detached :: "'n notify_ops \<Rightarrow> nat \<Rightarrow> ('q, 'n) ReqSocket \<Rightarrow> ('q, 'n) ReqSocket" where
  "req_pipe_detached nt pipe_read_id s =
    (let removed = map_of (req_pipe_read_to_endpoint_uri s) pipe_read_id;
         s = s\<lparr>req_pipe_read_to_endpoint_uri := alist_del pipe_read_id (req_pipe_read_to_endpoint_uri s)\<rparr>;
         s = (case removed of
                None \<Rightarrow> s
              | Some detached_uri \<Rightarrow>
                  (let s = req_drop_peer detached_uri s
                   in if req_state s = ExpectingReply detached_uri
                      then s\<lparr>req_state := ReadyToSend,
                             reply_available_notifier := notify_one nt (reply_available_notifier s)\<rparr>
                      else s))
     in s\<lparr>req_orchestrator := clear_pipe_state pipe_read_id (req_orchestrator s)\<rparr>)"


section \<open>REP\<close>

record RepPeerInfo =
  source_pipe_read_id :: nat
  reply_endpoint_uri :: uri
  routing_prefix :: "Msg list"

datatype RepState = ReadyToReceive | ReceivedRequest RepPeerInfo

record 'q RepSocket =
  rep_orchestrator :: "'q IncomingMessageOrchestrator"
  rep_state :: RepState
  rep_pipe_read_id_to_endpoint_uri :: "(nat \<times> uri) list"

definition rep_new :: "('q, RepPeerInfo \<times> Msg list) chan_ops \<Rightarrow> SocketCore \<Rightarrow> 'q RepSocket" where
  "rep_new ch core =
    \<lparr>rep_orchestrator =
       orchestrator_new ch (core_handle (core_state core)) (max (rcvhwm (options (core_state core))) 1),
     rep_state = ReadyToReceive, rep_pipe_read_id_to_endpoint_uri = []\<rparr>"

definition rep_send_multipart ::
  "('c, Msg list) chan_ops \<Rightarrow> SocketCore \<Rightarrow> Msg list \<Rightarrow> 'q RepSocket \<Rightarrow> 'c chans \<Rightarrow>
    ('q RepSocket \<times> 'c chans \<times> unit res) option" where
  "rep_send_multipart ch core payload_frames s w =
    (if \<not> is_running core then Some (s, w, Inl InvalidState)
     else
       (let s = s\<lparr>rep_orchestrator := reset_recv_message_buffer (rep_orchestrator s)\<rparr>;
            user_payload_frames = (if payload_frames = [] then [msg_new] else payload_frames)
        in case rep_state s of
             ReadyToReceive \<Rightarrow> Some (s, w, Inl InvalidState)
           | ReceivedRequest info \<Rightarrow>
               (let s = s\<lparr>rep_state := ReadyToReceive\<rparr>
                in case get_endpoint core (reply_endpoint_uri info) of
                     None \<Rightarrow> Some (s, w, Inl HostUnreachable)
                   | Some conn \<Rightarrow>
                       (let zmtp_wire_frames = routing_prefix info @ user_payload_frames
                        in if zmtp_wire_frames = [] then Some (s, w, Inr ())
                           else
                             (case conn_send_multipart ch conn (mark_more zmtp_wire_frames) w of
                                None \<Rightarrow> None
                              | Some (w, r) \<Rightarrow> Some (s, w, r))))))"

definition rep_send ::
  "('c, Msg list) chan_ops \<Rightarrow> SocketCore \<Rightarrow> Msg \<Rightarrow> 'q RepSocket \<Rightarrow> 'c chans \<Rightarrow>
    ('q RepSocket \<times> 'c chans \<times> unit res) option" where
  "rep_send ch core msg s w =
    (if \<not> is_running core then Some (s, w, Inl InvalidState)
     else
       (let msg = (if is_more msg then with_more False msg else msg)
        in rep_send_multipart ch core [msg]
             (s\<lparr>rep_orchestrator := reset_recv_message_buffer (rep_orchestrator s)\<rparr>) w))"

text \<open>The item that the transform closure of a receive call is applied to, where one is taken.\<close>

definition popped_item :: "('q, 'a) chan_ops \<Rightarrow> duration option \<Rightarrow> 'q IncomingMessageOrchestrator \<Rightarrow> 'a option" where
  "popped_item ch tmo orch =
    (case recv_item_from_main_queue ch tmo orch of Some (_, Inr item) \<Rightarrow> Some item | _ \<Rightarrow> None)"

definition rep_taken :: "(RepPeerInfo \<times> Msg list) option \<Rightarrow> RepState \<Rightarrow> RepState" where
  "rep_taken taken st = (case taken of Some (peer_info, _) \<Rightarrow> ReceivedRequest peer_info | None \<Rightarrow> st)"

definition rep_recv ::
  "('q, RepPeerInfo \<times> Msg list) chan_ops \<Rightarrow> SocketCore \<Rightarrow> 'q RepSocket \<Rightarrow> ('q RepSocket \<times> Msg res) option" where
  "rep_recv ch core s =
    (if \<not> is_running core then Some (s, Inl InvalidState)
     else if rep_state s \<noteq> ReadyToReceive then Some (s, Inl InvalidState)
     else
       (let rcvtimeo_opt = rcvtimeo (options (core_state core));
            orch = rep_orchestrator s;
            taken = (if current_recv_frames_buffer orch = [] then popped_item ch rcvtimeo_opt orch else None)
        in map_option (\<lambda>(orch, r). (s\<lparr>rep_orchestrator := orch, rep_state := rep_taken taken (rep_state s)\<rparr>, r))
             (recv_message ch snd rcvtimeo_opt orch)))"

definition rep_recv_multipart ::
  "('q, RepPeerInfo \<times> Msg list) chan_ops \<Rightarrow> SocketCore \<Rightarrow> 'q RepSocket \<Rightarrow> ('q RepSocket \<times> Msg list res) option" where
  "rep_recv_multipart ch core s =
    (if \<not> is_running core then Some (s, Inl InvalidState)
     else if rep_state s \<noteq> ReadyToReceive then Some (s, Inl InvalidState)
     else
       (let rcvtimeo_opt = rcvtimeo (options (core_state core));
            orch = rep_orchestrator s;
            taken = popped_item ch rcvtimeo_opt orch
        in map_option (\<lambda>(orch, r). (s\<lparr>rep_orchestrator := orch, rep_state := rep_taken taken (rep_state s)\<rparr>, r))
             (recv_logical_message ch snd rcvtimeo_opt orch)))"

definition rep_process_command ::
  "('q, RepPeerInfo \<times> Msg list) chan_ops \<Rightarrow> pattern_command \<Rightarrow> 'q RepSocket \<Rightarrow> 'q RepSocket \<times> bool res" where
  "rep_process_command ch c s =
    (case c of
       Stop \<Rightarrow> (s\<lparr>rep_orchestrator := orchestrator_close ch (rep_orchestrator s)\<rparr>, Inr True)
     | _ \<Rightarrow> (s, Inr False))"

fun envelope_loop :: "Msg list \<Rightarrow> bool \<Rightarrow> Msg list \<Rightarrow> Msg list \<Rightarrow> Msg list \<times> Msg list \<times> bool" where
  "envelope_loop [] delimiter_found route payload = (route, payload, delimiter_found)"
| "envelope_loop (frame # frames) delimiter_found route payload =
    (if \<not> delimiter_found then envelope_loop frames (msg_size frame = 0) (route @ [frame]) payload
     else envelope_loop frames delimiter_found route (payload @ [frame]))"

definition split_envelope :: "Msg list \<Rightarrow> Msg list \<times> Msg list" where
  "split_envelope raw_zmtp_message =
    (case envelope_loop raw_zmtp_message False [] [] of
       (route, payload_frames, delimiter_found) \<Rightarrow>
         if delimiter_found then (route, payload_frames) else ([], route))"

definition rep_process :: "SocketCore \<Rightarrow> nat \<Rightarrow> Msg list \<Rightarrow> (RepPeerInfo \<times> Msg list) option res" where
  "rep_process core pipe_read_id raw_zmtp_message =
    (case uri_of_pipe core pipe_read_id of
       None \<Rightarrow> Inl Internal
     | Some u \<Rightarrow>
         (case split_envelope raw_zmtp_message of (route, payload_frames) \<Rightarrow>
            Inr (Some (\<lparr>source_pipe_read_id = pipe_read_id, reply_endpoint_uri = u, routing_prefix = route\<rparr>,
              payload_frames))))"

fun rep_handle_pipe_event ::
  "('q, RepPeerInfo \<times> Msg list) chan_ops \<Rightarrow> SocketCore \<Rightarrow> nat \<Rightarrow> pipe_event \<Rightarrow> 'q RepSocket \<Rightarrow>
    ('q RepSocket \<times> unit res) option" where
  "rep_handle_pipe_event ch core pipe_read_id (PipeMessageReceived msg) s =
    map_option (\<lambda>(orch, r). (s\<lparr>rep_orchestrator := orch\<rparr>, r))
      (receive_frame ch (rep_process core pipe_read_id) pipe_read_id msg (rep_orchestrator s))"
| "rep_handle_pipe_event ch core pipe_read_id PipeClosedByPeer s = Some (s, Inr ())"

definition rep_pipe_attached :: "SocketCore \<Rightarrow> nat \<Rightarrow> 'q RepSocket \<Rightarrow> 'q RepSocket" where
  "rep_pipe_attached core pipe_read_id s =
    (case uri_of_pipe core pipe_read_id of
       Some u \<Rightarrow>
         s\<lparr>rep_pipe_read_id_to_endpoint_uri := alist_put pipe_read_id u (rep_pipe_read_id_to_endpoint_uri s)\<rparr>
     | None \<Rightarrow> s)"

definition rep_pipe_detached :: "nat \<Rightarrow> 'q RepSocket \<Rightarrow> 'q RepSocket" where
  "rep_pipe_detached pipe_read_id s =
    (let s = s\<lparr>rep_pipe_read_id_to_endpoint_uri := alist_del pipe_read_id (rep_pipe_read_id_to_endpoint_uri s)\<rparr>;
         s = (case rep_state s of
                ReceivedRequest peer_info \<Rightarrow>
                  if source_pipe_read_id peer_info = pipe_read_id then s\<lparr>rep_state := ReadyToReceive\<rparr> else s
              | ReadyToReceive \<Rightarrow> s)
     in s\<lparr>rep_orchestrator := clear_pipe_state pipe_read_id (rep_orchestrator s)\<rparr>)"


section \<open>Serving requests\<close>

interpretation req: balanced_socket req_attach "req_pipe_detached nt" req_pipe_read_to_endpoint_uri
  "\<lambda>s. connection_uris (req_load_balancer s)" for nt
  by unfold_locales
    (auto simp: req_attach_def req_pipe_detached_def req_drop_peer_def Let_def lb.conns_add lb.conns_remove
      split: option.split)

interpretation rep: queueing_socket ch rep_orchestrator "\<lambda>orch s. s\<lparr>rep_orchestrator := orch\<rparr>"
  "rep_handle_pipe_event ch core" "\<lambda>s. rep_process core" for ch core
  by unfold_locales simp_all

text \<open>A server that receives a request, computes the reply and sends it, and so on.\<close>

fun rep_serve ::
  "('q, RepPeerInfo \<times> Msg list) chan_ops \<Rightarrow> ('c, Msg list) chan_ops \<Rightarrow> SocketCore \<Rightarrow> (Msg list \<Rightarrow> Msg list) \<Rightarrow> nat \<Rightarrow>
    'q RepSocket \<Rightarrow> 'c chans \<Rightarrow> ('q RepSocket \<times> 'c chans) option" where
  "rep_serve ch pc core reply 0 s w = Some (s, w)"
| "rep_serve ch pc core reply (Suc n) s w =
    (case rep_recv_multipart ch core s of
       Some (s', Inr request) \<Rightarrow>
         (case rep_send_multipart pc core (reply request) s' w of
            Some (s'', w', Inr _) \<Rightarrow> rep_serve ch pc core reply n s'' w'
          | _ \<Rightarrow> None)
     | _ \<Rightarrow> None)"

text \<open>The frames of the reply to a request, with the request's routing prefix in front.\<close>

definition reply_frames :: "(Msg list \<Rightarrow> Msg list) \<Rightarrow> Msg list \<Rightarrow> Msg list" where
  "reply_frames reply m =
    (case split_envelope m of (route, payload) \<Rightarrow>
       mark_more (route @ (if reply payload = [] then [msg_new] else reply payload)))"

definition request_item :: "SocketCore \<Rightarrow> nat \<Rightarrow> Msg list \<Rightarrow> RepPeerInfo \<times> Msg list" where
  "request_item core p m =
    (\<lparr>source_pipe_read_id = p, reply_endpoint_uri = the (uri_of_pipe core p), routing_prefix = fst (split_envelope m)\<rparr>,
     snd (split_envelope m))"

lemma rep_process_item: "uri_of_pipe core p = Some u \<Longrightarrow> rep_process core p m = Inr (Some (request_item core p m))"
  by (simp add: rep_process_def request_item_def case_prod_unfold)

lemma items_of_map: "items_of (\<lambda>p m. Some (g p m)) ms = map (\<lambda>(p, m). g p m) ms"
  by (induction ms) auto

lemma rep_recv_next:
  assumes "fifo_channel ch items cap closed" "is_running core" "rep_state s = ReadyToReceive"
    and "\<not> orch_items closed (rep_orchestrator s)" "orch_items items (rep_orchestrator s) = (info, m) # xs"
  obtains orch where
    "rep_recv_multipart ch core s = Some (s\<lparr>rep_orchestrator := orch, rep_state := ReceivedRequest info\<rparr>, Inr m)"
    "orch_items items orch = xs" "\<not> orch_items closed orch"
proof -
  let ?t = "rcvtimeo (options (core_state core))"
  obtain orch where orch: "recv_logical_message ch snd ?t (rep_orchestrator s) = Some (orch, Inr m)"
    "orch_items items orch = xs" "\<not> orch_items closed orch"
    using recv_logical_next [OF assms(1,4,5), of snd ?t] by auto
  have "popped_item ch ?t (rep_orchestrator s) = Some (info, m)"
    using recv_item_next [OF assms(1,4,5), of ?t] by (auto simp: popped_item_def)
  then show ?thesis using that [of orch] orch assms(2,3) by (simp add: rep_recv_multipart_def Let_def rep_taken_def)
qed

lemma rep_reply:
  assumes "fifo_channel pc pitems pcap pclosed" "is_running core" "rep_state s = ReceivedRequest info"
    and "peer_channel core (reply_endpoint_uri info) = Some a" "open_room pitems pcap pclosed (Suc n) a w"
  obtains w' where
    "rep_send_multipart pc core r s w =
      Some (s\<lparr>rep_orchestrator := reset_recv_message_buffer (rep_orchestrator s), rep_state := ReadyToReceive\<rparr>, w', Inr ())"
    "delivered pitems a (mark_more (routing_prefix info @ (if r = [] then [msg_new] else r))) w w'"
    "open_room pitems pcap pclosed n a w'"
    "\<And>b k. b \<noteq> a \<Longrightarrow> open_room pitems pcap pclosed k b w' = open_room pitems pcap pclosed k b w"
proof -
  obtain conn w' where "get_endpoint core (reply_endpoint_uri info) = Some conn"
    "conn_send_multipart pc conn (mark_more (routing_prefix info @ (if r = [] then [msg_new] else r))) w = Some (w', Inr ())"
    "delivered pitems a (mark_more (routing_prefix info @ (if r = [] then [msg_new] else r))) w w'"
    "open_room pitems pcap pclosed n a w'"
    "\<And>b k. b \<noteq> a \<Longrightarrow> open_room pitems pcap pclosed k b w' = open_room pitems pcap pclosed k b w"
    using send_to_peer [OF assms(1,4,5), of "mark_more (routing_prefix info @ (if r = [] then [msg_new] else r))"]
    by metis
  then show ?thesis using that assms(2,3) by (simp add: rep_send_multipart_def Let_def)
qed

lemma split_messages_count: "length (fst (split_messages acc fs)) = length (filter (\<lambda>f. \<not> is_more f) fs)"
  by (induction fs arbitrary: acc) (auto simp: case_prod_unfold)

lemma assembled_pipes: "fst ` set (snd (assemble_run accumulate_pipe_frame fs orch)) \<subseteq> fst ` set fs"
proof (induction fs arbitrary: orch)
  case Nil
  show ?case by simp
next
  case (Cons x fs)
  obtain p f where x: "x = (p, f)" by (cases x)
  show ?case using Cons.IH [of "fst (accumulate_pipe_frame p f orch)"]
    by (cases "is_more f") (auto simp: x accumulate_more accumulate_last case_prod_unfold)
qed

lemma reset_buffer_queue [simp]: "main_incoming_queue (reset_recv_message_buffer orch) = main_incoming_queue orch"
  by (simp add: reset_recv_message_buffer_def)

lemma rep_serve_items:
  assumes fifo: "fifo_channel ch items cap closed" "fifo_channel pc pitems pcap pclosed"
    and run: "is_running core" and inj: "inj_on chan P"
    and peers: "\<And>p. p \<in> P \<Longrightarrow> \<exists>u. uri_of_pipe core p = Some u \<and> peer_channel core u = Some (chan p)"
  shows "rep_state s = ReadyToReceive \<Longrightarrow> \<not> orch_items closed (rep_orchestrator s) \<Longrightarrow>
    orch_items items (rep_orchestrator s) = map (\<lambda>(p, m). request_item core p m) ts \<Longrightarrow> fst ` set ts \<subseteq> P \<Longrightarrow>
    (\<And>p. p \<in> P \<Longrightarrow> open_room pitems pcap pclosed (length (filter (\<lambda>x. fst x = p) ts)) (chan p) w) \<Longrightarrow>
    \<exists>s' w'. rep_serve ch pc core reply (length ts) s w = Some (s', w') \<and> rep_state s' = ReadyToReceive \<and>
      (\<forall>p\<in>P. pitems (w' (chan p)) =
        pitems (w (chan p)) @ map (reply_frames reply) (map snd (filter (\<lambda>x. fst x = p) ts)))"
proof (induction ts arbitrary: s w)
  case Nil
  then show ?case by simp
next
  case (Cons x ts)
  obtain p m where x: "x = (p, m)" by (cases x)
  let ?info = "fst (request_item core p m)" and ?r = "reply (snd (split_envelope m))"
  have p: "p \<in> P" using Cons.prems(4) by (simp add: x)
  then obtain u where u: "uri_of_pipe core p = Some u" "peer_channel core u = Some (chan p)" using peers by blast
  have "orch_items items (rep_orchestrator s) =
      (?info, snd (split_envelope m)) # map (\<lambda>(p, m). request_item core p m) ts"
    using Cons.prems(3) by (simp add: x request_item_def)
  from rep_recv_next [OF fifo(1) run Cons.prems(1,2) this] obtain orch where recv:
    "rep_recv_multipart ch core s =
      Some (s\<lparr>rep_orchestrator := orch, rep_state := ReceivedRequest ?info\<rparr>, Inr (snd (split_envelope m)))"
    "orch_items items orch = map (\<lambda>(p, m). request_item core p m) ts" "\<not> orch_items closed orch" .
  have target: "peer_channel core (reply_endpoint_uri ?info) = Some (chan p)" using u by (simp add: request_item_def)
  have room: "open_room pitems pcap pclosed (Suc (length (filter (\<lambda>x. fst x = p) ts))) (chan p) w"
    using Cons.prems(5) [OF p] by (simp add: x)
  let ?s = "s\<lparr>rep_orchestrator := orch, rep_state := ReceivedRequest ?info\<rparr>"
  obtain w1 where sent: "rep_send_multipart pc core ?r ?s w =
      Some (?s\<lparr>rep_orchestrator := reset_recv_message_buffer orch, rep_state := ReadyToReceive\<rparr>, w1, Inr ())"
    "delivered pitems (chan p) (reply_frames reply m) w w1"
    "open_room pitems pcap pclosed (length (filter (\<lambda>x. fst x = p) ts)) (chan p) w1"
    "\<And>b k. b \<noteq> chan p \<Longrightarrow> open_room pitems pcap pclosed k b w1 = open_room pitems pcap pclosed k b w"
    using rep_reply [OF fifo(2) run _ target room, of ?s ?r]
    by (auto simp: reply_frames_def request_item_def case_prod_unfold)
  have other: "chan q \<noteq> chan p" if "q \<in> P" "q \<noteq> p" for q using inj p that by (auto dest: inj_onD)
  have "open_room pitems pcap pclosed (length (filter (\<lambda>x. fst x = q) ts)) (chan q) w1" if "q \<in> P" for q
    using sent(3,4) other [OF that] Cons.prems(5) [OF that] by (cases "q = p") (auto simp: x)
  with Cons.IH [of "?s\<lparr>rep_orchestrator := reset_recv_message_buffer orch, rep_state := ReadyToReceive\<rparr>" w1]
  obtain s' w' where IH: "rep_serve ch pc core reply (length ts)
      (?s\<lparr>rep_orchestrator := reset_recv_message_buffer orch, rep_state := ReadyToReceive\<rparr>) w1 = Some (s', w')"
    "rep_state s' = ReadyToReceive"
    "\<forall>q\<in>P. pitems (w' (chan q)) =
      pitems (w1 (chan q)) @ map (reply_frames reply) (map snd (filter (\<lambda>x. fst x = q) ts))"
    using recv(2,3) Cons.prems(4) by auto
  have "pitems (w' (chan q)) = pitems (w (chan q)) @ map (reply_frames reply) (map snd (filter (\<lambda>x. fst x = q) (x # ts)))"
    if "q \<in> P" for q
    using IH(3) that sent(2) other [OF that] by (cases "q = p") (auto simp: x delivered_def)
  then show ?case using IH(1,2) recv(1) sent(1) by auto
qed




section \<open>The exchange\<close>

lemma req_process_total: "\<exists>parts. process_incoming_zmtp_message_for_req m = Inr parts"
  by (cases m) (auto simp: process_incoming_zmtp_message_for_req_def)

text \<open>A reply of the awaited peer is queued, without its delimiter, and announced.\<close>

lemma req_feed:
  assumes fifo: "fifo_channel ch items cap closed"
  shows "well_framed fs \<Longrightarrow> fs \<noteq> [] \<Longrightarrow> map_of (req_pipe_read_to_endpoint_uri s) p = Some u \<Longrightarrow>
    req_state s = ExpectingReply u \<Longrightarrow> \<not> orch_items closed (req_orchestrator s) \<Longrightarrow>
    orch_items items (req_orchestrator s) = [] \<Longrightarrow> 0 < orch_items cap (req_orchestrator s) \<Longrightarrow>
    \<exists>orch parts. feed (req_handle_pipe_event nt ch) (map (Pair p) fs) s =
        Some (s\<lparr>req_orchestrator := orch, reply_available_notifier := notify_one nt (reply_available_notifier s)\<rparr>) \<and>
      process_incoming_zmtp_message_for_req (pending_frames (req_orchestrator s) p @ fs) = Inr parts \<and>
      orch_items items orch = [parts] \<and> \<not> orch_items closed orch"
proof (induction fs arbitrary: s)
  case Nil
  then show ?case by simp
next
  case (Cons f fs)
  let ?o = "fst (accumulate_pipe_frame p f (req_orchestrator s))"
  show ?case
  proof (cases "fs = []")
    case True
    let ?m = "pending_frames (req_orchestrator s) p @ [f]"
    have last: "\<not> is_more f" using Cons.prems(1) True by (simp add: well_framed_Cons)
    obtain parts where parts: "process_incoming_zmtp_message_for_req ?m = Inr parts"
      using req_process_total by blast
    obtain c where c: "queue_item ch parts ?o =
        Some (?o\<lparr>main_incoming_queue := (main_incoming_queue ?o)\<lparr>fq_chan := c\<rparr>\<rparr>, Inr ())"
      "items c = [parts]" "\<not> closed c"
      using queue_item_room [OF fifo, of ?o parts] Cons.prems(5-7) by (auto simp: accumulate_last [OF last])
    show ?thesis
      by (rule exI [of _ "?o\<lparr>main_incoming_queue := (main_incoming_queue ?o)\<lparr>fq_chan := c\<rparr>\<rparr>"], rule exI [of _ parts])
        (use True parts c Cons.prems(3,4) in \<open>simp add: accumulate_last [OF last]\<close>)
  next
    case False
    then have more: "is_more f" using Cons.prems(1) by (simp add: well_framed_Cons)
    have "well_framed fs" using Cons.prems(1) by (simp add: well_framed_Cons)
    from Cons.IH [OF this False, of "s\<lparr>req_orchestrator := ?o\<rparr>"] show ?thesis
      using Cons.prems(3-7) more by (auto simp: accumulate_more [OF more] pending_frames_def)
  qed
qed

lemma req_request:
  assumes "fifo_channel pc pitems pcap pclosed" "is_running core" "req_state s = ReadyToSend"
    and "connection_uris (req_load_balancer s) = u # us"
    and "peer_channel core u = Some a" "open_room pitems pcap pclosed (Suc n) a w"
  obtains w' where
    "req_send pc waits core m s w =
      Some (s\<lparr>req_load_balancer := (req_load_balancer s)\<lparr>connection_uris := us @ [u]\<rparr>, req_state := ExpectingReply u,
          req_orchestrator := reset_recv_message_buffer (req_orchestrator s)\<rparr>, w', Inr ())"
    "delivered pitems a [with_more True msg_new, with_more False m] w w'"
    "open_room pitems pcap pclosed n a w'"
    "\<And>b k. b \<noteq> a \<Longrightarrow> open_room pitems pcap pclosed k b w' = open_room pitems pcap pclosed k b w"
proof -
  obtain conn w' where sent: "get_endpoint core u = Some conn" "endpoint_of core u \<noteq> None"
    "conn_send_multipart pc conn [with_more True msg_new, with_more False m] w = Some (w', Inr ())"
    "delivered pitems a [with_more True msg_new, with_more False m] w w'"
    "open_room pitems pcap pclosed n a w'"
    "\<And>b k. b \<noteq> a \<Longrightarrow> open_room pitems pcap pclosed k b w' = open_room pitems pcap pclosed k b w"
    by (rule send_to_peer [OF assms(1,5,6)]) blast
  show ?thesis
    using that [OF _ sent(4-6)] sent(1,3) assms(2,3) select_peer_live [OF assms(4) sent(2)]
    by (cases "is_more m") (simp_all add: req_send_def Let_def)
qed

lemma req_recv_next:
  assumes "fifo_channel ch items cap closed" "is_running core" "req_state s = ExpectingReply u"
    and "\<not> orch_items closed (req_orchestrator s)" "orch_items items (req_orchestrator s) = parts # xs"
  obtains orch where
    "req_recv_multipart nt ch core s = Some (s\<lparr>req_orchestrator := orch, req_state := ReadyToSend,
        reply_available_notifier := notify_waiters nt (reply_available_notifier s)\<rparr>, Inr parts)"
    "orch_items items orch = xs" "\<not> orch_items closed orch" "current_recv_frames_buffer orch = []"
  using recv_logical_next [OF assms(1,4,5), of "\<lambda>m. m" "rcvtimeo (options (core_state core))"] assms(2,3) that
  by (fastforce simp: req_recv_multipart_def req_end_def)

lemma rep_request_queued:
  assumes "fifo_channel ch items cap closed" "idle_queue items cap closed p (rep_orchestrator t)"
    and "well_framed fs" "fs \<noteq> []" "uri_of_pipe core p = Some v"
  obtains orch where "feed (rep_handle_pipe_event ch core) (map (Pair p) fs) t = Some (t\<lparr>rep_orchestrator := orch\<rparr>)"
    "orch_items items orch = [request_item core p fs]" "\<not> orch_items closed orch"
  by (rule rep.queues_one [OF assms(1-4) rep_process_item [OF assms(5)]])

lemma req_reply_queued:
  assumes "fifo_channel ch items cap closed" "idle_queue items cap closed p (req_orchestrator s)"
    and "well_framed (d # reply)" "msg_size d = 0"
    and "map_of (req_pipe_read_to_endpoint_uri s) p = Some u" "req_state s = ExpectingReply u"
  obtains orch where "feed (req_handle_pipe_event nt ch) (map (Pair p) (d # reply)) s =
      Some (s\<lparr>req_orchestrator := orch, reply_available_notifier := notify_one nt (reply_available_notifier s)\<rparr>)"
    "orch_items items orch = [reply]" "\<not> orch_items closed orch"
proof -
  have "pending_frames (req_orchestrator s) p = []" using assms(2) by (simp add: idle_queue_def)
  then have "process_incoming_zmtp_message_for_req (pending_frames (req_orchestrator s) p @ d # reply) = Inr reply"
    using assms(4) by (simp add: process_incoming_zmtp_message_for_req_def)
  with req_feed [OF assms(1,3) _ assms(5,6), of nt] assms(2) show ?thesis
    using that by (auto simp: idle_queue_def simp del: feed.simps)
qed

text \<open>
  C5. Request and reply meet: where the pipes between the two sockets have room and carry the frames, a REQ
  socket's \<open>send\<close> makes the REP socket's receive call return the request, the REP socket's reply goes to the
  connection that the request came from, and makes the REQ socket's receive call return the reply; then
  both sockets are ready for the next exchange.
\<close>

theorem req_rep_exchange:
  assumes "fifo_channel ch items cap closed" "fifo_channel rch ritems rcap rclosed"
    and "fifo_channel pc pitems pcap pclosed" "is_running qcore" "is_running pcore"
    and "req_state s = ReadyToSend" "connection_uris (req_load_balancer s) = u # us"
    and "map_of (req_pipe_read_to_endpoint_uri s) qp = Some u" "idle_queue items cap closed qp (req_orchestrator s)"
    and "rep_state t = ReadyToReceive" "idle_queue ritems rcap rclosed rp (rep_orchestrator t)"
    and "peer_channel qcore u = Some a" "open_room pitems pcap pclosed 1 a w"
    and "uri_of_pipe pcore rp = Some v" "peer_channel pcore v = Some b" "open_room pitems pcap pclosed 1 b w" "a \<noteq> b"
  shows "\<exists>s1 w1 request t1 t2 t3 w2 reply s2 s3.
    req_send pc waits qcore m s w = Some (s1, w1, Inr ()) \<and> delivered pitems a request w w1 \<and>
    feed (rep_handle_pipe_event rch pcore) (map (Pair rp) request) t = Some t1 \<and>
    rep_recv_multipart rch pcore t1 = Some (t2, Inr [with_more False m]) \<and>
    rep_send_multipart pc pcore r t2 w1 = Some (t3, w2, Inr ()) \<and> delivered pitems b reply w1 w2 \<and>
    feed (req_handle_pipe_event nt ch) (map (Pair qp) reply) s1 = Some s2 \<and>
    req_recv_multipart nt ch qcore s2 = Some (s3, Inr (mark_more (if r = [] then [msg_new] else r))) \<and>
    req_state s3 = ReadyToSend \<and> rep_state t3 = ReadyToReceive"
proof -
  let ?req = "[with_more True msg_new, with_more False m]" and ?r = "if r = [] then [msg_new] else r"
  let ?s1 = "s\<lparr>req_load_balancer := (req_load_balancer s)\<lparr>connection_uris := us @ [u]\<rparr>, req_state := ExpectingReply u,
      req_orchestrator := reset_recv_message_buffer (req_orchestrator s)\<rparr>"
  have env: "request_item pcore rp ?req =
      (\<lparr>source_pipe_read_id = rp, reply_endpoint_uri = v, routing_prefix = [with_more True msg_new]\<rparr>, [with_more False m])"
    using assms(14) by (simp add: request_item_def split_envelope_def msg_size_payload)
  obtain w1 where q: "req_send pc waits qcore m s w = Some (?s1, w1, Inr ())" "delivered pitems a ?req w w1"
    "\<And>b k. b \<noteq> a \<Longrightarrow> open_room pitems pcap pclosed k b w1 = open_room pitems pcap pclosed k b w"
    by (rule req_request [OF assms(3,4,6,7,12), of 0 w waits m]) (use assms(13) in auto)
  obtain orch where f: "feed (rep_handle_pipe_event rch pcore) (map (Pair rp) ?req) t = Some (t\<lparr>rep_orchestrator := orch\<rparr>)"
    "orch_items ritems orch = [request_item pcore rp ?req]" "\<not> orch_items rclosed orch"
    by (rule rep_request_queued [OF assms(2,11) _ _ assms(14), of ?req]) simp_all
  let ?info = "\<lparr>source_pipe_read_id = rp, reply_endpoint_uri = v, routing_prefix = [with_more True msg_new]\<rparr>"
  obtain orch2 where rc: "rep_recv_multipart rch pcore (t\<lparr>rep_orchestrator := orch\<rparr>) =
      Some (t\<lparr>rep_orchestrator := orch2, rep_state := ReceivedRequest ?info\<rparr>, Inr [with_more False m])"
    using rep_recv_next [OF assms(2,5), of "t\<lparr>rep_orchestrator := orch\<rparr>" ?info "[with_more False m]" "[]"] f(2,3) assms(10) env
    by auto
  let ?t2 = "t\<lparr>rep_orchestrator := orch2, rep_state := ReceivedRequest ?info\<rparr>"
  let ?reply = "with_more True msg_new # mark_more ?r"
  have reply: "mark_more (routing_prefix ?info @ ?r) = ?reply" by (simp add: mark_more_Cons)
  obtain w2 where rs: "rep_send_multipart pc pcore r ?t2 w1 =
      Some (?t2\<lparr>rep_orchestrator := reset_recv_message_buffer orch2, rep_state := ReadyToReceive\<rparr>, w2, Inr ())"
    "delivered pitems b ?reply w1 w2"
    by (rule rep_reply [OF assms(3,5), of ?t2 ?info b 0 w1 r, unfolded reply]) (use assms(15-17) q(3) in auto)
  have awaited: "idle_queue items cap closed qp (req_orchestrator ?s1)" "well_framed ?reply"
    "msg_size (with_more True msg_new) = 0" "map_of (req_pipe_read_to_endpoint_uri ?s1) qp = Some u"
    "req_state ?s1 = ExpectingReply u"
    using assms(8,9) by (simp_all add: well_framed_Cons msg_size_payload)
  obtain orch3 where fr: "feed (req_handle_pipe_event nt ch) (map (Pair qp) ?reply) ?s1 =
      Some (?s1\<lparr>req_orchestrator := orch3, reply_available_notifier := notify_one nt (reply_available_notifier ?s1)\<rparr>)"
    "orch_items items orch3 = [mark_more ?r]" "\<not> orch_items closed orch3"
    by (rule req_reply_queued [OF assms(1) awaited])
  let ?s2 = "?s1\<lparr>req_orchestrator := orch3, reply_available_notifier := notify_one nt (reply_available_notifier ?s1)\<rparr>"
  obtain s3 where s3: "req_recv_multipart nt ch qcore ?s2 = Some (s3, Inr (mark_more ?r))" "req_state s3 = ReadyToSend"
    by (rule req_recv_next [OF assms(1,4), of ?s2 u "mark_more ?r" "[]" nt]) (use fr(2,3) in simp_all)
  have t3: "rep_state (?t2\<lparr>rep_orchestrator := reset_recv_message_buffer orch2, rep_state := ReadyToReceive\<rparr>) = ReadyToReceive"
    by simp
  show ?thesis
    by (intro exI conjI, rule q(1), rule q(2), rule f(1), rule rc, rule rs(1), rule rs(2), rule fr(1), rule s3(1),
      rule s3(2), rule t3)
qed

theorem req_rep_exchange_witness:
  "\<exists>s1 w1 request t1 t2 t3 w2 reply s2 s3.
    req_send list_channel [] (example_core [(''s'', 2)]) (msg_from_vec [5])
      (req_attach 2 ''s'' (req_new bool_notify list_channel (example_core [(''s'', 2)])))
      (\<lambda>_. ([], 1, False)) = Some (s1, w1, Inr ()) \<and>
    delivered fst 2 request (\<lambda>_. ([], 1, False)) w1 \<and>
    feed (rep_handle_pipe_event list_channel (example_core [(''c'', 3)])) (map (Pair 3) request)
      (rep_new list_channel (example_core [(''c'', 3)])) = Some t1 \<and>
    rep_recv_multipart list_channel (example_core [(''c'', 3)]) t1 = Some (t2, Inr [with_more False (msg_from_vec [5])]) \<and>
    rep_send_multipart list_channel (example_core [(''c'', 3)]) [] t2 w1 = Some (t3, w2, Inr ()) \<and>
    delivered fst 3 reply w1 w2 \<and>
    feed (req_handle_pipe_event bool_notify list_channel) (map (Pair 2) reply) s1 = Some s2 \<and>
    req_recv_multipart bool_notify list_channel (example_core [(''s'', 2)]) s2 =
      Some (s3, Inr (mark_more (if [] = ([] :: Msg list) then [msg_new] else []))) \<and>
    req_state s3 = ReadyToSend \<and> rep_state t3 = ReadyToReceive"
  by (rule req_rep_exchange [OF list_channel_fifo list_channel_fifo list_channel_fifo, of _ _ _ "''s''" "[]"])
    (simp_all add: req_attach_def req_new_def rep_new_def idle_new [OF list_channel_fifo] add_connection_def lb_new_def
      peer_channel_def open_room_def example_core_defs)


section \<open>Where the two differ from what the documentation says\<close>

text \<open>
  C36. A REP socket's \<open>recv\<close> returns only the first frame of a request of several frames: its MORE flag asks for
  another \<open>recv\<close>, which fails until the reply is sent, and sending the reply drops the frames.
\<close>

theorem rep_recv_first_frame_only:
  assumes "fifo_channel ch items cap closed" "is_running core" "rep_state s = ReadyToReceive"
    and "current_recv_frames_buffer (rep_orchestrator s) = []" "\<not> orch_items closed (rep_orchestrator s)"
    and "orch_items items (rep_orchestrator s) = (info, f # g # fs) # xs"
    and "peer_channel core (reply_endpoint_uri info) = Some a"
    and "fifo_channel pc pitems pcap pclosed" "open_room pitems pcap pclosed 1 a w"
  shows "\<exists>s' s'' w'. rep_recv ch core s = Some (s', Inr f) \<and>
    rep_recv ch core s' = Some (s', Inl InvalidState) \<and>
    rep_send_multipart pc core r s' w = Some (s'', w', Inr ()) \<and>
    rep_state s'' = ReadyToReceive \<and> current_recv_frames_buffer (rep_orchestrator s'') = [] \<and>
    orch_items items (rep_orchestrator s'') = xs"
proof -
  let ?t = "rcvtimeo (options (core_state core))"
  obtain c where c: "recv_item_from_main_queue ch ?t (rep_orchestrator s) =
      Some ((rep_orchestrator s)\<lparr>main_incoming_queue := (main_incoming_queue (rep_orchestrator s))\<lparr>fq_chan := c\<rparr>\<rparr>,
        Inr (info, f # g # fs))" "items c = xs"
    using recv_item_next [OF assms(1,5,6), of ?t] by auto
  let ?o = "(rep_orchestrator s)\<lparr>main_incoming_queue := (main_incoming_queue (rep_orchestrator s))\<lparr>fq_chan := c\<rparr>,
      current_recv_frames_buffer := g # fs\<rparr>"
  let ?s = "s\<lparr>rep_orchestrator := ?o, rep_state := ReceivedRequest info\<rparr>"
  have recv: "rep_recv ch core s = Some (?s, Inr f)"
    using assms(2-4) c(1) by (simp add: rep_recv_def Let_def popped_item_def rep_taken_def recv_message_def)
  obtain w' where sent: "rep_send_multipart pc core r ?s w =
      Some (?s\<lparr>rep_orchestrator := reset_recv_message_buffer ?o, rep_state := ReadyToReceive\<rparr>, w', Inr ())"
    by (rule rep_reply [OF assms(8,2) _ assms(7), of ?s 0 w r]) (use assms(9) in auto)
  have "rep_recv ch core ?s = Some (?s, Inl InvalidState)" by (simp add: rep_recv_def assms(2))
  with recv sent show ?thesis
    by (intro exI conjI) (assumption | simp add: reset_recv_message_buffer_def c(2))+
qed

theorem rep_recv_first_frame_only_witness:
  "\<exists>s' s'' w'. rep_recv list_channel (example_core [(''c'', 3)])
      \<lparr>rep_orchestrator =
         (orchestrator_new list_channel 1 1)\<lparr>main_incoming_queue :=
           \<lparr>fq_chan = ([(\<lparr>source_pipe_read_id = 3, reply_endpoint_uri = ''c'', routing_prefix = []\<rparr>,
               [with_more True (msg_from_vec [1]), msg_from_vec [2]])], 1, False), hwm = 1\<rparr>\<rparr>,
       rep_state = ReadyToReceive, rep_pipe_read_id_to_endpoint_uri = []\<rparr> =
        Some (s', Inr (with_more True (msg_from_vec [1]))) \<and>
    rep_recv list_channel (example_core [(''c'', 3)]) s' = Some (s', Inl InvalidState) \<and>
    rep_send_multipart list_channel (example_core [(''c'', 3)]) [] s' (\<lambda>_. ([], 1, False)) = Some (s'', w', Inr ()) \<and>
    rep_state s'' = ReadyToReceive \<and> current_recv_frames_buffer (rep_orchestrator s'') = [] \<and>
    orch_items fst (rep_orchestrator s'') = []"
  by (rule rep_recv_first_frame_only [OF list_channel_fifo, where pitems = fst and pcap = "fst \<circ> snd" and
        pclosed = "snd \<circ> snd" and a = 3 and
        info = "\<lparr>source_pipe_read_id = 3, reply_endpoint_uri = ''c'', routing_prefix = []\<rparr>"])
    (simp_all add: list_channel_fifo orchestrator_new_def peer_channel_def open_room_def example_core_defs)

text \<open>
  C35. A permit of the notifier outlives its reply: \<open>handle_pipe_event\<close> leaves a permit with every reply, and
  \<open>recv_multipart\<close> takes the reply without it.  The next request's \<open>recv\<close> then fails at once with an
  internal error while its reply is still on the way, and the socket drops that reply when it arrives.
\<close>

theorem req_stale_permit:
  assumes "fifo_channel ch items cap closed" "single_permit nt permit" "fifo_channel pc pitems pcap pclosed"
    and "is_running core" "req_state s = ExpectingReply u" "connection_uris (req_load_balancer s) = v # us"
    and "map_of (req_pipe_read_to_endpoint_uri s) p = Some u" "idle_queue items cap closed p (req_orchestrator s)"
    and "well_framed (d # reply)" "msg_size d = 0"
    and "peer_channel core v = Some a" "open_room pitems pcap pclosed 1 a w"
  shows "\<exists>s1 s2 s3 w' s4. feed (req_handle_pipe_event nt ch) (map (Pair p) (d # reply)) s = Some s1 \<and>
    req_recv_multipart nt ch core s1 = Some (s2, Inr reply) \<and>
    req_send pc waits core m s2 w = Some (s3, w', Inr ()) \<and>
    req_recv nt ch woken core s3 = Some (s4, Inl Internal) \<and>
    (\<forall>q f. req_handle_pipe_event nt ch q (PipeMessageReceived f) s4 = Some (s4, Inr ()))"
proof -
  let ?one = "notify_one nt (reply_available_notifier s)"
  obtain orch where f: "feed (req_handle_pipe_event nt ch) (map (Pair p) (d # reply)) s =
      Some (s\<lparr>req_orchestrator := orch, reply_available_notifier := ?one\<rparr>)"
    "orch_items items orch = [reply]" "\<not> orch_items closed orch"
    by (rule req_reply_queued [OF assms(1,8,9,10,7,5)])
  let ?s1 = "s\<lparr>req_orchestrator := orch, reply_available_notifier := ?one\<rparr>"
  obtain orch2 where rc: "req_recv_multipart nt ch core ?s1 =
      Some (?s1\<lparr>req_orchestrator := orch2, req_state := ReadyToSend, reply_available_notifier := notify_waiters nt ?one\<rparr>, Inr reply)"
    "orch_items items orch2 = []" "\<not> orch_items closed orch2" "current_recv_frames_buffer orch2 = []"
    using req_recv_next [OF assms(1,4), of ?s1 u reply "[]" nt] f(2,3) assms(5) by auto
  let ?s2 = "?s1\<lparr>req_orchestrator := orch2, req_state := ReadyToSend, reply_available_notifier := notify_waiters nt ?one\<rparr>"
  obtain w' where sd: "req_send pc waits core m ?s2 w =
      Some (?s2\<lparr>req_load_balancer := (req_load_balancer ?s2)\<lparr>connection_uris := us @ [v]\<rparr>, req_state := ExpectingReply v,
          req_orchestrator := reset_recv_message_buffer orch2\<rparr>, w', Inr ())"
    by (rule req_request [OF assms(3,4), of ?s2 v us a 0 w waits m]) (use assms(6,11,12) in auto)
  let ?s3 = "?s2\<lparr>req_load_balancer := (req_load_balancer ?s2)\<lparr>connection_uris := us @ [v]\<rparr>, req_state := ExpectingReply v,
          req_orchestrator := reset_recv_message_buffer orch2\<rparr>"
  obtain n where permit: "poll_notified nt (notify_waiters nt ?one) = (n, True)"
    using assms(2) unfolding single_permit_def by (metis prod.collapse)
  obtain c where c: "try_recv ch (fq_chan (main_incoming_queue orch2)) = (c, Empty)"
    using fifo_recv(3) [OF assms(1), of "fq_chan (main_incoming_queue orch2)"] rc(2,3)
    by (cases "try_recv ch (fq_chan (main_incoming_queue orch2))") auto
  obtain s4 where s4: "req_recv nt ch woken core ?s3 = Some (s4, Inl Internal)" "req_state s4 = ReadyToSend"
    using c rc(4) assms(4)
    by (simp add: permit req_recv_def req_recv_notified_def recv_message_def recv_item_from_main_queue_def try_pop_item_def
        reset_recv_message_buffer_def req_recv_done_def)
  have "req_handle_pipe_event nt ch q (PipeMessageReceived f) s4 = Some (s4, Inr ())" for q f
    using s4(2) by (simp split: option.split)
  then have drop: "\<forall>q f. req_handle_pipe_event nt ch q (PipeMessageReceived f) s4 = Some (s4, Inr ())" by blast
  show ?thesis by (intro exI conjI, rule f(1), rule rc(1), rule sd, rule s4(1), rule drop)
qed

theorem req_stale_permit_witness:
  "\<exists>s1 s2 s3 w' s4. feed (req_handle_pipe_event bool_notify list_channel)
      (map (Pair 2) [with_more True msg_new, msg_from_vec [5]])
      ((req_attach 2 ''s'' (req_new bool_notify list_channel (example_core [(''s'', 2)])))
        \<lparr>req_state := ExpectingReply ''s''\<rparr>) = Some s1 \<and>
    req_recv_multipart bool_notify list_channel (example_core [(''s'', 2)]) s1 = Some (s2, Inr [msg_from_vec [5]]) \<and>
    req_send list_channel [] (example_core [(''s'', 2)]) (msg_from_vec [6]) s2 (\<lambda>_. ([], 1, False)) = Some (s3, w', Inr ()) \<and>
    req_recv bool_notify list_channel None (example_core [(''s'', 2)]) s3 = Some (s4, Inl Internal) \<and>
    (\<forall>q f. req_handle_pipe_event bool_notify list_channel q (PipeMessageReceived f) s4 = Some (s4, Inr ()))"
  by (rule req_stale_permit [OF list_channel_fifo bool_notify_permit list_channel_fifo, of _ _ "''s''" "''s''" "[]" 2])
    (simp_all add: req_attach_def req_new_def idle_new [OF list_channel_fifo] add_connection_def lb_new_def
      peer_channel_def open_room_def example_core_defs well_framed_Cons msg_size_payload)

end
