(* ===== verification/Dealer.thy ===== *)
theory Dealer
  imports Socket_Pattern Router_Map
begin

text \<open>
  The DEALER socket, \<^verbatim>\<open>core/src/socket/dealer_socket.rs\<close>: its operations and the task that empties its
  outgoing queue.  \<open>waits\<close> are the states with which the waits of a call ended, as other tasks left them;
  when the list is exhausted, no wait ends.  The notifier that ends a buffered transaction stores no
  permit and has no state here.
\<close>

section \<open>State\<close>

definition MAX_DEALER_SEND_BUFFER_PARTS :: nat where
  "MAX_DEALER_SEND_BUFFER_PARTS = 10240"

datatype DealerSendTransaction = Idle | Buffering "Msg list"

record ('q, 's, 'n) DealerSocket =
  dealer_load_balancer :: LoadBalancer
  dealer_orchestrator :: "'q IncomingMessageOrchestrator"
  dealer_pipe_read_to_endpoint_uri :: "(nat \<times> uri) list"
  pending_outgoing_queue :: "Msg list list"
  outgoing_queue_activity_notifier :: 'n
  peer_availability_notifier :: 'n
  processor_task_handle :: bool
  processor_stop_signal :: 'n
  current_send_transaction :: DealerSendTransaction
  dealer_send_coordinator :: "'s WritePipeCoordinator"
  dealer_framing :: FramingLatch

definition dealer_new :: "'n notify_ops \<Rightarrow> ('q, Msg list) chan_ops \<Rightarrow> SocketCore \<Rightarrow> ('q, 's, 'n) DealerSocket" where
  "dealer_new nt ch core =
    \<lparr>dealer_load_balancer = lb_new,
     dealer_orchestrator = orchestrator_new ch (core_handle (core_state core)) (rcvhwm (options (core_state core))),
     dealer_pipe_read_to_endpoint_uri = [], pending_outgoing_queue = [],
     outgoing_queue_activity_notifier = notify_new nt, peer_availability_notifier = notify_new nt,
     processor_task_handle = True, processor_stop_signal = notify_new nt,
     current_send_transaction = Idle, dealer_send_coordinator = [],
     dealer_framing = latch_new dealer_auto_encode dealer_auto_decode\<rparr>"


section \<open>Sending\<close>

definition dealer_drop_peer ::
  "'n notify_ops \<Rightarrow> uri \<Rightarrow> ('q, 's, 'n) DealerSocket \<Rightarrow> ('q, 's, 'n) DealerSocket" where
  "dealer_drop_peer nt u s =
    s\<lparr>dealer_load_balancer := remove_connection u (dealer_load_balancer s),
      peer_availability_notifier := notify_waiters nt (peer_availability_notifier s)\<rparr>"

text \<open>A closed or unreachable peer also loses its send permit.\<close>

definition dealer_drop_pipe ::
  "'s sem_ops \<Rightarrow> 'n notify_ops \<Rightarrow> uri \<Rightarrow> nat \<Rightarrow> ('q, 's, 'n) DealerSocket \<Rightarrow> ('q, 's, 'n) DealerSocket" where
  "dealer_drop_pipe S nt u pipe_read_id s =
    dealer_drop_peer nt u
      (s\<lparr>dealer_send_coordinator := fst (remove_pipe S pipe_read_id (dealer_send_coordinator s))\<rparr>)"

definition dealer_release ::
  "'s sem_ops \<Rightarrow> nat \<Rightarrow> ('q, 's, 'n) DealerSocket \<Rightarrow> ('q, 's, 'n) DealerSocket" where
  "dealer_release S pipe_read_id s =
    s\<lparr>dealer_send_coordinator := release_send_permit S pipe_read_id (dealer_send_coordinator s)\<rparr>"

fun queue_message_or_error ::
  "'n notify_ops \<Rightarrow> (SocketCore \<times> ('q, 's, 'n) DealerSocket) list \<Rightarrow> SocketCore \<Rightarrow> Msg list \<Rightarrow> nat \<Rightarrow>
    duration option \<Rightarrow> ('q, 's, 'n) DealerSocket \<Rightarrow> (('q, 's, 'n) DealerSocket \<times> unit res) option" where
  "queue_message_or_error nt waits core parts global_sndhwm global_sndtimeo s =
    (if \<not> is_running core then Some (s, Inl InvalidState)
     else if length (pending_outgoing_queue s) < global_sndhwm then
       Some (s\<lparr>pending_outgoing_queue := pending_outgoing_queue s @ [parts],
           outgoing_queue_activity_notifier := notify_one nt (outgoing_queue_activity_notifier s)\<rparr>, Inr ())
     else if global_sndtimeo = Some 0 then Some (s, Inl ResourceLimitReached)
     else
       (case waits of
          (core', s') # waits' \<Rightarrow> queue_message_or_error nt waits' core' parts global_sndhwm global_sndtimeo s'
        | [] \<Rightarrow> if global_sndtimeo = None then None else Some (s, Inl Timeout)))"

text \<open>The attempts to hand the message to a peer directly; \<open>k\<close> of them are left.\<close>

fun direct_send_attempts ::
  "'s sem_ops \<Rightarrow> 'n notify_ops \<Rightarrow> ('c, Msg list) chan_ops \<Rightarrow> (SocketCore \<times> ('q, 's, 'n) DealerSocket) list \<Rightarrow>
    SocketCore \<Rightarrow> Msg list \<Rightarrow> nat \<Rightarrow> duration option \<Rightarrow> nat \<Rightarrow> ('q, 's, 'n) DealerSocket \<Rightarrow> 'c chans \<Rightarrow>
    (('q, 's, 'n) DealerSocket \<times> 'c chans \<times> unit res) option" where
  "direct_send_attempts S nt pc waits core frames global_sndhwm tmo 0 s w =
    map_option (\<lambda>(s, r). (s, w, r)) (queue_message_or_error nt waits core frames global_sndhwm tmo s)"
| "direct_send_attempts S nt pc waits core frames global_sndhwm tmo (Suc k) s w =
    (if \<not> is_running core then Some (s, w, Inl InvalidState)
     else
       (case get_next_connection_uri (dealer_load_balancer s) of
          (lb, None) \<Rightarrow>
            map_option (\<lambda>(s, r). (s, w, r))
              (queue_message_or_error nt waits core frames global_sndhwm tmo (s\<lparr>dealer_load_balancer := lb\<rparr>))
        | (lb, Some u) \<Rightarrow>
            (let s = s\<lparr>dealer_load_balancer := lb\<rparr>
             in case endpoint_of core u of
                  None \<Rightarrow> direct_send_attempts S nt pc waits core frames global_sndhwm tmo k (dealer_drop_peer nt u s) w
                | Some ep_info \<Rightarrow>
                    (case pipe_ids ep_info of
                       None \<Rightarrow> direct_send_attempts S nt pc waits core frames global_sndhwm tmo k (dealer_drop_peer nt u s) w
                     | Some (_, pipe_read_id) \<Rightarrow>
                         (case acquire_send_permit S pipe_read_id tmo (dealer_send_coordinator s) of
                            None \<Rightarrow> None
                          | Some (coord, Inl e) \<Rightarrow>
                              (let s = s\<lparr>dealer_send_coordinator := coord\<rparr>
                               in if e = ResourceLimitReached \<or> e = Timeout then
                                    map_option (\<lambda>(s, r). (s, w, r))
                                      (queue_message_or_error nt waits core frames global_sndhwm tmo s)
                                  else if e = HostUnreachable then
                                    direct_send_attempts S nt pc waits core frames global_sndhwm tmo k (dealer_drop_peer nt u s) w
                                  else Some (s, w, Inl e))
                          | Some (coord, Inr _) \<Rightarrow>
                              (let s = s\<lparr>dealer_send_coordinator := coord\<rparr>
                               in case conn_send_multipart pc (connection_iface ep_info) frames w of
                                    None \<Rightarrow> None
                                  | Some (w, Inr _) \<Rightarrow> Some (dealer_release S pipe_read_id s, w, Inr ())
                                  | Some (w, Inl e) \<Rightarrow>
                                      (if e = ResourceLimitReached \<or> e = Timeout then
                                         direct_send_attempts S nt pc waits core frames global_sndhwm tmo k
                                           (dealer_release S pipe_read_id s) w
                                       else if e = ConnectionClosed \<or> e = HostUnreachable then
                                         direct_send_attempts S nt pc waits core frames global_sndhwm tmo k
                                           (dealer_release S pipe_read_id (dealer_drop_pipe S nt u pipe_read_id s)) w
                                       else Some (dealer_release S pipe_read_id s, w, Inl e))))))))"

definition send_logical_message ::
  "'s sem_ops \<Rightarrow> 'n notify_ops \<Rightarrow> ('c, Msg list) chan_ops \<Rightarrow> (SocketCore \<times> ('q, 's, 'n) DealerSocket) list \<Rightarrow>
    SocketCore \<Rightarrow> Msg list \<Rightarrow> ('q, 's, 'n) DealerSocket \<Rightarrow> 'c chans \<Rightarrow>
    (('q, 's, 'n) DealerSocket \<times> 'c chans \<times> unit res) option" where
  "send_logical_message S nt pc waits core zmtp_wire_frames s w =
    (if \<not> is_running core then Some (s, w, Inl InvalidState)
     else
       direct_send_attempts S nt pc waits core zmtp_wire_frames (max (sndhwm (options (core_state core))) 1)
         (sndtimeo (options (core_state core))) (max (connection_count (dealer_load_balancer s)) 1) s w)"

definition prepare_full_multipart_send_sequence :: "FramingLatch \<Rightarrow> Msg list \<Rightarrow> Msg list" where
  "prepare_full_multipart_send_sequence framing frames =
    (if is_manual framing then mark_more frames
     else if frames = [] then [with_more True msg_new, with_more False msg_new]
     else mark_more (latch_encode framing frames))"

definition dealer_send ::
  "'s sem_ops \<Rightarrow> 'n notify_ops \<Rightarrow> ('c, Msg list) chan_ops \<Rightarrow> (SocketCore \<times> ('q, 's, 'n) DealerSocket) list \<Rightarrow>
    SocketCore \<Rightarrow> Msg \<Rightarrow> ('q, 's, 'n) DealerSocket \<Rightarrow> 'c chans \<Rightarrow>
    (('q, 's, 'n) DealerSocket \<times> 'c chans \<times> unit res) option" where
  "dealer_send S nt pc waits core msg s w =
    (if \<not> is_running core then Some (s, w, Inl InvalidState)
     else if is_more msg then
       (case current_send_transaction s of
          Idle \<Rightarrow> Some (s\<lparr>current_send_transaction := Buffering [msg]\<rparr>, w, Inr ())
        | Buffering parts \<Rightarrow>
            if length parts \<ge> MAX_DEALER_SEND_BUFFER_PARTS
            then Some (s\<lparr>current_send_transaction := Idle\<rparr>, w, Inl ResourceLimitReached)
            else Some (s\<lparr>current_send_transaction := Buffering (parts @ [msg])\<rparr>, w, Inr ()))
     else
       (let parts = (case current_send_transaction s of Idle \<Rightarrow> [msg] | Buffering parts \<Rightarrow> parts @ [msg]);
            s = s\<lparr>current_send_transaction := Idle\<rparr>
        in send_logical_message S nt pc waits core
             (prepare_full_multipart_send_sequence (dealer_framing s) parts) s w))"

fun dealer_send_when_idle ::
  "'s sem_ops \<Rightarrow> 'n notify_ops \<Rightarrow> ('c, Msg list) chan_ops \<Rightarrow> (SocketCore \<times> ('q, 's, 'n) DealerSocket) list \<Rightarrow>
    (SocketCore \<times> ('q, 's, 'n) DealerSocket) list \<Rightarrow> duration option \<Rightarrow> SocketCore \<Rightarrow> Msg list \<Rightarrow>
    ('q, 's, 'n) DealerSocket \<Rightarrow> 'c chans \<Rightarrow> (('q, 's, 'n) DealerSocket \<times> 'c chans \<times> unit res) option" where
  "dealer_send_when_idle S nt pc waits qwaits sndtimeo_opt core user_frames s w =
    (case current_send_transaction s of
       Idle \<Rightarrow>
         send_logical_message S nt pc qwaits core
           (prepare_full_multipart_send_sequence (dealer_framing s) user_frames) s w
     | Buffering _ \<Rightarrow>
         if sndtimeo_opt = Some 0 then Some (s, w, Inl ResourceLimitReached)
         else if \<not> is_running core then Some (s, w, Inl InvalidState)
         else
           (case waits of
              (core', s') # waits' \<Rightarrow>
                if \<not> is_running core' then Some (s', w, Inl InvalidState)
                else dealer_send_when_idle S nt pc waits' qwaits sndtimeo_opt core' user_frames s' w
            | [] \<Rightarrow> if sndtimeo_opt = None then None else Some (s, w, Inl Timeout)))"

definition dealer_send_multipart ::
  "'s sem_ops \<Rightarrow> 'n notify_ops \<Rightarrow> ('c, Msg list) chan_ops \<Rightarrow> (SocketCore \<times> ('q, 's, 'n) DealerSocket) list \<Rightarrow>
    (SocketCore \<times> ('q, 's, 'n) DealerSocket) list \<Rightarrow> SocketCore \<Rightarrow> Msg list \<Rightarrow> ('q, 's, 'n) DealerSocket \<Rightarrow>
    'c chans \<Rightarrow> (('q, 's, 'n) DealerSocket \<times> 'c chans \<times> unit res) option" where
  "dealer_send_multipart S nt pc waits qwaits core user_frames s w =
    (if \<not> is_running core then Some (s, w, Inl InvalidState)
     else dealer_send_when_idle S nt pc waits qwaits (sndtimeo (options (core_state core))) core user_frames s w)"


section \<open>The outgoing queue processor\<close>

datatype proc_wake = WokeStop | WokeActivity

text \<open>
  The \<^verbatim>\<open>select!\<close> of the loop: the stop signal first, then the two notifiers in the order tokio picks at random
  (\<open>queue_first\<close>).  Without a permit the task keeps waiting.
\<close>

definition proc_wait ::
  "'n notify_ops \<Rightarrow> bool \<Rightarrow> ('q, 's, 'n) DealerSocket \<Rightarrow> (('q, 's, 'n) DealerSocket \<times> proc_wake) option" where
  "proc_wait nt queue_first s =
    (case poll_notified nt (processor_stop_signal s) of
       (n, True) \<Rightarrow> Some (s\<lparr>processor_stop_signal := n\<rparr>, WokeStop)
     | (n, False) \<Rightarrow>
         (case (poll_notified nt (outgoing_queue_activity_notifier s), poll_notified nt (peer_availability_notifier s)) of
            ((q, True), (p, True)) \<Rightarrow>
              Some (if queue_first then s\<lparr>outgoing_queue_activity_notifier := q\<rparr>
                    else s\<lparr>peer_availability_notifier := p\<rparr>, WokeActivity)
          | ((q, True), _) \<Rightarrow> Some (s\<lparr>outgoing_queue_activity_notifier := q\<rparr>, WokeActivity)
          | (_, (p, True)) \<Rightarrow> Some (s\<lparr>peer_availability_notifier := p\<rparr>, WokeActivity)
          | _ \<Rightarrow> None))"

definition requeue :: "'n notify_ops \<Rightarrow> Msg list \<Rightarrow> ('q, 's, 'n) DealerSocket \<Rightarrow> ('q, 's, 'n) DealerSocket" where
  "requeue nt m s =
    s\<lparr>pending_outgoing_queue := m # pending_outgoing_queue s,
      outgoing_queue_activity_notifier := notify_one nt (outgoing_queue_activity_notifier s)\<rparr>"

text \<open>\<^verbatim>\<open>'peer_send_loop\<close>: the result is whether a peer took the message.\<close>

fun peer_send_loop ::
  "'s sem_ops \<Rightarrow> 'n notify_ops \<Rightarrow> ('c, Msg list) chan_ops \<Rightarrow> SocketCore \<Rightarrow> Msg list \<Rightarrow> duration option \<Rightarrow> nat \<Rightarrow>
    ('q, 's, 'n) DealerSocket \<Rightarrow> 'c chans \<Rightarrow> (('q, 's, 'n) DealerSocket \<times> 'c chans \<times> bool) option" where
  "peer_send_loop S nt pc core m tmo 0 s w = Some (s, w, False)"
| "peer_send_loop S nt pc core m tmo (Suc k) s w =
    (if \<not> is_running core then Some (requeue nt m s, w, False)
     else
       (case get_next_connection_uri (dealer_load_balancer s) of
          (lb, None) \<Rightarrow> Some (s\<lparr>dealer_load_balancer := lb\<rparr>, w, False)
        | (lb, Some u) \<Rightarrow>
            (let s = s\<lparr>dealer_load_balancer := lb\<rparr>
             in case Option.bind (endpoint_of core u) (\<lambda>ep. map_option (\<lambda>ids. (ep, snd ids)) (pipe_ids ep)) of
                  None \<Rightarrow> peer_send_loop S nt pc core m tmo k (dealer_drop_peer nt u s) w
                | Some (ep_info, pipe_read_id) \<Rightarrow>
                    (case acquire_send_permit S pipe_read_id tmo (dealer_send_coordinator s) of
                       None \<Rightarrow> None
                     | Some (coord, Inl e) \<Rightarrow>
                         (let s = s\<lparr>dealer_send_coordinator := coord\<rparr>
                          in peer_send_loop S nt pc core m tmo k
                               (if e = HostUnreachable then dealer_drop_peer nt u s else s) w)
                     | Some (coord, Inr _) \<Rightarrow>
                         (let s = s\<lparr>dealer_send_coordinator := coord\<rparr>
                          in case conn_send_multipart pc (connection_iface ep_info) m w of
                               None \<Rightarrow> None
                             | Some (w, Inr _) \<Rightarrow> Some (dealer_release S pipe_read_id s, w, True)
                             | Some (w, Inl e) \<Rightarrow>
                                 (if e = ResourceLimitReached \<or> e = Timeout then
                                    peer_send_loop S nt pc core m tmo k (dealer_release S pipe_read_id s) w
                                  else if e = ConnectionClosed \<or> e = HostUnreachable then
                                    peer_send_loop S nt pc core m tmo k
                                      (dealer_release S pipe_read_id (dealer_drop_pipe S nt u pipe_read_id s)) w
                                  else Some (dealer_release S pipe_read_id s, w, False)))))))"

text \<open>One iteration of \<open>run\<close>; the flag says whether the loop goes on.\<close>

definition proc_iteration ::
  "'s sem_ops \<Rightarrow> 'n notify_ops \<Rightarrow> ('c, Msg list) chan_ops \<Rightarrow> bool \<Rightarrow> SocketCore \<Rightarrow> ('q, 's, 'n) DealerSocket \<Rightarrow>
    'c chans \<Rightarrow> (('q, 's, 'n) DealerSocket \<times> 'c chans \<times> bool) option" where
  "proc_iteration S nt pc queue_first core s w =
    (case proc_wait nt queue_first s of
       None \<Rightarrow> None
     | Some (s, WokeStop) \<Rightarrow> Some (s, w, False)
     | Some (s, WokeActivity) \<Rightarrow>
         (case pending_outgoing_queue s of
            [] \<Rightarrow> Some (s, w, True)
          | m # rest \<Rightarrow>
              if \<not> has_connections (dealer_load_balancer s) then Some (s, w, True)
              else
                (case peer_send_loop S nt pc core m (sndtimeo (options (core_state core)))
                        (max (connection_count (dealer_load_balancer s)) 1) (s\<lparr>pending_outgoing_queue := rest\<rparr>) w of
                   None \<Rightarrow> None
                 | Some (s, w, sent) \<Rightarrow> Some (if sent then s else requeue nt m s, w, True))))"


section \<open>Receiving, options and connections\<close>

definition process_incoming_zmtp_message_for_dealer :: "FramingLatch \<Rightarrow> Msg list \<Rightarrow> Msg list res" where
  "process_incoming_zmtp_message_for_dealer framing frames =
    (case frames of
       [] \<Rightarrow> Inr []
     | f # rest \<Rightarrow>
         if is_manual framing then Inr frames
         else if msg_size f \<noteq> 0 then
           (case rest of
              [] \<Rightarrow> Inr []
            | d # payload \<Rightarrow> if msg_size d \<noteq> 0 then Inr rest else Inr payload)
         else Inr rest)"

definition dealer_recv ::
  "('q, Msg list) chan_ops \<Rightarrow> SocketCore \<Rightarrow> ('q, 's, 'n) DealerSocket \<Rightarrow>
    (('q, 's, 'n) DealerSocket \<times> Msg res) option" where
  "dealer_recv ch core s =
    (if \<not> is_running core then Some (s, Inl InvalidState)
     else map_option (\<lambda>(orch, r). (s\<lparr>dealer_orchestrator := orch\<rparr>, r))
            (recv_message ch (\<lambda>m. m) (rcvtimeo (options (core_state core))) (dealer_orchestrator s)))"

definition dealer_recv_multipart ::
  "('q, Msg list) chan_ops \<Rightarrow> SocketCore \<Rightarrow> ('q, 's, 'n) DealerSocket \<Rightarrow>
    (('q, 's, 'n) DealerSocket \<times> Msg list res) option" where
  "dealer_recv_multipart ch core s =
    (if \<not> is_running core then Some (s, Inl InvalidState)
     else map_option (\<lambda>(orch, r). (s\<lparr>dealer_orchestrator := orch\<rparr>, r))
            (recv_logical_message ch (\<lambda>m. m) (rcvtimeo (options (core_state core))) (dealer_orchestrator s)))"

definition dealer_set_pattern_option ::
  "int \<Rightarrow> bytes \<Rightarrow> ('q, 's, 'n) DealerSocket \<Rightarrow> ('q, 's, 'n) DealerSocket \<times> unit res" where
  "dealer_set_pattern_option option_id v s =
    (if option_id = AUTO_DELIMITER then
       (case parse_bool_option v of
          Inl e \<Rightarrow> (s, Inl e)
        | Inr b \<Rightarrow> (if \<not> b then s\<lparr>dealer_framing := fst (set_manual (dealer_framing s))\<rparr> else s, Inr ()))
     else (s, Inl (UnsupportedOption option_id)))"

definition dealer_get_pattern_option :: "int \<Rightarrow> ('q, 's, 'n) DealerSocket \<Rightarrow> bytes res" where
  "dealer_get_pattern_option option_id s =
    (if option_id = AUTO_DELIMITER then Inr (i32_bytes (if is_manual (dealer_framing s) then 0 else 1))
     else Inl (UnsupportedOption option_id))"

definition dealer_process_command ::
  "'n notify_ops \<Rightarrow> ('q, Msg list) chan_ops \<Rightarrow> pattern_command \<Rightarrow> ('q, 's, 'n) DealerSocket \<Rightarrow>
    ('q, 's, 'n) DealerSocket \<times> bool res" where
  "dealer_process_command nt ch c s =
    (case c of
       Stop \<Rightarrow>
         (s\<lparr>dealer_orchestrator := orchestrator_close ch (dealer_orchestrator s),
            processor_stop_signal := notify_one nt (processor_stop_signal s),
            processor_task_handle := False,
            outgoing_queue_activity_notifier := notify_waiters nt (outgoing_queue_activity_notifier s),
            peer_availability_notifier := notify_waiters nt (peer_availability_notifier s)\<rparr>, Inr True)
     | _ \<Rightarrow> (s, Inr False))"

fun dealer_handle_pipe_event ::
  "('q, Msg list) chan_ops \<Rightarrow> nat \<Rightarrow> pipe_event \<Rightarrow> ('q, 's, 'n) DealerSocket \<Rightarrow>
    (('q, 's, 'n) DealerSocket \<times> unit res) option" where
  "dealer_handle_pipe_event ch pipe_read_id (PipeMessageReceived msg) s =
    map_option (\<lambda>(orch, r). (s\<lparr>dealer_orchestrator := orch\<rparr>, r))
      (receive_frame ch
        (\<lambda>m. case process_incoming_zmtp_message_for_dealer (dealer_framing s) m of
               Inr payload \<Rightarrow> Inr (Some payload) | Inl _ \<Rightarrow> Inr None)
        pipe_read_id msg (dealer_orchestrator s))"
| "dealer_handle_pipe_event ch pipe_read_id PipeClosedByPeer s = Some (s, Inr ())"

definition dealer_attach ::
  "'s sem_ops \<Rightarrow> 'n notify_ops \<Rightarrow> nat \<Rightarrow> uri \<Rightarrow> ('q, 's, 'n) DealerSocket \<Rightarrow> ('q, 's, 'n) DealerSocket" where
  "dealer_attach S nt pipe_read_id u s =
    s\<lparr>dealer_pipe_read_to_endpoint_uri := alist_put pipe_read_id u (dealer_pipe_read_to_endpoint_uri s),
      dealer_load_balancer := add_connection u (dealer_load_balancer s),
      dealer_send_coordinator := add_pipe S pipe_read_id (dealer_send_coordinator s),
      peer_availability_notifier := notify_one nt (peer_availability_notifier s),
      outgoing_queue_activity_notifier := notify_one nt (outgoing_queue_activity_notifier s)\<rparr>"

definition dealer_pipe_attached ::
  "'s sem_ops \<Rightarrow> 'n notify_ops \<Rightarrow> SocketCore \<Rightarrow> nat \<Rightarrow> ('q, 's, 'n) DealerSocket \<Rightarrow> ('q, 's, 'n) DealerSocket" where
  "dealer_pipe_attached S nt core pipe_read_id s =
    (case uri_of_pipe core pipe_read_id of Some u \<Rightarrow> dealer_attach S nt pipe_read_id u s | None \<Rightarrow> s)"

definition dealer_pipe_detached ::
  "'s sem_ops \<Rightarrow> 'n notify_ops \<Rightarrow> nat \<Rightarrow> ('q, 's, 'n) DealerSocket \<Rightarrow> ('q, 's, 'n) DealerSocket" where
  "dealer_pipe_detached S nt pipe_read_id s =
    (let removed = map_of (dealer_pipe_read_to_endpoint_uri s) pipe_read_id;
         s = s\<lparr>dealer_pipe_read_to_endpoint_uri := alist_del pipe_read_id (dealer_pipe_read_to_endpoint_uri s)\<rparr>;
         s = (case removed of
                Some u \<Rightarrow> s\<lparr>dealer_load_balancer := remove_connection u (dealer_load_balancer s)\<rparr>
              | None \<Rightarrow> s)
     in s\<lparr>dealer_send_coordinator := fst (remove_pipe S pipe_read_id (dealer_send_coordinator s)),
          dealer_orchestrator := clear_pipe_state pipe_read_id (dealer_orchestrator s),
          peer_availability_notifier := notify_waiters nt (peer_availability_notifier s)\<rparr>)"

definition dealer_drop :: "'n notify_ops \<Rightarrow> ('q, 's, 'n) DealerSocket \<Rightarrow> ('q, 's, 'n) DealerSocket" where
  "dealer_drop nt s =
    s\<lparr>processor_stop_signal := notify_one nt (processor_stop_signal s), processor_task_handle := False,
      current_send_transaction := Idle\<rparr>"


section \<open>The contracts\<close>

interpretation dealer: balanced_socket "dealer_attach S nt" "dealer_pipe_detached S nt"
  dealer_pipe_read_to_endpoint_uri "\<lambda>s. connection_uris (dealer_load_balancer s)" for S nt
  by unfold_locales
    (auto simp: dealer_attach_def dealer_pipe_detached_def Let_def lb.conns_add lb.conns_remove split: option.split)

definition dealer_payload :: "FramingLatch \<Rightarrow> Msg list \<Rightarrow> Msg list option" where
  "dealer_payload framing m =
    (case process_incoming_zmtp_message_for_dealer framing m of Inr payload \<Rightarrow> Some payload | Inl _ \<Rightarrow> None)"

interpretation dealer_in: inbound_socket ch dealer_orchestrator "\<lambda>orch s. s\<lparr>dealer_orchestrator := orch\<rparr>"
  "dealer_handle_pipe_event ch" "\<lambda>s p m. dealer_payload (dealer_framing s) m" "dealer_recv_multipart ch" "\<lambda>m. m" for ch
  by unfold_locales
    (auto simp: dealer_recv_multipart_def dealer_payload_def sum.case_distrib cong: sum.case_cong)


section \<open>The outgoing queue\<close>

lemma undelivered_refl [simp]: "undelivered items w w"
  by (simp add: undelivered_def)

lemma undelivered_trans:
  "undelivered items w w1 \<Longrightarrow> undelivered items w1 w2 \<Longrightarrow> undelivered items w w2"
  "undelivered items w w1 \<Longrightarrow> delivered items a m w1 w2 \<Longrightarrow> delivered items a m w w2"
  by (simp_all add: undelivered_def delivered_def)

lemma delivered_later:
  "undelivered items w w1 \<Longrightarrow> delivered items a m w1 w2 \<Longrightarrow> \<exists>a. delivered items a m w w2"
  using undelivered_trans(2) by blast

lemma dealer_queue_frames [simp]:
  "pending_outgoing_queue (dealer_drop_peer nt u s) = pending_outgoing_queue s"
  "pending_outgoing_queue (dealer_drop_pipe S nt u p s) = pending_outgoing_queue s"
  "pending_outgoing_queue (dealer_release S p s) = pending_outgoing_queue s"
  by (simp_all add: dealer_drop_peer_def dealer_drop_pipe_def dealer_release_def)

lemma peer_send_loop_once:
  assumes fifo: "fifo_channel pc items cap closed" and run: "is_running core"
  shows "peer_send_loop S nt pc core m tmo k s w = Some (s', w', sent) \<Longrightarrow>
    pending_outgoing_queue s' = pending_outgoing_queue s \<and>
    (if sent then \<exists>a. delivered items a m w w' else undelivered items w w')"
proof (induction k arbitrary: s w)
  case 0
  then show ?case by simp
next
  case (Suc k)
  note IH = Suc.IH
  obtain lb u where next_uri: "get_next_connection_uri (dealer_load_balancer s) = (lb, u)" by fastforce
  show ?case
  proof (cases u)
    case None
    then show ?thesis using Suc.prems run next_uri by auto
  next
    case (Some v)
    let ?ep = "Option.bind (endpoint_of core v) (\<lambda>ep. map_option (\<lambda>ids. (ep, snd ids)) (pipe_ids ep))"
    show ?thesis
    proof (cases ?ep)
      case None
      then show ?thesis using IH [of "dealer_drop_peer nt v (s\<lparr>dealer_load_balancer := lb\<rparr>)" w] Suc.prems run next_uri Some
        by (simp add: Let_def)
    next
      case (Some ep)
      obtain info p where ep: "ep = (info, p)" by (cases ep)
      obtain coord r where acq: "acquire_send_permit S p tmo (dealer_send_coordinator s) = Some (coord, r)"
        using Suc.prems run next_uri \<open>u = Some v\<close> Some ep
        by (cases "acquire_send_permit S p tmo (dealer_send_coordinator s)") (auto simp: Let_def)
      show ?thesis
      proof (cases r)
        case (Inl e)
        then show ?thesis using IH Suc.prems run next_uri \<open>u = Some v\<close> Some ep acq
          by (fastforce simp: Let_def split: if_splits)
      next
        case (Inr x)
        obtain w1 r1 where sent: "conn_send_multipart pc (connection_iface info) m w = Some (w1, r1)"
          using Suc.prems run next_uri \<open>u = Some v\<close> Some ep acq Inr
          by (cases "conn_send_multipart pc (connection_iface info) m w") (auto simp: Let_def)
        show ?thesis
        proof (cases r1)
          case (Inl e)
          then have same: "undelivered items w w1" using conn_send_error [OF fifo] sent by blast
          show ?thesis
            using Suc.prems run next_uri \<open>u = Some v\<close> Some ep acq Inr sent Inl same
            by (auto simp: Let_def split: if_splits dest!: IH intro: undelivered_trans delivered_later)
        next
          case (Inr y)
          then show ?thesis
            using Suc.prems run next_uri \<open>u = Some v\<close> Some ep acq \<open>r = Inr x\<close> sent conn_send_ok [OF fifo, of "connection_iface info" m w w1]
            by (auto simp: Let_def)
        qed
      qed
    qed
  qed
qed

lemma proc_wait_queue:
  "proc_wait nt b s = Some (s', k) \<Longrightarrow> pending_outgoing_queue s' = pending_outgoing_queue s \<and>
    dealer_load_balancer s' = dealer_load_balancer s \<and> dealer_send_coordinator s' = dealer_send_coordinator s"
  by (auto simp: proc_wait_def split: prod.splits bool.splits if_splits)

text \<open>
  C22. The queue processor of a running DEALER socket neither loses nor duplicates nor reorders a message: an
  iteration hands the first message of the queue to exactly one pipe, once, and leaves the rest of the
  queue, or it leaves the queue and all pipes as they were.
\<close>

theorem dealer_queue_conserved:
  assumes "fifo_channel pc items cap closed" "is_running core"
    and "proc_iteration S nt pc queue_first core s w = Some (s', w', continue)"
  shows "pending_outgoing_queue s' = pending_outgoing_queue s \<and> undelivered items w w' \<or>
    (\<exists>m a. pending_outgoing_queue s = m # pending_outgoing_queue s' \<and> delivered items a m w w')"
proof -
  obtain s1 k where wait: "proc_wait nt queue_first s = Some (s1, k)"
    using assms(3) by (auto simp: proc_iteration_def split: option.splits)
  note queue = proc_wait_queue [OF wait]
  show ?thesis
  proof (cases "k = WokeActivity \<and> has_connections (dealer_load_balancer s1) \<and> pending_outgoing_queue s1 \<noteq> []")
    case False
    then have "s' = s1 \<and> w' = w" using assms(3) wait
      by (cases k) (auto simp: proc_iteration_def split: list.splits if_splits)
    then show ?thesis using queue by simp
  next
    case True
    then obtain m rest where m: "pending_outgoing_queue s1 = m # rest" by (cases "pending_outgoing_queue s1") auto
    obtain s2 w2 sent where loop: "peer_send_loop S nt pc core m (sndtimeo (options (core_state core)))
        (max (connection_count (dealer_load_balancer s1)) 1) (s1\<lparr>pending_outgoing_queue := rest\<rparr>) w = Some (s2, w2, sent)"
        "s' = (if sent then s2 else requeue nt m s2)" "w' = w2"
      using assms(3) wait True m by (auto simp: proc_iteration_def split: option.splits)
    from peer_send_loop_once [OF assms(1,2) loop(1)] show ?thesis
      using loop(2,3) queue m by (cases sent) (auto simp: requeue_def)
  qed
qed

text \<open>
  When the socket closes, the same iteration puts a message back twice.
\<close>

theorem dealer_requeues_twice:
  assumes "\<not> is_running core" "connection_uris (dealer_load_balancer s) \<noteq> []"
    and "pending_outgoing_queue s = m # ms" "proc_wait nt queue_first s = Some (s1, WokeActivity)"
  shows "\<exists>s'. proc_iteration S nt pc queue_first core s w = Some (s', w, True) \<and>
    pending_outgoing_queue s' = m # m # ms"
proof -
  have "pending_outgoing_queue s1 = m # ms" "has_connections (dealer_load_balancer s1)"
    using proc_wait_queue [OF assms(4)] assms(2,3) by (simp_all add: has_connections_def)
  moreover obtain k where "max (connection_count (dealer_load_balancer s1)) 1 = Suc k"
    by (metis One_nat_def Suc_le_D max.cobounded2)
  ultimately show ?thesis using assms(1,4) by (simp add: proc_iteration_def requeue_def)
qed


section \<open>Queued messages and a peer that attaches\<close>

definition permit_free :: "('s \<Rightarrow> nat) \<Rightarrow> ('s \<Rightarrow> bool) \<Rightarrow> nat \<Rightarrow> 's WritePipeCoordinator \<Rightarrow> bool" where
  "permit_free avail sclosed p coord \<longleftrightarrow>
    (\<exists>st. map_of coord p = Some st \<and> \<not> is_closing st \<and> \<not> sclosed (semaphore st) \<and> 0 < avail (semaphore st))"

lemma permit_cycle:
  assumes sem: "counting_semaphore S avail sclosed" and free: "permit_free avail sclosed p coord"
  obtains coord' where "acquire_send_permit S p tmo coord = Some (coord', Inr ())"
    "permit_free avail sclosed p (release_send_permit S p coord')"
proof -
  obtain st where st: "map_of coord p = Some st" "\<not> is_closing st" "\<not> sclosed (semaphore st)" "0 < avail (semaphore st)"
    using free by (auto simp: permit_free_def)
  obtain x r where x: "sem_try_acquire S (semaphore st) = (x, r)" by fastforce
  then have r: "r = Permit" "\<not> sclosed x" using sem_acquire [OF sem x] st by (cases "avail (semaphore st)"; simp)+
  let ?c = "alist_put p (st\<lparr>semaphore := x\<rparr>) coord"
  have "acquire_send_permit S p tmo coord = Some (?c, Inr ())"
    using st(1,2) x r(1) by (simp add: acquire_send_permit_def Let_def split: option.split)
  moreover have "avail (sem_release S x) = avail x + 1" "sclosed (sem_release S x) = sclosed x"
    using sem by (auto simp: counting_semaphore_def)
  then have "permit_free avail sclosed p (release_send_permit S p ?c)"
    using st(2) r(2) by (simp add: release_send_permit_def permit_free_def)
  ultimately show ?thesis by (rule that)
qed

text \<open>The only peer takes a message.\<close>

definition sole_peer ::
  "('s \<Rightarrow> nat) \<Rightarrow> ('s \<Rightarrow> bool) \<Rightarrow> SocketCore \<Rightarrow> uri \<Rightarrow> nat \<Rightarrow> nat \<Rightarrow> ('q, 's, 'n) DealerSocket \<Rightarrow> bool" where
  "sole_peer avail sclosed core u p a s \<longleftrightarrow>
    connection_uris (dealer_load_balancer s) = [u] \<and>
    (\<exists>ep. endpoint_of core u = Some ep \<and> map_option snd (pipe_ids ep) = Some p \<and>
      conn_channel (connection_iface ep) = Some a) \<and>
    permit_free avail sclosed p (dealer_send_coordinator s)"

lemma sole_peer_takes:
  assumes "counting_semaphore S avail sclosed" "fifo_channel pc items cap closed" "is_running core"
    and "sole_peer avail sclosed core u p a s" "open_room items cap closed (Suc n) a w"
  obtains coord w' where
    "peer_send_loop S nt pc core m tmo (Suc k) s w = Some (s\<lparr>dealer_send_coordinator := coord\<rparr>, w', True)"
    "direct_send_attempts S nt pc waits core m hw tmo (Suc k) s w = Some (s\<lparr>dealer_send_coordinator := coord\<rparr>, w', Inr ())"
    "sole_peer avail sclosed core u p a (s\<lparr>dealer_send_coordinator := coord\<rparr>)"
    "delivered items a m w w'" "open_room items cap closed n a w'"
    "\<forall>c k. c \<noteq> a \<longrightarrow> open_room items cap closed k c w' = open_room items cap closed k c w"
proof -
  obtain ep where ep: "endpoint_of core u = Some ep" "map_option snd (pipe_ids ep) = Some p"
    "conn_channel (connection_iface ep) = Some a" and uris: "connection_uris (dealer_load_balancer s) = [u]"
    and free: "permit_free avail sclosed p (dealer_send_coordinator s)"
    using assms(4) by (auto simp: sole_peer_def)
  obtain c1 where c1: "acquire_send_permit S p tmo (dealer_send_coordinator s) = Some (c1, Inr ())"
    "permit_free avail sclosed p (release_send_permit S p c1)"
    by (rule permit_cycle [OF assms(1) free])
  have "peer_channel core u = Some a" using ep by (simp add: peer_channel_def get_endpoint_def)
  then obtain conn w' where w': "get_endpoint core u = Some conn" "conn_send_multipart pc conn m w = Some (w', Inr ())"
    "delivered items a m w w'" "open_room items cap closed n a w'"
    "\<forall>c k. c \<noteq> a \<longrightarrow> open_room items cap closed k c w' = open_room items cap closed k c w"
    using send_to_peer [OF assms(2) _ assms(5)] by metis
  have conn: "conn = connection_iface ep" using w'(1) ep(1) by (simp add: get_endpoint_def)
  have lb: "get_next_connection_uri (dealer_load_balancer s) = (dealer_load_balancer s, Some u)"
    using uris by (simp add: get_next_connection_uri_def)
  obtain q where q: "pipe_ids ep = Some (q, p)" using ep(2) by (cases "pipe_ids ep") auto
  show ?thesis
  proof (rule that [of "release_send_permit S p c1" w'])
    show "sole_peer avail sclosed core u p a (s\<lparr>dealer_send_coordinator := release_send_permit S p c1\<rparr>)"
      using ep uris c1(2) by (simp add: sole_peer_def)
  qed (use assms(3) lb ep(1) q c1(1) w' conn in \<open>simp_all add: Let_def dealer_release_def\<close>)
qed

text \<open>The permits that keep the processor going.\<close>

definition permits :: "('n \<Rightarrow> bool) \<Rightarrow> ('q, 's, 'n) DealerSocket \<Rightarrow> nat" where
  "permits permit s =
    of_bool (permit (outgoing_queue_activity_notifier s)) + of_bool (permit (peer_availability_notifier s))"

lemma single_permit_poll:
  assumes "single_permit nt permit"
  obtains n' where "poll_notified nt n = (n', permit n)" "\<not> permit n'"
  using that [of "fst (poll_notified nt n)"] assms by (simp add: single_permit_def prod_eq_iff)

lemma proc_wait_permits:
  assumes nt: "single_permit nt permit" and stop: "\<not> permit (processor_stop_signal s)"
  shows "permits permit s = 0 \<Longrightarrow> proc_wait nt b s = None"
    and "permits permit s = Suc k \<Longrightarrow> \<exists>s1. proc_wait nt b s = Some (s1, WokeActivity) \<and> permits permit s1 = k \<and>
      \<not> permit (processor_stop_signal s1) \<and> pending_outgoing_queue s1 = pending_outgoing_queue s \<and>
      dealer_load_balancer s1 = dealer_load_balancer s \<and> dealer_send_coordinator s1 = dealer_send_coordinator s \<and>
      current_send_transaction s1 = current_send_transaction s \<and> dealer_framing s1 = dealer_framing s"
proof -
  obtain n where polls1: "poll_notified nt (processor_stop_signal s) = (n, False)"
    using single_permit_poll [OF nt, of "processor_stop_signal s"] stop by auto
  obtain q where q: "poll_notified nt (outgoing_queue_activity_notifier s) = (q, permit (outgoing_queue_activity_notifier s))"
    "\<not> permit q"
    by (rule single_permit_poll [OF nt])
  obtain p where p: "poll_notified nt (peer_availability_notifier s) = (p, permit (peer_availability_notifier s))"
    "\<not> permit p"
    by (rule single_permit_poll [OF nt])
  note polls = polls1 q p
  show "permits permit s = 0 \<Longrightarrow> proc_wait nt b s = None"
    using polls by (simp add: proc_wait_def permits_def)
  show "permits permit s = Suc k \<Longrightarrow> \<exists>s1. proc_wait nt b s = Some (s1, WokeActivity) \<and> permits permit s1 = k \<and>
      \<not> permit (processor_stop_signal s1) \<and> pending_outgoing_queue s1 = pending_outgoing_queue s \<and>
      dealer_load_balancer s1 = dealer_load_balancer s \<and> dealer_send_coordinator s1 = dealer_send_coordinator s \<and>
      current_send_transaction s1 = current_send_transaction s \<and> dealer_framing s1 = dealer_framing s"
    using polls stop
    by (cases "permit (outgoing_queue_activity_notifier s)"; cases "permit (peer_availability_notifier s)"; cases b)
      (simp_all add: proc_wait_def permits_def)
qed

text \<open>One permit, one message.\<close>

lemma proc_sends:
  assumes "single_permit nt permit" "counting_semaphore S avail sclosed" "fifo_channel pc items cap closed" "is_running core"
    and "sole_peer avail sclosed core u p a s" "open_room items cap closed (Suc n) a w"
    and "pending_outgoing_queue s = m # ms" "\<not> permit (processor_stop_signal s)" "permits permit s = Suc k"
  obtains s' w' where "proc_iteration S nt pc b core s w = Some (s', w', True)"
    "sole_peer avail sclosed core u p a s'" "delivered items a m w w'" "open_room items cap closed n a w'"
    "pending_outgoing_queue s' = ms" "\<not> permit (processor_stop_signal s')" "permits permit s' = k"
    "current_send_transaction s' = current_send_transaction s" "dealer_framing s' = dealer_framing s"
proof -
  obtain s1 where s1: "proc_wait nt b s = Some (s1, WokeActivity)" "permits permit s1 = k"
    "\<not> permit (processor_stop_signal s1)" "pending_outgoing_queue s1 = pending_outgoing_queue s"
    "dealer_load_balancer s1 = dealer_load_balancer s" "dealer_send_coordinator s1 = dealer_send_coordinator s"
    "current_send_transaction s1 = current_send_transaction s" "dealer_framing s1 = dealer_framing s"
    using proc_wait_permits(2) [OF assms(1,8,9)] by blast
  let ?s = "s1\<lparr>pending_outgoing_queue := ms\<rparr>"
  have sole: "sole_peer avail sclosed core u p a ?s" using assms(5) s1 by (simp add: sole_peer_def)
  obtain coord w' where loop:
    "peer_send_loop S nt pc core m (sndtimeo (options (core_state core))) (Suc 0) ?s w =
      Some (?s\<lparr>dealer_send_coordinator := coord\<rparr>, w', True)"
    "sole_peer avail sclosed core u p a (?s\<lparr>dealer_send_coordinator := coord\<rparr>)"
    "delivered items a m w w'" "open_room items cap closed n a w'"
    using sole_peer_takes [OF assms(2-4) sole assms(6)] by metis
  have "connection_uris (dealer_load_balancer s1) = [u]" using sole by (simp add: sole_peer_def)
  then have it: "proc_iteration S nt pc b core s w = Some (?s\<lparr>dealer_send_coordinator := coord\<rparr>, w', True)"
    using assms(7) s1 loop(1)
    by (simp add: proc_iteration_def has_connections_def connection_count_def del: peer_send_loop.simps)
  show ?thesis using s1 by (intro that [OF it loop(2-4)]) (simp_all add: permits_def)
qed

lemma proc_stalls:
  "single_permit nt permit \<Longrightarrow> \<not> permit (processor_stop_signal s) \<Longrightarrow> permits permit s = 0 \<Longrightarrow>
    proc_iteration S nt pc b core s w = None"
  by (simp add: proc_iteration_def proc_wait_permits(1))

text \<open>
  C34. The queue of a DEALER socket stalls: of three or more messages queued while it had no peer, the peer
  that attaches gets two, one for each permit that attaching leaves; then the processor waits with the
  third at the head of the queue, and a message sent after that reaches the peer ahead of it.
\<close>

theorem dealer_queue_stalls:
  assumes "single_permit nt permit" "counting_semaphore S avail sclosed" "fifo_channel pc items cap closed"
    and "is_running core" "endpoint_of core u = Some ep" "pipe_ids ep = Some (q, p)"
    and "conn_channel (connection_iface ep) = Some a" "open_room items cap closed 3 a w"
    and "pending_outgoing_queue s = m1 # m2 # m3 # ms" "connection_uris (dealer_load_balancer s) = []"
    and "map_of (dealer_send_coordinator s) p = None" "\<not> permit (processor_stop_signal s)"
    and "current_send_transaction s = Idle"
  shows "\<exists>s1 w1 s2 w2 s3 w3.
    proc_iteration S nt pc b1 core (dealer_attach S nt p u s) w = Some (s1, w1, True) \<and>
    proc_iteration S nt pc b2 core s1 w1 = Some (s2, w2, True) \<and>
    items (w2 a) = items (w a) @ [m1, m2] \<and> pending_outgoing_queue s2 = m3 # ms \<and>
    (\<forall>b. proc_iteration S nt pc b core s2 w2 = None) \<and>
    dealer_send_multipart S nt pc [] [] core frames s2 w2 = Some (s3, w3, Inr ()) \<and>
    items (w3 a) = items (w a) @ [m1, m2, prepare_full_multipart_send_sequence (dealer_framing s) frames] \<and>
    pending_outgoing_queue s3 = m3 # ms \<and> (\<forall>b. proc_iteration S nt pc b core s3 w3 = None)"
proof -
  let ?s0 = "dealer_attach S nt p u s"
  have sole0: "sole_peer avail sclosed core u p a ?s0"
    using assms(5-7,10,11) sem_new_law [OF assms(2)]
    by (auto simp: sole_peer_def dealer_attach_def add_connection_def permit_free_def add_pipe_def)
  have two: "permits permit ?s0 = Suc (Suc 0)" "\<not> permit (processor_stop_signal ?s0)"
    "pending_outgoing_queue ?s0 = m1 # m2 # m3 # ms"
    using assms(1,9,12) by (auto simp: permits_def dealer_attach_def single_permit_def)
  have room: "open_room items cap closed (Suc (Suc (Suc 0))) a w" using assms(8) by (simp add: numeral_3_eq_3)
  obtain s1 w1 where 1: "proc_iteration S nt pc b1 core ?s0 w = Some (s1, w1, True)" "sole_peer avail sclosed core u p a s1"
    "delivered items a m1 w w1" "open_room items cap closed (Suc (Suc 0)) a w1" "pending_outgoing_queue s1 = m2 # m3 # ms"
    "\<not> permit (processor_stop_signal s1)" "permits permit s1 = Suc 0" "current_send_transaction s1 = Idle"
    "dealer_framing s1 = dealer_framing s"
    by (rule proc_sends [OF assms(1-4) sole0 room two(3,2,1)]) (use assms(13) in \<open>simp add: dealer_attach_def\<close>)
  obtain s2 w2 where 2: "proc_iteration S nt pc b2 core s1 w1 = Some (s2, w2, True)" "sole_peer avail sclosed core u p a s2"
    "delivered items a m2 w1 w2" "open_room items cap closed (Suc 0) a w2" "pending_outgoing_queue s2 = m3 # ms"
    "\<not> permit (processor_stop_signal s2)" "permits permit s2 = 0" "current_send_transaction s2 = Idle"
    "dealer_framing s2 = dealer_framing s"
    by (rule proc_sends [OF assms(1-4) 1(2,4-7)]) (use 1(8,9) in simp)
  let ?f = "prepare_full_multipart_send_sequence (dealer_framing s) frames"
  obtain coord w3 where 3: "direct_send_attempts S nt pc [] core ?f (max (sndhwm (options (core_state core))) 1)
      (sndtimeo (options (core_state core))) (Suc 0) s2 w2 = Some (s2\<lparr>dealer_send_coordinator := coord\<rparr>, w3, Inr ())"
    "delivered items a ?f w2 w3"
    using sole_peer_takes [OF assms(2-4) 2(2,4)] by metis
  have "connection_count (dealer_load_balancer s2) = 1" using 2(2) by (simp add: sole_peer_def connection_count_def)
  then have sent: "dealer_send_multipart S nt pc [] [] core frames s2 w2 =
      Some (s2\<lparr>dealer_send_coordinator := coord\<rparr>, w3, Inr ())"
    using 3(1) 2(8,9) assms(4) by (simp add: dealer_send_multipart_def send_logical_message_def del: direct_send_attempts.simps)
  have "proc_iteration S nt pc b core s2 w2 = None" for b by (rule proc_stalls [OF assms(1) 2(6,7)])
  moreover have "proc_iteration S nt pc b core (s2\<lparr>dealer_send_coordinator := coord\<rparr>) w3 = None" for b
    by (rule proc_stalls [OF assms(1)]) (use 2(6,7) in \<open>simp_all add: permits_def\<close>)
  moreover have "items (w2 a) = items (w a) @ [m1, m2]" "items (w3 a) = items (w a) @ [m1, m2, ?f]"
    using 1(3) 2(3) 3(2) by (simp_all add: delivered_def)
  moreover have "pending_outgoing_queue (s2\<lparr>dealer_send_coordinator := coord\<rparr>) = m3 # ms" using 2(5) by simp
  ultimately show ?thesis using 1(1) 2(1,5) sent by blast
qed

section \<open>An example socket\<close>

definition example_dealer :: "Msg list list \<Rightarrow> (Msg list list \<times> nat \<times> bool, nat \<times> bool, bool) DealerSocket" where
  "example_dealer ms = (dealer_new bool_notify list_channel (example_core []))\<lparr>pending_outgoing_queue := ms\<rparr>"

lemma example_dealer_simps [simp]:
  "pending_outgoing_queue (example_dealer ms) = ms" "connection_uris (dealer_load_balancer (example_dealer ms)) = []"
  "dealer_send_coordinator (example_dealer ms) = []" "\<not> processor_stop_signal (example_dealer ms)"
  "current_send_transaction (example_dealer ms) = Idle"
  "dealer_framing (example_dealer ms) = latch_new dealer_auto_encode dealer_auto_decode"
  by (simp_all add: example_dealer_def dealer_new_def lb_new_def bool_notify_def)

lemma example_attached:
  "sole_peer fst snd (example_core [(''a'', 2)]) ''a'' 2 2 (dealer_attach nat_semaphore bool_notify 2 ''a'' (example_dealer ms))"
  "permits (\<lambda>n. n) (dealer_attach nat_semaphore bool_notify 2 ''a'' (example_dealer ms)) = Suc 1"
  "\<not> processor_stop_signal (dealer_attach nat_semaphore bool_notify 2 ''a'' (example_dealer ms))"
  "pending_outgoing_queue (dealer_attach nat_semaphore bool_notify 2 ''a'' (example_dealer ms)) = ms"
  by (simp_all add: sole_peer_def permits_def dealer_attach_def add_connection_def add_pipe_def permit_free_def
    nat_semaphore_def bool_notify_def example_core_defs)

theorem dealer_queue_stalls_witness:
  "\<exists>s1 w1 s2 w2 s3 w3.
    proc_iteration nat_semaphore bool_notify list_channel True (example_core [(''a'', 2)])
      (dealer_attach nat_semaphore bool_notify 2 ''a'' (example_dealer [[msg_from_vec [1]], [msg_from_vec [2]], [msg_from_vec [3]]]))
      (\<lambda>_. ([], 9, False)) = Some (s1, w1, True) \<and>
    proc_iteration nat_semaphore bool_notify list_channel True (example_core [(''a'', 2)]) s1 w1 = Some (s2, w2, True) \<and>
    fst (w2 2) = fst ([], 9::nat, False) @ [[msg_from_vec [1]], [msg_from_vec [2]]] \<and>
    pending_outgoing_queue s2 = [msg_from_vec [3]] # [] \<and>
    (\<forall>b. proc_iteration nat_semaphore bool_notify list_channel b (example_core [(''a'', 2)]) s2 w2 = None) \<and>
    dealer_send_multipart nat_semaphore bool_notify list_channel [] [] (example_core [(''a'', 2)]) [msg_from_vec [4]] s2 w2 =
      Some (s3, w3, Inr ()) \<and>
    fst (w3 2) = fst ([], 9::nat, False) @ [[msg_from_vec [1]], [msg_from_vec [2]],
      prepare_full_multipart_send_sequence (dealer_framing (example_dealer [[msg_from_vec [1]], [msg_from_vec [2]], [msg_from_vec [3]]]))
        [msg_from_vec [4]]] \<and>
    pending_outgoing_queue s3 = [msg_from_vec [3]] # [] \<and>
    (\<forall>b. proc_iteration nat_semaphore bool_notify list_channel b (example_core [(''a'', 2)]) s3 w3 = None)"
  by (rule dealer_queue_stalls [OF bool_notify_permit nat_semaphore_counting list_channel_fifo,
        where ep = "example_endpoint ''a'' 2" and q = 2])
    (simp_all add: open_room_def example_core_defs)

theorem dealer_queue_conserved_witness:
  "\<exists>s' w'. proc_iteration nat_semaphore bool_notify list_channel True (example_core [(''a'', 2)])
      (dealer_attach nat_semaphore bool_notify 2 ''a'' (example_dealer [[msg_new]])) (\<lambda>_. ([], 1, False)) = Some (s', w', True) \<and>
    (pending_outgoing_queue s' = [[msg_new]] \<and> undelivered fst (\<lambda>_. ([], 1, False)) w' \<or>
     (\<exists>m a. [[msg_new]] = m # pending_outgoing_queue s' \<and> delivered fst a m (\<lambda>_. ([], 1, False)) w'))"
proof -
  have run: "is_running (example_core [(''a'', 2)])" by (simp add: example_core_defs)
  obtain s' w' where it: "proc_iteration nat_semaphore bool_notify list_channel True (example_core [(''a'', 2)])
      (dealer_attach nat_semaphore bool_notify 2 ''a'' (example_dealer [[msg_new]])) (\<lambda>_. ([], 1, False)) = Some (s', w', True)"
    by (rule proc_sends [OF bool_notify_permit nat_semaphore_counting list_channel_fifo run example_attached(1) _
        example_attached(4,3,2), of 0 "\<lambda>_. ([], 1, False)" True]) (simp_all add: open_room_def)
  from dealer_queue_conserved [OF list_channel_fifo run it] it show ?thesis by (simp add: example_attached(4))
qed

theorem dealer_requeues_twice_witness:
  "\<exists>s'. proc_iteration nat_semaphore bool_notify list_channel True ((example_core [])
        \<lparr>shutdown_coordinator := coordinator_default\<lparr>shutdown_state := StoppingChildren\<rparr>\<rparr>)
      (dealer_attach nat_semaphore bool_notify 2 ''a'' (example_dealer [[msg_new]])) (\<lambda>_. ([], 1, False)) =
        Some (s', \<lambda>_. ([], 1, False), True) \<and>
    pending_outgoing_queue s' = [[msg_new], [msg_new]]"
proof -
  obtain s1 where "proc_wait bool_notify True (dealer_attach nat_semaphore bool_notify 2 ''a'' (example_dealer [[msg_new]])) =
      Some (s1, WokeActivity)"
    using proc_wait_permits(2) [OF bool_notify_permit example_attached(3,2)] by blast
  then show ?thesis
    by (intro dealer_requeues_twice [OF _ _ example_attached(4)])
      (simp_all add: is_running_def dealer_attach_def add_connection_def)
qed

end
