(* ===== verification/Router.thy ===== *)
theory Router
  imports Dealer
begin

text \<open>
  The ROUTER socket, \<^verbatim>\<open>core/src/socket/router_socket.rs\<close>, and the exchange of messages between a ROUTER and
  a DEALER.  The permit that a fragmented send holds is the number of the pipe it was acquired for;
  clearing the target drops the permit.
\<close>

section \<open>State\<close>

record ActiveFragmentedSend =
  frag_target_endpoint_uri :: uri
  frag_permit :: nat

record ('q, 's) RouterSocket =
  router_map_for_send :: RouterMap
  router_orchestrator :: "'q IncomingMessageOrchestrator"
  pipe_to_identity_shared_map :: "(nat \<times> Blob) list"
  current_send_target :: "ActiveFragmentedSend option"
  router_send_coordinator :: "'s WritePipeCoordinator"
  router_framing :: FramingLatch

definition router_new :: "('q, Blob \<times> Msg list) chan_ops \<Rightarrow> SocketCore \<Rightarrow> ('q, 's) RouterSocket" where
  "router_new ch core =
    \<lparr>router_map_for_send = router_map_new,
     router_orchestrator = orchestrator_new ch (core_handle (core_state core)) (rcvhwm (options (core_state core))),
     pipe_to_identity_shared_map = [], current_send_target = None, router_send_coordinator = [],
     router_framing = latch_new router_auto_encode router_auto_decode\<rparr>"

text \<open>The decimal digits of \<^verbatim>\<open>format!("{}", n)\<close>.\<close>

fun decimal :: "nat \<Rightarrow> bytes" where
  "decimal n = (if n < 10 then [word_of_nat (48 + n)] else decimal (n div 10) @ [word_of_nat (48 + n mod 10)])"

declare decimal.simps [simp del]

definition pipe_id_to_placeholder_identity :: "nat \<Rightarrow> Blob" where
  "pipe_id_to_placeholder_identity pipe_read_id = [112, 105, 112, 101, 58] @ decimal pipe_read_id"


section \<open>Receiving\<close>

definition process_incoming_zmtp_message ::
  "SocketCore \<Rightarrow> nat \<Rightarrow> Msg list \<Rightarrow> ('q, 's) RouterSocket \<Rightarrow> (Blob \<times> Msg list) res" where
  "process_incoming_zmtp_message core pipe_read_id raw s =
    (let identity_blob =
           (case map_of (pipe_to_identity_shared_map s) pipe_read_id of
              Some i \<Rightarrow> i | None \<Rightarrow> pipe_id_to_placeholder_identity pipe_read_id);
         peer_type = Option.bind (Option.bind (uri_of_pipe core pipe_read_id) (endpoint_of core)) peer_socket_type;
         stripped = (case raw of f # rest \<Rightarrow> if msg_size f = 0 then rest else raw | [] \<Rightarrow> raw)
     in if is_manual (router_framing s) then Inr (identity_blob, raw)
        else if peer_type = Some ''REQ'' \<or> peer_type = Some ''DEALER'' then Inr (identity_blob, stripped)
        else if peer_type = Some ''ROUTER'' then Inr (identity_blob, raw)
        else Inr (identity_blob, stripped))"

fun clear_last_more :: "Msg list \<Rightarrow> Msg list" where
  "clear_last_more [] = []"
| "clear_last_more [f] = [with_more False f]"
| "clear_last_more (f # g # fs) = f # clear_last_more (g # fs)"

definition transform_qitem_to_app_frames :: "Blob \<times> Msg list \<Rightarrow> Msg list" where
  "transform_qitem_to_app_frames = (\<lambda>(identity_blob, payload).
    clear_last_more (with_more (payload \<noteq> []) (msg_from_bytes identity_blob) # payload))"

definition router_recv ::
  "('q, Blob \<times> Msg list) chan_ops \<Rightarrow> SocketCore \<Rightarrow> ('q, 's) RouterSocket \<Rightarrow> (('q, 's) RouterSocket \<times> Msg res) option" where
  "router_recv ch core s =
    (if \<not> is_running core then Some (s, Inl InvalidState)
     else map_option (\<lambda>(orch, r). (s\<lparr>router_orchestrator := orch\<rparr>, r))
            (recv_message ch transform_qitem_to_app_frames (rcvtimeo (options (core_state core))) (router_orchestrator s)))"

definition router_recv_multipart ::
  "('q, Blob \<times> Msg list) chan_ops \<Rightarrow> SocketCore \<Rightarrow> ('q, 's) RouterSocket \<Rightarrow>
    (('q, 's) RouterSocket \<times> Msg list res) option" where
  "router_recv_multipart ch core s =
    (if \<not> is_running core then Some (s, Inl InvalidState)
     else map_option (\<lambda>(orch, r). (s\<lparr>router_orchestrator := orch\<rparr>, r))
            (recv_logical_message ch transform_qitem_to_app_frames (rcvtimeo (options (core_state core)))
              (router_orchestrator s)))"

fun router_handle_pipe_event ::
  "('q, Blob \<times> Msg list) chan_ops \<Rightarrow> SocketCore \<Rightarrow> nat \<Rightarrow> pipe_event \<Rightarrow> ('q, 's) RouterSocket \<Rightarrow>
    (('q, 's) RouterSocket \<times> unit res) option" where
  "router_handle_pipe_event ch core pipe_read_id (PipeMessageReceived msg) s =
    map_option (\<lambda>(orch, r). (s\<lparr>router_orchestrator := orch\<rparr>, r))
      (receive_frame ch
        (\<lambda>m. case process_incoming_zmtp_message core pipe_read_id m s of Inr item \<Rightarrow> Inr (Some item) | Inl _ \<Rightarrow> Inr None)
        pipe_read_id msg (router_orchestrator s))"
| "router_handle_pipe_event ch core pipe_read_id PipeClosedByPeer s = Some (s, Inr ())"


section \<open>Sending\<close>

text \<open>What a failed send returns: an error only under \<^verbatim>\<open>ROUTER_MANDATORY\<close>.\<close>

definition send_failed :: "bool \<Rightarrow> ZmqError \<Rightarrow> unit res" where
  "send_failed mandatory e = (if mandatory then Inl (if e = ConnectionClosed then HostUnreachable else e) else Inr ())"

definition clear_target :: "'s sem_ops \<Rightarrow> ('q, 's) RouterSocket \<Rightarrow> ('q, 's) RouterSocket" where
  "clear_target S s =
    (case current_send_target s of
       None \<Rightarrow> s
     | Some t \<Rightarrow>
         s\<lparr>current_send_target := None,
           router_send_coordinator := release_send_permit S (frag_permit t) (router_send_coordinator s)\<rparr>)"

definition router_release :: "'s sem_ops \<Rightarrow> nat \<Rightarrow> ('q, 's) RouterSocket \<Rightarrow> ('q, 's) RouterSocket" where
  "router_release S p s = s\<lparr>router_send_coordinator := release_send_permit S p (router_send_coordinator s)\<rparr>"

text \<open>A frame after the identity frame.\<close>

definition router_send_payload ::
  "'s sem_ops \<Rightarrow> ('c, Msg list) chan_ops \<Rightarrow> SocketCore \<Rightarrow> Msg \<Rightarrow> uri \<Rightarrow> ('q, 's) RouterSocket \<Rightarrow> 'c chans \<Rightarrow>
    (('q, 's) RouterSocket \<times> 'c chans \<times> unit res) option" where
  "router_send_payload S pc core msg target s w =
    (let mandatory = router_mandatory (options (core_state core))
     in case get_endpoint core target of
          None \<Rightarrow> Some (clear_target S s, w, if mandatory then Inl HostUnreachable else Inr ())
        | Some conn \<Rightarrow>
            (case conn_send_message pc conn msg w of
               None \<Rightarrow> None
             | Some (w, r) \<Rightarrow>
                 (let s = (if \<not> is_more msg then clear_target S s else s)
                  in case r of
                       Inr _ \<Rightarrow> Some (s, w, Inr ())
                     | Inl e \<Rightarrow> Some (if is_more msg then clear_target S s else s, w, send_failed mandatory e))))"

text \<open>The identity frame: it goes to the wire, and under automatic framing a delimiter after it.\<close>

definition router_send_identity ::
  "'s sem_ops \<Rightarrow> ('c, Msg list) chan_ops \<Rightarrow> SocketCore \<Rightarrow> Msg \<Rightarrow> ('q, 's) RouterSocket \<Rightarrow> 'c chans \<Rightarrow>
    (('q, 's) RouterSocket \<times> 'c chans \<times> unit res) option" where
  "router_send_identity S pc core msg s w =
    (let mandatory = router_mandatory (options (core_state core)); dest = msg_payload msg
     in if \<not> is_more msg then Some (s, w, Inl InvalidMessage)
        else if dest = [] then Some (s, w, Inl InvalidMessage)
        else
          (case get_peer_info_for_identity dest (router_map_for_send s) of
             None \<Rightarrow> Some (s, w, if mandatory then Inl HostUnreachable else Inr ())
           | Some info \<Rightarrow>
               (case Option.bind (endpoint_of core (peer_uri info)) (\<lambda>ep. map_option (\<lambda>ids. (ep, snd ids)) (pipe_ids ep)) of
                  None \<Rightarrow>
                    Some (s\<lparr>router_map_for_send := remove_peer_by_identity dest (router_map_for_send s)\<rparr>, w,
                      if mandatory then Inl HostUnreachable else Inr ())
                | Some (ep, pipe_read_id) \<Rightarrow>
                    (case acquire_send_permit S pipe_read_id (sndtimeo (options (core_state core))) (router_send_coordinator s) of
                       None \<Rightarrow> None
                     | Some (coord, Inl e) \<Rightarrow> Some (s\<lparr>router_send_coordinator := coord\<rparr>, w, Inl e)
                     | Some (coord, Inr _) \<Rightarrow>
                         (let s = s\<lparr>router_send_coordinator := coord\<rparr>
                          in case conn_send_message pc (connection_iface ep) msg w of
                               None \<Rightarrow> None
                             | Some (w, Inl e) \<Rightarrow> Some (router_release S pipe_read_id s, w, send_failed mandatory e)
                             | Some (w, Inr _) \<Rightarrow>
                                 (case (if \<not> is_manual (router_framing s)
                                        then conn_send_message pc (connection_iface ep) (with_more True msg_new) w
                                        else Some (w, Inr ())) of
                                    None \<Rightarrow> None
                                  | Some (w, Inl e) \<Rightarrow> Some (router_release S pipe_read_id s, w, send_failed mandatory e)
                                  | Some (w, Inr _) \<Rightarrow>
                                      Some (s\<lparr>current_send_target :=
                                          Some \<lparr>frag_target_endpoint_uri = peer_uri info, frag_permit = pipe_read_id\<rparr>\<rparr>,
                                        w, Inr ())))))))"

definition router_send ::
  "'s sem_ops \<Rightarrow> ('c, Msg list) chan_ops \<Rightarrow> SocketCore \<Rightarrow> Msg \<Rightarrow> ('q, 's) RouterSocket \<Rightarrow> 'c chans \<Rightarrow>
    (('q, 's) RouterSocket \<times> 'c chans \<times> unit res) option" where
  "router_send S pc core msg s w =
    (if \<not> is_running core then Some (s, w, Inl InvalidState)
     else
       (case current_send_target s of
          Some t \<Rightarrow> router_send_payload S pc core msg (frag_target_endpoint_uri t) s w
        | None \<Rightarrow> router_send_identity S pc core msg s w))"

definition router_send_multipart ::
  "'s sem_ops \<Rightarrow> ('c, Msg list) chan_ops \<Rightarrow> SocketCore \<Rightarrow> Msg list \<Rightarrow> ('q, 's) RouterSocket \<Rightarrow> 'c chans \<Rightarrow>
    (('q, 's) RouterSocket \<times> 'c chans \<times> unit res) option" where
  "router_send_multipart S pc core frames s w =
    (if \<not> is_running core then Some (s, w, Inl InvalidState)
     else
       (case frames of
          [] \<Rightarrow> Some (s, w, Inl InvalidMessage)
        | destination_identity_msg # payload \<Rightarrow>
            (let dest = msg_payload destination_identity_msg;
                 mandatory = router_mandatory (options (core_state core))
             in if dest = [] then Some (s, w, Inl InvalidMessage)
                else
                  (case get_peer_info_for_identity dest (router_map_for_send s) of
                     None \<Rightarrow> Some (s, w, if mandatory then Inl HostUnreachable else Inr ())
                   | Some info \<Rightarrow>
                       (case Option.bind (endpoint_of core (peer_uri info))
                               (\<lambda>ep. map_option (\<lambda>ids. (ep, snd ids)) (pipe_ids ep)) of
                          None \<Rightarrow>
                            Some (s\<lparr>router_map_for_send := remove_peer_by_identity dest (router_map_for_send s)\<rparr>, w,
                              if mandatory then Inl HostUnreachable else Inr ())
                        | Some (ep, pipe_read_id) \<Rightarrow>
                            (case acquire_send_permit S pipe_read_id (sndtimeo (options (core_state core)))
                                    (router_send_coordinator s) of
                               None \<Rightarrow> None
                             | Some (coord, Inl e) \<Rightarrow>
                                 Some (s\<lparr>router_send_coordinator := coord\<rparr>, w, Inl (if mandatory then e else Internal))
                             | Some (coord, Inr _) \<Rightarrow>
                                 (let s = s\<lparr>router_send_coordinator := coord\<rparr>;
                                      wire = clear_last_more
                                        (prepare_wire_frames (strategy info) destination_identity_msg payload (router_framing s))
                                  in case conn_send_multipart pc (connection_iface ep) wire w of
                                       None \<Rightarrow> None
                                     | Some (w, Inr _) \<Rightarrow> Some (router_release S pipe_read_id s, w, Inr ())
                                     | Some (w, Inl e) \<Rightarrow>
                                         Some (router_release S pipe_read_id s, w, send_failed mandatory e))))))))"


section \<open>Options and connections\<close>

definition router_set_pattern_option ::
  "int \<Rightarrow> bytes \<Rightarrow> SocketCore \<Rightarrow> ('q, 's) RouterSocket \<Rightarrow> SocketCore \<times> ('q, 's) RouterSocket \<times> unit res" where
  "router_set_pattern_option option_id v core s =
    (if option_id = ROUTER_MANDATORY then
       (case parse_bool_option v of
          Inl e \<Rightarrow> (core, s, Inl e)
        | Inr b \<Rightarrow>
            (core\<lparr>core_state := (core_state core)\<lparr>options := (options (core_state core))\<lparr>router_mandatory := b\<rparr>\<rparr>\<rparr>, s, Inr ()))
     else if option_id = AUTO_DELIMITER then
       (case parse_bool_option v of
          Inl e \<Rightarrow> (core, s, Inl e)
        | Inr b \<Rightarrow> (core, if \<not> b then s\<lparr>router_framing := fst (set_manual (router_framing s))\<rparr> else s, Inr ()))
     else (core, s, Inl (UnsupportedOption option_id)))"

definition router_get_pattern_option :: "int \<Rightarrow> SocketCore \<Rightarrow> ('q, 's) RouterSocket \<Rightarrow> bytes res" where
  "router_get_pattern_option option_id core s =
    (if option_id = ROUTER_MANDATORY then
       Inr (i32_bytes (if router_mandatory (options (core_state core)) then 1 else 0))
     else if option_id = AUTO_DELIMITER then Inr (i32_bytes (if is_manual (router_framing s) then 0 else 1))
     else Inl (UnsupportedOption option_id))"

definition router_process_command ::
  "('q, Blob \<times> Msg list) chan_ops \<Rightarrow> pattern_command \<Rightarrow> ('q, 's) RouterSocket \<Rightarrow> ('q, 's) RouterSocket \<times> bool res" where
  "router_process_command ch c s =
    (case c of
       Stop \<Rightarrow> (s\<lparr>router_orchestrator := orchestrator_close ch (router_orchestrator s)\<rparr>, Inr True)
     | _ \<Rightarrow> (s, Inr False))"

definition router_pipe_attached ::
  "'s sem_ops \<Rightarrow> SocketCore \<Rightarrow> nat \<Rightarrow> bytes option \<Rightarrow> ('q, 's) RouterSocket \<Rightarrow> ('q, 's) RouterSocket" where
  "router_pipe_attached S core pipe_read_id peer_identity_opt s =
    (case uri_of_pipe core pipe_read_id of
       Some u \<Rightarrow>
         (case endpoint_of core u of
            Some _ \<Rightarrow>
              (let identity = (case peer_identity_opt of
                     Some i \<Rightarrow> if i \<noteq> [] then i else pipe_id_to_placeholder_identity pipe_read_id
                   | None \<Rightarrow> pipe_id_to_placeholder_identity pipe_read_id)
               in s\<lparr>router_map_for_send := add_peer identity pipe_read_id u (router_map_for_send s),
                    pipe_to_identity_shared_map := alist_put pipe_read_id identity (pipe_to_identity_shared_map s),
                    router_send_coordinator := add_pipe S pipe_read_id (router_send_coordinator s)\<rparr>)
          | None \<Rightarrow> s)
     | None \<Rightarrow> s)"

definition router_update_peer_identity ::
  "SocketCore \<Rightarrow> nat \<Rightarrow> Blob option \<Rightarrow> ('q, 's) RouterSocket \<Rightarrow> ('q, 's) RouterSocket" where
  "router_update_peer_identity core pipe_read_id new_identity_opt s =
    (case uri_of_pipe core pipe_read_id of
       Some u \<Rightarrow>
         (let peer_type = Option.bind (endpoint_of core u) peer_socket_type;
              new_identity = (case new_identity_opt of
                  Some i \<Rightarrow> if i \<noteq> [] then i else pipe_id_to_placeholder_identity pipe_read_id
                | None \<Rightarrow> pipe_id_to_placeholder_identity pipe_read_id)
          in s\<lparr>router_map_for_send := update_peer_identity pipe_read_id new_identity u peer_type (router_map_for_send s),
               pipe_to_identity_shared_map := alist_put pipe_read_id new_identity (pipe_to_identity_shared_map s)\<rparr>)
     | None \<Rightarrow> s)"

definition router_pipe_detached ::
  "'s sem_ops \<Rightarrow> SocketCore \<Rightarrow> nat \<Rightarrow> ('q, 's) RouterSocket \<Rightarrow> ('q, 's) RouterSocket" where
  "router_pipe_detached S core pipe_read_id s =
    (let u = uri_of_pipe core pipe_read_id;
         connection_id = Option.bind u (endpoint_of core);
         s = s\<lparr>router_map_for_send := remove_peer_by_read_pipe pipe_read_id (router_map_for_send s),
               pipe_to_identity_shared_map := alist_del pipe_read_id (pipe_to_identity_shared_map s),
               router_send_coordinator := fst (remove_pipe S pipe_read_id (router_send_coordinator s))\<rparr>;
         s = (if connection_id \<noteq> None then
                (case current_send_target s of
                   Some t \<Rightarrow> if u = Some (frag_target_endpoint_uri t) then clear_target S s else s
                 | None \<Rightarrow> s)
              else s)
     in s\<lparr>router_orchestrator := clear_pipe_state pipe_read_id (router_orchestrator s)\<rparr>)"


section \<open>The contract\<close>

definition router_item :: "SocketCore \<Rightarrow> ('q, 's) RouterSocket \<Rightarrow> nat \<Rightarrow> Msg list \<Rightarrow> (Blob \<times> Msg list) option" where
  "router_item core s p m =
    (case process_incoming_zmtp_message core p m s of Inr item \<Rightarrow> Some item | Inl _ \<Rightarrow> None)"

interpretation router_in: inbound_socket ch router_orchestrator "\<lambda>orch s. s\<lparr>router_orchestrator := orch\<rparr>"
  "router_handle_pipe_event ch core" "router_item core" "router_recv_multipart ch" transform_qitem_to_app_frames
  for ch core
  by unfold_locales
    (auto simp: router_recv_multipart_def router_item_def process_incoming_zmtp_message_def Let_def fun_eq_iff
      sum.case_distrib cong: sum.case_cong)

lemma clear_last_well_framed [simp]: "well_framed fs \<Longrightarrow> clear_last_more fs = fs"
  by (induction fs rule: clear_last_more.induct) (auto simp: well_framed_Cons)


section \<open>ROUTER and DEALER\<close>

text \<open>A ROUTER that a DEALER has connected to, after the peer's identity arrived.\<close>

definition identified ::
  "'s sem_ops \<Rightarrow> ('q, Blob \<times> Msg list) chan_ops \<Rightarrow> SocketCore \<Rightarrow> nat \<Rightarrow> Blob \<Rightarrow> ('q, 's) RouterSocket" where
  "identified S ch core p i =
    router_update_peer_identity core p (Some i) (router_pipe_attached S core p None (router_new ch core))"

lemma identified_peer:
  assumes "counting_semaphore S avail sclosed" "fifo_channel ch items cap closed" "i \<noteq> []"
    and "uri_of_pipe core p = Some v" "endpoint_of core v = Some ep" "peer_socket_type ep = Some ''DEALER''"
  shows "get_peer_info_for_identity i (router_map_for_send (identified S ch core p i)) =
      Some \<lparr>peer_uri = v, strategy = DealerPeerStrategy\<rparr>"
    and "permit_free avail sclosed p (router_send_coordinator (identified S ch core p i))"
    and "idle_queue items cap closed p (router_orchestrator (identified S ch core p i))"
    and "router_framing (identified S ch core p i) = latch_new router_auto_encode router_auto_decode"
    and "router_item core (identified S ch core p i) p m =
      Some (i, case m of f # rest \<Rightarrow> if msg_size f = 0 then rest else m | [] \<Rightarrow> m)"
  using assms sem_new_law [OF assms(1)]
  by (simp_all add: identified_def router_update_peer_identity_def router_pipe_attached_def router_new_def Let_def
    update_peer_identity_def get_peer_info_for_identity_def strategy_for_def permit_free_def add_pipe_def idle_new
    router_item_def process_incoming_zmtp_message_def latch_new_def is_manual_def)

lemma dealer_wire:
  "prepare_full_multipart_send_sequence (latch_new dealer_auto_encode dealer_auto_decode) fs =
    with_more True msg_new # mark_more (if fs = [] then [msg_new] else fs)"
  by (cases fs) (simp_all add: prepare_full_multipart_send_sequence_def latch_new_def is_manual_def latch_encode_def
    dealer_auto_encode_def mark_more_Cons)

lemma router_sends:
  assumes "counting_semaphore S avail sclosed" "fifo_channel pc items cap closed" "is_running core"
    and "msg_payload dest \<noteq> []" "get_peer_info_for_identity (msg_payload dest) (router_map_for_send s) = Some info"
    and "endpoint_of core (peer_uri info) = Some ep" "pipe_ids ep = Some (q, p)"
    and "conn_channel (connection_iface ep) = Some b" "permit_free avail sclosed p (router_send_coordinator s)"
    and "open_room items cap closed (Suc n) b w"
  obtains s' w' where "router_send_multipart S pc core (dest # ps) s w = Some (s', w', Inr ())"
    "delivered items b (clear_last_more (prepare_wire_frames (strategy info) dest ps (router_framing s))) w w'"
proof -
  let ?wire = "clear_last_more (prepare_wire_frames (strategy info) dest ps (router_framing s))"
  obtain coord where coord: "acquire_send_permit S p (sndtimeo (options (core_state core))) (router_send_coordinator s) =
      Some (coord, Inr ())"
    by (rule permit_cycle [OF assms(1,9)])
  have "peer_channel core (peer_uri info) = Some b" using assms(6,8) by (simp add: peer_channel_def get_endpoint_def)
  from send_to_peer [OF assms(2) this assms(10), of ?wire]
  obtain conn w' where w': "get_endpoint core (peer_uri info) = Some conn" "conn_send_multipart pc conn ?wire w = Some (w', Inr ())"
    "delivered items b ?wire w w'" by metis
  have "conn = connection_iface ep" using w'(1) assms(6) by (simp add: get_endpoint_def)
  then have "router_send_multipart S pc core (dest # ps) s w =
      Some (router_release S p (s\<lparr>router_send_coordinator := coord\<rparr>), w', Inr ())"
    using assms(3-7) coord w'(2) by (simp add: router_send_multipart_def Let_def)
  then show ?thesis using w'(3) by (rule that)
qed

lemma router_wire:
  "ps \<noteq> [] \<Longrightarrow> prepare_wire_frames DealerPeerStrategy dest ps (latch_new router_auto_encode router_auto_decode) =
    with_more True dest # with_more True msg_new # ps"
  by (simp add: latch_new_def is_manual_def latch_encode_def router_auto_encode_def)

lemma dealer_strips:
  "i \<noteq> [] \<Longrightarrow> dealer_payload (latch_new dealer_auto_encode dealer_auto_decode)
    (with_more b (msg_from_vec i) # with_more c msg_new # ps) = Some ps"
  by (simp add: dealer_payload_def process_incoming_zmtp_message_for_dealer_def latch_new_def is_manual_def msg_size_payload)

lemma dealer_payload_total: "\<exists>ps. dealer_payload l m = Some ps"
  by (auto simp: dealer_payload_def process_incoming_zmtp_message_for_dealer_def split: list.split)

text \<open>
  C4. A DEALER and a ROUTER understand each other: what the DEALER sends arrives at the ROUTER's application
  behind the DEALER's identity, and what the ROUTER's application sends to that identity, its payload
  flagged as one message, arrives at the DEALER's application without identity and delimiter.
\<close>

theorem dealer_router_exchange:
  assumes "fifo_channel dch ditems dcap dclosed" "fifo_channel rch ritems rcap rclosed"
    and "fifo_channel pc items cap closed" "counting_semaphore S avail sclosed" "is_running dcore" "is_running rcore"
    and "endpoint_of dcore u = Some dep" "pipe_ids dep = Some (dw, dp)" "conn_channel (connection_iface dep) = Some a"
    and "uri_of_pipe rcore rp = Some v" "endpoint_of rcore v = Some rep" "pipe_ids rep = Some (rw, rp)"
    and "peer_socket_type rep = Some ''DEALER''" "conn_channel (connection_iface rep) = Some b"
    and "open_room items cap closed 1 a w" "open_room items cap closed 1 b w" "a \<noteq> b"
    and "i \<noteq> []" "well_framed ps" "ps \<noteq> []"
  shows "\<exists>d1 w1 wire1 r1 r2 r3 w2 wire2 d2 d3.
    dealer_send_multipart S nt pc [] [] dcore fs (dealer_attach S nt dp u (dealer_new nt dch dcore)) w =
      Some (d1, w1, Inr ()) \<and> delivered items a wire1 w w1 \<and>
    feed (router_handle_pipe_event rch rcore) (map (Pair rp) wire1) (identified S rch rcore rp i) = Some r1 \<and>
    router_recv_multipart rch rcore r1 =
      Some (r2, Inr (with_more True (msg_from_vec i) # mark_more (if fs = [] then [msg_new] else fs))) \<and>
    router_send_multipart S pc rcore (msg_from_vec i # ps) r2 w1 = Some (r3, w2, Inr ()) \<and> delivered items b wire2 w1 w2 \<and>
    feed (dealer_handle_pipe_event dch) (map (Pair dp) wire2) d1 = Some d2 \<and>
    dealer_recv_multipart dch dcore d2 = Some (d3, Inr ps)"
proof -
  let ?d = "dealer_attach S nt dp u (dealer_new nt dch dcore)" and ?r = "identified S rch rcore rp i"
  let ?p = "mark_more (if fs = [] then [msg_new] else fs)"
  let ?wire1 = "with_more True msg_new # ?p" and ?l = "latch_new dealer_auto_encode dealer_auto_decode"
  note router = identified_peer [OF assms(4,2,18,10,11,13)]
  have d: "sole_peer avail sclosed dcore u dp a ?d" "current_send_transaction ?d = Idle" "dealer_framing ?d = ?l"
    "idle_queue ditems dcap dclosed dp (dealer_orchestrator ?d)"
    using assms(1,7-9) sem_new_law [OF assms(4)]
    by (auto simp: sole_peer_def dealer_attach_def dealer_new_def lb_new_def add_connection_def permit_free_def add_pipe_def idle_new)
  have room: "open_room items cap closed (Suc 0) a w" "open_room items cap closed (Suc 0) b w" using assms(15,16) by simp_all
  obtain coord w1 where s1: "direct_send_attempts S nt pc [] dcore ?wire1 (max (sndhwm (options (core_state dcore))) 1)
      (sndtimeo (options (core_state dcore))) (Suc 0) ?d w = Some (?d\<lparr>dealer_send_coordinator := coord\<rparr>, w1, Inr ())"
    "delivered items a ?wire1 w w1" "open_room items cap closed (Suc 0) b w1"
    using sole_peer_takes [OF assms(4,3,5) d(1) room(1)] room(2) assms(17) by metis
  let ?d1 = "?d\<lparr>dealer_send_coordinator := coord\<rparr>"
  have "connection_count (dealer_load_balancer ?d) = 1" using d(1) by (simp add: sole_peer_def connection_count_def)
  then have sent1: "dealer_send_multipart S nt pc [] [] dcore fs ?d w = Some (?d1, w1, Inr ())"
    using s1(1) d(2,3) assms(5)
    by (simp add: dealer_send_multipart_def send_logical_message_def dealer_wire del: direct_send_attempts.simps)
  have wf1: "well_framed ?wire1" by (simp add: well_framed_Cons)
  obtain r1 orch where r: "feed (router_handle_pipe_event rch rcore) (map (Pair rp) ?wire1) ?r = Some r1"
    "router_recv_multipart rch rcore r1 = Some (?r\<lparr>router_orchestrator := orch\<rparr>,
      Inr (with_more True (msg_from_vec i) # ?p))"
    by (rule router_in.delivers_one [OF assms(2,6) router(3) wf1 _ router(5)])
      (simp_all add: transform_qitem_to_app_frames_def msg_size_payload well_framed_Cons)
  let ?r2 = "?r\<lparr>router_orchestrator := orch\<rparr>"
  let ?wire2 = "with_more True (msg_from_vec i) # with_more True msg_new # ps"
  have wire2: "clear_last_more (prepare_wire_frames DealerPeerStrategy (msg_from_vec i) ps (router_framing ?r2)) = ?wire2"
    "well_framed ?wire2"
    using router(4) assms(19,20) by (simp_all add: router_wire well_framed_Cons del: prepare_wire_frames.simps)
  obtain r3 w2 where sent2: "router_send_multipart S pc rcore (msg_from_vec i # ps) ?r2 w1 = Some (r3, w2, Inr ())"
    "delivered items b ?wire2 w1 w2"
    by (rule router_sends [OF assms(4,3,6), of "msg_from_vec i" ?r2 "\<lparr>peer_uri = v, strategy = DealerPeerStrategy\<rparr>" rep rw rp b 0 w1 ps])
      (use router(1,2) wire2(1) assms(11,12,14,18) s1(3) in simp_all)
  have payload: "dealer_payload (dealer_framing ?d1) ?wire2 = Some ps"
    using d(3) assms(18) by (simp add: dealer_strips)
  obtain d2 orch' where "feed (dealer_handle_pipe_event dch) (map (Pair dp) ?wire2) ?d1 = Some d2"
    "dealer_recv_multipart dch dcore d2 = Some (?d1\<lparr>dealer_orchestrator := orch'\<rparr>, Inr ps)"
    by (rule dealer_in.delivers_one [OF assms(1,5), of dp ?d1 ?wire2 "\<lambda>m. the (dealer_payload (dealer_framing ?d1) m)"])
      (use d(4) wire2(2) payload dealer_payload_total in auto)
  with sent1 s1(2) r sent2 show ?thesis by blast
qed

text \<open>A core with a session of a DEALER peer.\<close>

definition dealer_peer_core :: SocketCore where
  "dealer_peer_core =
    (let core = example_core [(''d'', 3)]
     in core\<lparr>core_state := (core_state core)
          \<lparr>endpoints := [(''d'', (example_endpoint ''d'' 3)\<lparr>peer_socket_type := Some ''DEALER''\<rparr>)]\<rparr>\<rparr>)"

theorem dealer_router_exchange_witness:
  "\<exists>d1 w1 wire1 r1 r2 r3 w2 wire2 d2 d3.
    dealer_send_multipart nat_semaphore bool_notify list_channel [] [] (example_core [(''r'', 2)]) [msg_from_vec [5]]
      (dealer_attach nat_semaphore bool_notify 2 ''r'' (dealer_new bool_notify list_channel (example_core [(''r'', 2)])))
      (\<lambda>_. ([], 1, False)) = Some (d1, w1, Inr ()) \<and> delivered fst 2 wire1 (\<lambda>_. ([], 1, False)) w1 \<and>
    feed (router_handle_pipe_event list_channel dealer_peer_core) (map (Pair 3) wire1)
      (identified nat_semaphore list_channel dealer_peer_core 3 [9]) = Some r1 \<and>
    router_recv_multipart list_channel dealer_peer_core r1 =
      Some (r2, Inr (with_more True (msg_from_vec [9]) #
        mark_more (if [msg_from_vec [5]] = [] then [msg_new] else [msg_from_vec [5]]))) \<and>
    router_send_multipart nat_semaphore list_channel dealer_peer_core (msg_from_vec [9] # [msg_from_vec [6]]) r2 w1 =
      Some (r3, w2, Inr ()) \<and> delivered fst 3 wire2 w1 w2 \<and>
    feed (dealer_handle_pipe_event list_channel) (map (Pair 2) wire2) d1 = Some d2 \<and>
    dealer_recv_multipart list_channel (example_core [(''r'', 2)]) d2 = Some (d3, Inr [msg_from_vec [6]])"
  by (rule dealer_router_exchange [OF list_channel_fifo list_channel_fifo list_channel_fifo nat_semaphore_counting,
        where dep = "example_endpoint ''r'' 2" and v = "''d''" and dw = 2 and rw = 3 and
        rep = "(example_endpoint ''d'' 3)\<lparr>peer_socket_type := Some ''DEALER''\<rparr>"])
    (simp_all add: dealer_peer_core_def open_room_def example_core_defs)

text \<open>
  C33. A payload whose frames the application did not flag is split: although the documentation says that
  \<open>send_multipart\<close> sets the flags, a ROUTER puts a payload of two unflagged frames on the wire as two
  messages, and the DEALER returns the first frame as a message of its own and drops the second.
\<close>

theorem router_multipart_splits:
  fixes S :: "'s sem_ops" and nt :: "'n notify_ops" and dch :: "('q, Msg list) chan_ops"
  assumes "fifo_channel dch ditems dcap dclosed" "fifo_channel rch ritems rcap rclosed"
    and "fifo_channel pc items cap closed" "counting_semaphore S avail sclosed" "is_running dcore" "is_running rcore"
    and "uri_of_pipe rcore rp = Some v" "endpoint_of rcore v = Some rep" "pipe_ids rep = Some (rw, rp)"
    and "peer_socket_type rep = Some ''DEALER''" "conn_channel (connection_iface rep) = Some b"
    and "open_room items cap closed 1 b w" "i \<noteq> []" "2 \<le> rcvhwm (options (core_state dcore))"
    and "\<not> is_more f" "\<not> is_more g" "msg_payload g \<noteq> []"
  shows "\<exists>r w' wire d1 d2.
    router_send_multipart S pc rcore [msg_from_vec i, f, g] (identified S rch rcore rp i) w = Some (r, w', Inr ()) \<and>
    delivered items b wire w w' \<and>
    feed (dealer_handle_pipe_event dch) (map (Pair p) wire) (dealer_new nt dch dcore :: ('q, 's, 'n) DealerSocket) = Some d1 \<and>
    receive_all (dealer_recv_multipart dch dcore) 2 d1 = Some (d2, [[f], []])"
proof -
  let ?r = "identified S rch rcore rp i" and ?d = "dealer_new nt dch dcore :: ('q, 's, 'n) DealerSocket"
  let ?wire = "[with_more True (msg_from_vec i), with_more True msg_new, f, g]"
  note router = identified_peer [OF assms(4,2,13,7,8,10)]
  have wire: "clear_last_more (prepare_wire_frames DealerPeerStrategy (msg_from_vec i) [f, g] (router_framing ?r)) = ?wire"
    using router(4) assms(16) by (simp add: router_wire del: prepare_wire_frames.simps)
  have room: "open_room items cap closed (Suc 0) b w" using assms(12) by simp
  obtain r w' where sent: "router_send_multipart S pc rcore [msg_from_vec i, f, g] ?r w = Some (r, w', Inr ())"
    "delivered items b ?wire w w'"
    by (rule router_sends [OF assms(4,3,6) _ _ _ assms(9,11) router(2) room, of "msg_from_vec i"
        "\<lparr>peer_uri = v, strategy = DealerPeerStrategy\<rparr>" "[f, g]"])
      (use router(1) wire assms(8,13) in simp_all)
  let ?o = "dealer_orchestrator ?d"
  have start: "\<not> orch_items dclosed ?o" "orch_items ditems ?o = []" "2 \<le> orch_items dcap ?o" "\<And>p. pending_frames ?o p = []"
    using assms(14) by (auto simp: dealer_new_def orchestrator_new_def fq_new_def fifo_new [OF assms(1)] pending_frames_def)
  have assembled: "snd (assemble_run accumulate_pipe_frame (map (Pair p) ?wire) ?o) =
      [(p, [with_more True (msg_from_vec i), with_more True msg_new, f]), (p, [g])]"
    using start(4) assms(15,16) by (simp add: accumulate_more accumulate_last pending_frames_def)
  have "dealer_payload (dealer_framing ?d) [with_more True (msg_from_vec i), with_more True msg_new, f] = Some [f]"
    "dealer_payload (dealer_framing ?d) [g] = Some []"
    using dealer_strips [OF assms(13), of True True "[f]"] assms(17)
    by (simp_all add: dealer_new_def dealer_payload_def process_incoming_zmtp_message_for_dealer_def latch_new_def
      is_manual_def msg_size_payload)
  then obtain d1 d2 where "feed (dealer_handle_pipe_event dch) (map (Pair p) ?wire) ?d = Some d1"
    "receive_all (dealer_recv_multipart dch dcore) 2 d1 = Some (d2, [[f], []])"
    using dealer_in.delivers [OF assms(1,5) start(1,2), of "map (Pair p) ?wire"] assembled start(3) assms(15,16)
    by (auto simp: numeral_2_eq_2 simp del: feed.simps receive_all.simps)
  with sent show ?thesis by blast
qed

lemma example_dealer_Nil: "example_dealer [] = dealer_new bool_notify list_channel (example_core [])"
  by (simp add: example_dealer_def dealer_new_def)

theorem router_multipart_splits_witness:
  "\<exists>r w' wire d1 d2.
    router_send_multipart nat_semaphore list_channel dealer_peer_core [msg_from_vec [9], msg_from_vec [1], msg_from_vec [2]]
      (identified nat_semaphore list_channel dealer_peer_core 3 [9]) (\<lambda>_. ([], 1, False)) = Some (r, w', Inr ()) \<and>
    delivered fst 3 wire (\<lambda>_. ([], 1, False)) w' \<and>
    feed (dealer_handle_pipe_event list_channel) (map (Pair 2) wire) (example_dealer []) = Some d1 \<and>
    receive_all (dealer_recv_multipart list_channel (example_core [])) 2 d1 = Some (d2, [[msg_from_vec [1]], []])"
  by (rule router_multipart_splits [OF list_channel_fifo list_channel_fifo list_channel_fifo nat_semaphore_counting,
        where v = "''d''" and rw = 3 and rep = "(example_endpoint ''d'' 3)\<lparr>peer_socket_type := Some ''DEALER''\<rparr>" and
        dcore = "example_core []" and nt = bool_notify and p = 2, folded example_dealer_Nil])
    (simp_all add: dealer_peer_core_def open_room_def example_core_defs options_default_def)

end
