(* ===== verification/Endpoints.thy ===== *)
theory Endpoints
  imports Core_State
begin

text \<open>
  Endpoint addresses (\<^verbatim>\<open>core/src/transport/endpoint.rs\<close>), the errors after which a connection is not tried again
  (\<^verbatim>\<open>is_fatal_connect_error\<close> of \<^verbatim>\<open>core/src/transport/tcp.rs\<close>), and the registry of in-process names in the context
  (\<^verbatim>\<open>core/src/context.rs\<close>).
\<close>

section \<open>Addresses\<close>

datatype Endpoint =
    Tcp string uri
  | Ipc string uri
  | InprocName string

text \<open>\<^verbatim>\<open>str::find\<close> with the part after the match.\<close>

fun split_scheme :: "string \<Rightarrow> (string \<times> string) option" where
  "split_scheme [] = None"
| "split_scheme (c # cs) =
    (case strip_prefix ''://'' (c # cs) of
       Some rest \<Rightarrow> Some ([], rest)
     | None \<Rightarrow> map_option (\<lambda>(s, rest). (c # s, rest)) (split_scheme cs))"

definition parse_endpoint :: "string \<Rightarrow> Endpoint res" where
  "parse_endpoint endpoint_str =
    (case split_scheme endpoint_str of
       None \<Rightarrow> Inl (InvalidEndpoint endpoint_str)
     | Some (scheme, address_part) \<Rightarrow>
         if scheme = ''tcp'' then
           (if address_part = [] then Inl (InvalidEndpoint endpoint_str) else Inr (Tcp address_part endpoint_str))
         else if scheme = ''ipc'' then
           (if address_part = [] \<or> CHR 0x00 \<in> set address_part then Inl (InvalidEndpoint endpoint_str)
            else Inr (Ipc address_part endpoint_str))
         else if scheme = ''inproc'' then
           (if address_part = [] \<or> CHR 0x00 \<in> set address_part then Inl (InvalidEndpoint endpoint_str)
            else Inr (InprocName address_part))
         else Inl (UnsupportedTransport endpoint_str))"

definition inproc_uri :: "string \<Rightarrow> uri" where
  "inproc_uri name = ''inproc://'' @ name"

lemma split_scheme_tcp: "split_scheme (''tcp://'' @ a) = Some (''tcp'', a)"
  and split_scheme_ipc: "split_scheme (''ipc://'' @ a) = Some (''ipc'', a)"
  and split_scheme_inproc: "split_scheme (''inproc://'' @ a) = Some (''inproc'', a)"
  by (simp_all add: strip_prefix_def)

lemma split_scheme_Some:
  "split_scheme s = Some (p, a) \<Longrightarrow> s = p @ ''://'' @ a"
proof (induction s arbitrary: p)
  case Nil
  then show ?case by simp
next
  case (Cons c cs)
  show ?case
  proof (cases "strip_prefix ''://'' (c # cs)")
    case None
    then show ?thesis using Cons by auto
  next
    case (Some rest)
    then have "take 3 (c # cs) = ''://''" "rest = drop 3 (c # cs)"
      by (auto simp: strip_prefix_def numeral_2_eq_2 split: if_splits)
    then have "c # cs = ''://'' @ rest" using append_take_drop_id [of 3 "c # cs"] by simp
    then show ?thesis using Cons.prems Some by simp
  qed
qed

text \<open>The endpoint keeps the string it was parsed from.\<close>

fun endpoint_string :: "Endpoint \<Rightarrow> uri" where
  "endpoint_string (Tcp a u) = u"
| "endpoint_string (Ipc a u) = u"
| "endpoint_string (InprocName a) = inproc_uri a"

lemma parse_endpoint_string:
  assumes "parse_endpoint s = Inr e"
  shows "endpoint_string e = s"
proof -
  obtain p a where "split_scheme s = Some (p, a)" using assms by (auto simp: parse_endpoint_def split: option.splits)
  then show ?thesis using assms split_scheme_Some [of s p a]
    by (auto simp: parse_endpoint_def inproc_uri_def split: if_splits)
qed

lemma parse_inproc_uri: "parse_endpoint (inproc_uri name) =
    (if name = [] \<or> CHR 0x00 \<in> set name then Inl (InvalidEndpoint (inproc_uri name)) else Inr (InprocName name))"
  by (simp add: parse_endpoint_def inproc_uri_def strip_prefix_def)


section \<open>Errors that end the attempts\<close>

text \<open>
  The kind that an \<^verbatim>\<open>IoError\<close> carries; \<open>ZmqError\<close> leaves it out, so an error that travels in a system event
  has it beside.
\<close>

datatype io_kind = AddrNotAvailableKind | AddrInUseKind | InvalidInputKind | PermissionDeniedKind | OtherKind

type_synonym actor_error = "ZmqError \<times> io_kind"

fun is_fatal_connect_error :: "actor_error \<Rightarrow> bool" where
  "is_fatal_connect_error (IoError, kind) =
    (kind \<in> {AddrNotAvailableKind, AddrInUseKind, InvalidInputKind, PermissionDeniedKind})"
| "is_fatal_connect_error (InvalidEndpoint u, kind) = True"
| "is_fatal_connect_error (UnsupportedTransport u, kind) = True"
| "is_fatal_connect_error (DnsResolutionFailed, kind) = True"
| "is_fatal_connect_error (e, kind) = False"


section \<open>The context\<close>

text \<open>
  The part of the context that a socket core uses: the source of handles and the in-process names with the
  core that has bound them, and the registered sockets.
\<close>

record Context =
  next_handle_value :: nat
  inproc_registry :: "(string \<times> nat) list"
  sockets :: "nat list"

definition next_handle :: "Context \<Rightarrow> Context \<times> nat" where
  "next_handle c = (c\<lparr>next_handle_value := next_handle_value c + 1\<rparr>, next_handle_value c)"

definition register_inproc :: "string \<Rightarrow> nat \<Rightarrow> Context \<Rightarrow> Context \<times> unit res" where
  "register_inproc name binder_core_id c =
    (if map_of (inproc_registry c) name \<noteq> None then (c, Inl (AddrInUse (inproc_uri name)))
     else (c\<lparr>inproc_registry := alist_put name binder_core_id (inproc_registry c)\<rparr>, Inr ()))"

definition unregister_inproc :: "string \<Rightarrow> Context \<Rightarrow> Context" where
  "unregister_inproc name c = c\<lparr>inproc_registry := alist_del name (inproc_registry c)\<rparr>"

definition lookup_inproc :: "string \<Rightarrow> Context \<Rightarrow> nat option" where
  "lookup_inproc name c = map_of (inproc_registry c) name"

definition unregister_socket :: "nat \<Rightarrow> Context \<Rightarrow> Context" where
  "unregister_socket h c = c\<lparr>sockets := removeAll h (sockets c)\<rparr>"

end
