(* ===== verification/Core_Shutdown.thy ===== *)
theory Core_Shutdown
  imports Endpoints Socket_Pattern
begin

text \<open>
  The resources of a socket core and their end: the cleanup of \<^verbatim>\<open>core/src/socket/core/pipe_manager.rs\<close> and the
  shutdown sequence of \<^verbatim>\<open>core/src/socket/core/shutdown.rs\<close>, for a build without io_uring.

  A node is a socket core with the socket pattern behind it.  The pattern is a dictionary of its operations
  (\<^verbatim>\<open>ISocket\<close>) on a state of its own; \<open>None\<close> says that the call has not returned.  What an operation sends and
  publishes is appended to the node's effects.  An iteration over a \<^verbatim>\<open>HashMap\<close> follows the list, whose order
  is arbitrary.  A channel that the core creates has the identifier of its pipe as address.
\<close>

section \<open>Nodes\<close>

record 'l ISocket =
  isock_pipe_attached :: "SocketCore \<Rightarrow> nat \<Rightarrow> nat \<Rightarrow> Blob option \<Rightarrow> 'l \<Rightarrow> 'l option"
  isock_pipe_detached :: "SocketCore \<Rightarrow> nat \<Rightarrow> 'l \<Rightarrow> 'l"
  isock_update_peer_identity :: "SocketCore \<Rightarrow> nat \<Rightarrow> Blob option \<Rightarrow> 'l \<Rightarrow> 'l"
  isock_send :: "SocketCore \<Rightarrow> Msg \<Rightarrow> 'l \<Rightarrow> ('l \<times> unit res) option"
  isock_recv :: "SocketCore \<Rightarrow> 'l \<Rightarrow> ('l \<times> Msg res) option"
  isock_set_pattern_option :: "SocketCore \<Rightarrow> int \<Rightarrow> bytes \<Rightarrow> 'l \<Rightarrow> (SocketOptions \<times> 'l \<times> unit res) option"
  isock_get_pattern_option :: "SocketCore \<Rightarrow> int \<Rightarrow> 'l \<Rightarrow> bytes res"
  isock_stop :: "SocketCore \<Rightarrow> 'l \<Rightarrow> 'l \<times> unit res"

text \<open>
  Tasks that the core has spawned and that still work on its state: a connect to an in-process name, before
  and after its request to the binder, with the monitor it found then.
\<close>

datatype core_task =
    ConnectInproc string
  | AwaitBinder string nat nat bool

record 'l node =
  nd_core :: SocketCore
  nd_logic :: 'l
  nd_context :: Context
  nd_tasks :: "core_task list"
  nd_effects :: "core_effect list"
  nd_error :: "ZmqError option"

text \<open>
  What an operation finds outside: the mailboxes that have a receiver, the tasks that have ended, the
  channels that are empty, the result of opening a listener (mailbox, task, resolved address), whether the
  event bus has a subscriber, whether the pattern has not been dropped, and the clock.
\<close>

record core_env =
  open_mailbox :: "nat \<Rightarrow> bool"
  task_finished :: "nat \<Rightarrow> bool"
  pipe_empty :: "nat \<Rightarrow> bool"
  open_listener :: "uri \<Rightarrow> (nat \<times> nat \<times> uri) res"
  bus_open :: bool
  logic_alive :: bool
  clock :: nat

abbreviation state_of :: "'l node \<Rightarrow> CoreState" where
  "state_of n \<equiv> core_state (nd_core n)"

abbreviation coordinator_of :: "'l node \<Rightarrow> ShutdownCoordinator" where
  "coordinator_of n \<equiv> shutdown_coordinator (nd_core n)"

abbreviation phase_of :: "'l node \<Rightarrow> ShutdownPhase" where
  "phase_of n \<equiv> shutdown_state (coordinator_of n)"

definition with_state :: "(CoreState \<Rightarrow> CoreState) \<Rightarrow> 'l node \<Rightarrow> 'l node" where
  "with_state f n = n\<lparr>nd_core := (nd_core n)\<lparr>core_state := f (state_of n)\<rparr>\<rparr>"

definition with_coordinator :: "(ShutdownCoordinator \<Rightarrow> ShutdownCoordinator) \<Rightarrow> 'l node \<Rightarrow> 'l node" where
  "with_coordinator f n = n\<lparr>nd_core := (nd_core n)\<lparr>shutdown_coordinator := f (coordinator_of n)\<rparr>\<rparr>"

definition emit :: "core_effect list \<Rightarrow> 'l node \<Rightarrow> 'l node" where
  "emit es n = n\<lparr>nd_effects := nd_effects n @ es\<rparr>"

definition monitor :: "SocketEvent \<Rightarrow> 'l node \<Rightarrow> 'l node" where
  "monitor e n = emit (send_monitor_event (state_of n) e) n"

definition fresh_handle :: "'l node \<Rightarrow> 'l node \<times> nat" where
  "fresh_handle n = (case next_handle (nd_context n) of (c, h) \<Rightarrow> (n\<lparr>nd_context := c\<rparr>, h))"

definition detach_pipe :: "'l ISocket \<Rightarrow> nat \<Rightarrow> 'l node \<Rightarrow> 'l node" where
  "detach_pipe I read_id n = n\<lparr>nd_logic := isock_pipe_detached I (nd_core n) read_id (nd_logic n)\<rparr>"

definition attach_pipe :: "'l ISocket \<Rightarrow> nat \<Rightarrow> nat \<Rightarrow> 'l node \<Rightarrow> 'l node option" where
  "attach_pipe I read_id write_id n =
    map_option (\<lambda>l. n\<lparr>nd_logic := l\<rparr>) (isock_pipe_attached I (nd_core n) read_id write_id None (nd_logic n))"

definition drop_pipe_state :: "nat \<Rightarrow> nat \<Rightarrow> 'l node \<Rightarrow> 'l node" where
  "drop_pipe_state write_id read_id n =
    (case remove_pipe_state write_id read_id (state_of n) of (cs, es, _) \<Rightarrow> emit es (with_state (\<lambda>_. cs) n))"

definition abort_task :: "core_env \<Rightarrow> nat option \<Rightarrow> 'l node \<Rightarrow> 'l node" where
  "abort_task E h n = (case h of Some t \<Rightarrow> if task_finished E t then n else emit [TaskAborted t] n | None \<Rightarrow> n)"

definition close_iface :: "core_env \<Rightarrow> ISocketConnection \<Rightarrow> 'l node \<Rightarrow> 'l node" where
  "close_iface E c n = emit (fst (close_connection (open_mailbox E) c)) n"

definition node_new :: "nat \<Rightarrow> int \<Rightarrow> SocketOptions \<Rightarrow> 'l \<Rightarrow> Context \<Rightarrow> 'l node" where
  "node_new h ty opts l c =
    \<lparr>nd_core = socket_core_new h ty opts, nd_logic = l, nd_context = c, nd_tasks = [], nd_effects = [], nd_error = None\<rparr>"

named_theorems node_simps "projections of updated nodes"

lemma with_state_simps [node_simps]:
  "state_of (with_state f n) = f (state_of n)"
  "coordinator_of (with_state f n) = coordinator_of n"
  "nd_logic (with_state f n) = nd_logic n" "nd_context (with_state f n) = nd_context n"
  "nd_tasks (with_state f n) = nd_tasks n" "nd_effects (with_state f n) = nd_effects n"
  "nd_error (with_state f n) = nd_error n"
  by (simp_all add: with_state_def)

lemma with_coordinator_simps [node_simps]:
  "state_of (with_coordinator g n) = state_of n"
  "coordinator_of (with_coordinator g n) = g (coordinator_of n)"
  "nd_logic (with_coordinator g n) = nd_logic n" "nd_context (with_coordinator g n) = nd_context n"
  "nd_tasks (with_coordinator g n) = nd_tasks n" "nd_effects (with_coordinator g n) = nd_effects n"
  "nd_error (with_coordinator g n) = nd_error n"
  by (simp_all add: with_coordinator_def)

lemma emit_simps [node_simps]:
  "nd_core (emit es n) = nd_core n" "nd_logic (emit es n) = nd_logic n" "nd_context (emit es n) = nd_context n"
  "nd_tasks (emit es n) = nd_tasks n" "nd_effects (emit es n) = nd_effects n @ es" "nd_error (emit es n) = nd_error n"
  by (simp_all add: emit_def)

lemma monitor_simps [node_simps]:
  "nd_core (monitor e n) = nd_core n" "nd_logic (monitor e n) = nd_logic n" "nd_context (monitor e n) = nd_context n"
  "nd_tasks (monitor e n) = nd_tasks n" "nd_error (monitor e n) = nd_error n"
  by (simp_all add: monitor_def node_simps)

lemma detach_pipe_simps [node_simps]:
  "nd_core (detach_pipe I r n) = nd_core n" "nd_context (detach_pipe I r n) = nd_context n"
  "nd_tasks (detach_pipe I r n) = nd_tasks n" "nd_effects (detach_pipe I r n) = nd_effects n"
  "nd_error (detach_pipe I r n) = nd_error n"
  by (simp_all add: detach_pipe_def)

lemma drop_pipe_state_simps [node_simps]:
  "state_of (drop_pipe_state w r n) = fst (remove_pipe_state w r (state_of n))"
  "coordinator_of (drop_pipe_state w r n) = coordinator_of n"
  "nd_logic (drop_pipe_state w r n) = nd_logic n" "nd_context (drop_pipe_state w r n) = nd_context n"
  "nd_tasks (drop_pipe_state w r n) = nd_tasks n" "nd_error (drop_pipe_state w r n) = nd_error n"
  by (simp_all add: drop_pipe_state_def node_simps split: prod.split)

lemma abort_task_simps [node_simps]:
  "nd_core (abort_task E h n) = nd_core n" "nd_logic (abort_task E h n) = nd_logic n"
  "nd_context (abort_task E h n) = nd_context n" "nd_tasks (abort_task E h n) = nd_tasks n"
  "nd_error (abort_task E h n) = nd_error n"
  by (simp_all add: abort_task_def node_simps split: option.split)

lemma close_iface_simps [node_simps]:
  "nd_core (close_iface E c n) = nd_core n" "nd_logic (close_iface E c n) = nd_logic n"
  "nd_context (close_iface E c n) = nd_context n" "nd_tasks (close_iface E c n) = nd_tasks n"
  "nd_error (close_iface E c n) = nd_error n"
  by (simp_all add: close_iface_def node_simps)

lemma fresh_handle_eq [node_simps]:
  "fresh_handle n = (n\<lparr>nd_context := (nd_context n)\<lparr>next_handle_value := next_handle_value (nd_context n) + 1\<rparr>\<rparr>,
     next_handle_value (nd_context n))"
  by (simp add: fresh_handle_def next_handle_def)


section \<open>Cleanup\<close>

datatype ActorType =
    SocketCoreActor | ListenerActor | AcceptLoopActor | SessionActor | PipeReaderActor | ConnecterActor | ContextListenerActor

text \<open>The endpoint of a stopped child: under its URI if the handle matches, else by its handle.\<close>

definition endpoint_key :: "nat \<Rightarrow> uri option \<Rightarrow> CoreState \<Rightarrow> uri option" where
  "endpoint_key child_id endpoint_uri_opt cs =
    (case Option.bind endpoint_uri_opt
            (\<lambda>u. Option.bind (map_of (endpoints cs) u) (\<lambda>ep. if handle_id ep = child_id then Some u else None)) of
       Some u \<Rightarrow> Some u
     | None \<Rightarrow> map_option fst (find (\<lambda>(_, info). handle_id info = child_id) (endpoints cs)))"

definition closed_event :: "EndpointInfo \<Rightarrow> actor_error option \<Rightarrow> SocketEvent" where
  "closed_event ep error_opt =
    (case endpoint_type ep of
       Session \<Rightarrow>
         (if map_option fst error_opt = Some SecurityError \<or> map_option fst error_opt = Some AuthenticationFailure
          then HandshakeFailed (endpoint_uri ep) else Disconnected (endpoint_uri ep))
     | Listener \<Rightarrow> EndpointClosed (endpoint_uri ep))"

definition cleanup_stopped_child_resources ::
  "core_env \<Rightarrow> 'l ISocket \<Rightarrow> nat \<Rightarrow> uri option \<Rightarrow> actor_error option \<Rightarrow> bool \<Rightarrow> 'l node \<Rightarrow> 'l node \<times> bool" where
  "cleanup_stopped_child_resources E I child_id endpoint_uri_opt error_opt is_full_core_shutdown n =
    (case Option.bind (endpoint_key child_id endpoint_uri_opt (state_of n))
            (\<lambda>key. map_option (Pair key) (map_of (endpoints (state_of n)) key)) of
       None \<Rightarrow> (n, False)
     | Some (key, ep_info) \<Rightarrow>
         (let n = with_state (\<lambda>cs. cs\<lparr>endpoints := alist_del key (endpoints cs)\<rparr>) n;
              n = abort_task E (task_handle ep_info) n;
              n = (case pipe_ids ep_info of Some (w, r) \<Rightarrow> drop_pipe_state w r n | None \<Rightarrow> n);
              n = monitor (closed_event ep_info error_opt) n;
              reconnect_ivl_is_positive = (case reconnect_ivl (options (state_of n)) of Some d \<Rightarrow> d \<noteq> 0 | None \<Rightarrow> False);
              should_consider_reconnect =
                (\<not> is_full_core_shutdown \<and> endpoint_type ep_info = Session \<and> is_outbound_connection ep_info \<and>
                 (case error_opt of
                    None \<Rightarrow> False
                  | Some e \<Rightarrow> reconnect_ivl_is_positive \<and> \<not> is_fatal_connect_error e))
          in (case pipe_ids ep_info of Some (w, r) \<Rightarrow> detach_pipe I r n | None \<Rightarrow> n, should_consider_reconnect)))"

definition cleanup_session_state_by_uri ::
  "core_env \<Rightarrow> 'l ISocket \<Rightarrow> uri \<Rightarrow> 'l node \<Rightarrow> 'l node \<times> EndpointInfo option" where
  "cleanup_session_state_by_uri E I u n =
    (case map_of (endpoints (state_of n)) u of
       None \<Rightarrow> (n, None)
     | Some info \<Rightarrow>
         if endpoint_type info \<noteq> Session then (n, None)
         else
           (let n = with_state (\<lambda>cs. cs\<lparr>endpoints := alist_del u (endpoints cs)\<rparr>) n;
                n = (case pipe_ids info of Some (w, r) \<Rightarrow> drop_pipe_state w r n | None \<Rightarrow> n);
                n = monitor (Disconnected u) n;
                n = close_iface E (connection_iface info) n;
                n = abort_task E (task_handle info) n
            in (case pipe_ids info of Some (w, r) \<Rightarrow> detach_pipe I r n | None \<Rightarrow> n, Some info)))"

definition cleanup_session_state_by_pipe :: "'l ISocket \<Rightarrow> nat \<Rightarrow> 'l node \<Rightarrow> 'l node \<times> uri option" where
  "cleanup_session_state_by_pipe I pipe_read_id n =
    (case map_of (pipe_read_id_to_endpoint_uri (state_of n)) pipe_read_id of
       None \<Rightarrow>
         (let reader = map_of (pipe_reader_task_handles (state_of n)) pipe_read_id;
              n = with_state (\<lambda>cs. cs\<lparr>pipe_reader_task_handles := alist_del pipe_read_id (pipe_reader_task_handles cs)\<rparr>) n;
              n = (case reader of Some h \<Rightarrow> emit [TaskAborted h] n | None \<Rightarrow> n)
          in (detach_pipe I pipe_read_id n, None))
     | Some u \<Rightarrow>
         (case map_of (endpoints (state_of n)) u of
            None \<Rightarrow> (detach_pipe I pipe_read_id n, None)
          | Some ep_info \<Rightarrow>
              (let n = with_state (\<lambda>cs. cs\<lparr>endpoints := alist_del u (endpoints cs)\<rparr>) n;
                   n = (case pipe_ids ep_info of Some (w, _) \<Rightarrow> drop_pipe_state w pipe_read_id n | None \<Rightarrow> n);
                   n = monitor (case endpoint_type ep_info of
                          Session \<Rightarrow> Disconnected (endpoint_uri ep_info) | Listener \<Rightarrow> EndpointClosed (endpoint_uri ep_info)) n;
                   n = (case task_handle ep_info of
                          Some th \<Rightarrow> if endpoint_type ep_info = Listener then emit [TaskAborted th] n else n
                        | None \<Rightarrow> n)
               in (detach_pipe I pipe_read_id n, target_endpoint_uri ep_info))))"


section \<open>The shutdown coordinator\<close>

fun register_endpoint :: "uri \<times> EndpointInfo \<Rightarrow> ShutdownCoordinator \<Rightarrow> ShutdownCoordinator" where
  "register_endpoint (ep_uri, ep_info) c =
    (case endpoint_type ep_info of
       Listener \<Rightarrow>
         (if task_handle ep_info \<noteq> None
          then c\<lparr>pending_child_actors := alist_put (handle_id ep_info) ep_uri (pending_child_actors c)\<rparr> else c)
     | Session \<Rightarrow>
         (let c = c\<lparr>pending_connections_to_close :=
                alist_put (handle_id ep_info) (ep_uri, connection_iface ep_info) (pending_connections_to_close c)\<rparr>
          in if strip_prefix ''inproc://'' ep_uri \<noteq> None \<and> \<not> is_outbound_connection ep_info then
               (case pipe_ids ep_info of
                  Some (w, r) \<Rightarrow> c\<lparr>inproc_connections_to_cleanup := inproc_connections_to_cleanup c @ [(w, r, ep_uri)]\<rparr>
                | None \<Rightarrow> c)
             else c))"

definition begin_shutdown_sequence :: "CoreState \<Rightarrow> ShutdownCoordinator \<Rightarrow> ShutdownCoordinator \<times> bool" where
  "begin_shutdown_sequence cs c =
    (if shutdown_state c \<noteq> Running then (c, False)
     else
       (fold register_endpoint (endpoints cs)
          (c\<lparr>pending_child_actors := [], pending_connections_to_close := [], inproc_connections_to_cleanup := []\<rparr>), True))"

definition none_pending :: "ShutdownCoordinator \<Rightarrow> bool" where
  "none_pending c \<longleftrightarrow> pending_child_actors c = [] \<and> pending_connections_to_close c = []"

definition record_child_actor_stopped :: "nat \<Rightarrow> ShutdownCoordinator \<Rightarrow> ShutdownCoordinator \<times> bool" where
  "record_child_actor_stopped child c =
    (if shutdown_state c = Finished then (c, False)
     else if map_of (pending_child_actors c) child \<noteq> None then
       (let c = c\<lparr>pending_child_actors := alist_del child (pending_child_actors c)\<rparr> in (c, none_pending c))
     else (c, False))"

definition record_connection_closed :: "nat \<Rightarrow> ShutdownCoordinator \<Rightarrow> ShutdownCoordinator \<times> bool" where
  "record_connection_closed conn c =
    (if shutdown_state c = Finished then (c, False)
     else if map_of (pending_connections_to_close c) conn \<noteq> None then
       (let c = c\<lparr>pending_connections_to_close := alist_del conn (pending_connections_to_close c)\<rparr> in (c, none_pending c))
     else (c, False))"

definition start_linger_if_needed :: "nat \<Rightarrow> duration option \<Rightarrow> ShutdownCoordinator \<Rightarrow> ShutdownCoordinator" where
  "start_linger_if_needed now linger_opt c =
    (if shutdown_state c \<noteq> Lingering then c
     else if linger_deadline c \<noteq> None \<and> linger_opt \<noteq> Some 0 then c
     else
       (case linger_opt of
          None \<Rightarrow> c\<lparr>linger_deadline := None\<rparr>
        | Some d \<Rightarrow> if d = 0 then c\<lparr>linger_deadline := Some now\<rparr> else c\<lparr>linger_deadline := Some (now + d)\<rparr>))"

definition is_linger_expired_or_queues_empty :: "core_env \<Rightarrow> CoreState \<Rightarrow> ShutdownCoordinator \<Rightarrow> bool" where
  "is_linger_expired_or_queues_empty E cs c =
    (if shutdown_state c \<noteq> Lingering then False
     else if list_all (\<lambda>(_, sender). pipe_empty E sender) (pipes_tx cs) then True
     else (case linger_deadline c of Some deadline \<Rightarrow> clock E \<ge> deadline | None \<Rightarrow> False))"

definition advance_to_cleaning_phase :: "ShutdownCoordinator \<Rightarrow> ShutdownCoordinator" where
  "advance_to_cleaning_phase c = (if shutdown_state c = Lingering then c\<lparr>shutdown_state := CleaningPipes\<rparr> else c)"


section \<open>The shutdown sequence\<close>

definition publish_socket_closing_event :: "'l node \<Rightarrow> 'l node" where
  "publish_socket_closing_event n = emit [PublishedSocketClosing (core_handle (state_of n))] n"

fun stop_child_listener_actors :: "core_env \<Rightarrow> (nat \<times> uri) list \<Rightarrow> 'l node \<Rightarrow> 'l node" where
  "stop_child_listener_actors E [] n = n"
| "stop_child_listener_actors E ((_, child_uri) # cs) n =
    stop_child_listener_actors E cs
      (case map_of (endpoints (state_of n)) child_uri of
         Some ei \<Rightarrow> if endpoint_type ei = Listener \<and> open_mailbox E (ep_mailbox ei) then emit [StopSent (ep_mailbox ei)] n else n
       | None \<Rightarrow> n)"

fun record_closed_all :: "nat list \<Rightarrow> ShutdownCoordinator \<Rightarrow> ShutdownCoordinator \<times> bool" where
  "record_closed_all [] c = (c, False)"
| "record_closed_all (i # is) c =
    (case record_connection_closed i c of (c, b) \<Rightarrow> case record_closed_all is c of (c, b') \<Rightarrow> (c, b \<or> b'))"

definition close_active_connections ::
  "core_env \<Rightarrow> (nat \<times> uri \<times> ISocketConnection) list \<Rightarrow> 'l node \<Rightarrow> 'l node" where
  "close_active_connections E conns n =
    (let n = fold (\<lambda>(_, _, iface). close_iface E iface) conns n;
         inproc_ids = map fst (filter (\<lambda>(_, u, _). strip_prefix ''inproc://'' u \<noteq> None) conns)
     in case record_closed_all inproc_ids (coordinator_of n) of
          (c, made_progress_to_linger) \<Rightarrow>
            let c = (if made_progress_to_linger \<and> shutdown_state c = Lingering
                     then start_linger_if_needed (clock E) (linger (options (state_of n))) c else c)
            in with_coordinator (\<lambda>_. c) n)"

definition perform_final_pipe_cleanup :: "core_env \<Rightarrow> 'l ISocket \<Rightarrow> (nat \<times> nat \<times> uri) list \<Rightarrow> 'l node \<Rightarrow> 'l node" where
  "perform_final_pipe_cleanup E I inproc_pipes n =
    (let readers = pipe_reader_task_handles (state_of n);
         n = with_state (\<lambda>cs. cs\<lparr>pipes_tx := [], pipe_reader_task_handles := []\<rparr>) n;
         n = emit (map (\<lambda>(_, h). TaskAborted h) readers) n;
         n = fold (\<lambda>(_, read_id, _). detach_pipe I read_id) inproc_pipes n;
         n = with_state (\<lambda>cs. cs\<lparr>pipe_read_id_to_endpoint_uri := []\<rparr>) n;
         n = (if endpoints (state_of n) \<noteq> [] then
                with_state (\<lambda>cs. cs\<lparr>endpoints := []\<rparr>)
                  (fold (\<lambda>(_, ei). close_iface E (connection_iface ei)) (endpoints (state_of n)) n)
              else n)
     in with_coordinator (\<lambda>c. c\<lparr>shutdown_state := Finished\<rparr>) n)"

text \<open>The end of lingering, as \<^verbatim>\<open>initiate_core_shutdown\<close> and \<^verbatim>\<open>check_and_advance_linger\<close> go on from there.\<close>

definition finish_linger :: "core_env \<Rightarrow> 'l ISocket \<Rightarrow> 'l node \<Rightarrow> 'l node" where
  "finish_linger E I n =
    (if is_linger_expired_or_queues_empty E (state_of n) (coordinator_of n) then
       (let n = with_coordinator advance_to_cleaning_phase n
        in perform_final_pipe_cleanup E I (inproc_connections_to_cleanup (coordinator_of n)) n)
     else n)"

definition initiate_core_shutdown :: "core_env \<Rightarrow> 'l ISocket \<Rightarrow> 'l node \<Rightarrow> 'l node" where
  "initiate_core_shutdown E I n =
    (if phase_of n \<noteq> Running then n
     else
       (let n = with_coordinator (\<lambda>c. fst (begin_shutdown_sequence (state_of n) c)) n;
            child_actors_to_stop = pending_child_actors (coordinator_of n);
            connections_to_close = pending_connections_to_close (coordinator_of n);
            n = stop_child_listener_actors E child_actors_to_stop n;
            n = close_active_connections E connections_to_close n
        in if none_pending (coordinator_of n) then
             (let n = with_coordinator (\<lambda>c. c\<lparr>shutdown_state := Lingering\<rparr>) n;
                  n = with_coordinator (start_linger_if_needed (clock E) (linger (options (state_of n)))) n
              in finish_linger E I n)
           else with_coordinator (\<lambda>c. c\<lparr>shutdown_state := StoppingChildren\<rparr>) n))"

text \<open>
  The default of \<^verbatim>\<open>reconnect_states.entry(uri)\<close> and the next attempt, as both handlers of a lost connection compute it.
\<close>

definition schedule_reconnect :: "nat \<Rightarrow> uri \<Rightarrow> CoreState \<Rightarrow> CoreState" where
  "schedule_reconnect now target_uri cs =
    (let base = (case reconnect_ivl (options cs) of Some d \<Rightarrow> d | None \<Rightarrow> 100);
         max_ivl = (case reconnect_ivl_max (options cs) of Some d \<Rightarrow> d | None \<Rightarrow> 60000);
         recon_state = (case map_of (reconnect_states cs) target_uri of Some r \<Rightarrow> r | None \<Rightarrow> reconnect_default)
     in cs\<lparr>reconnect_states :=
          alist_put target_uri (fst (on_connection_failure now base max_ivl recon_state)) (reconnect_states cs)\<rparr>)"

definition handle_actor_stopping_event ::
  "core_env \<Rightarrow> 'l ISocket \<Rightarrow> nat \<Rightarrow> ActorType \<Rightarrow> uri option \<Rightarrow> actor_error option \<Rightarrow> 'l node \<Rightarrow> 'l node" where
  "handle_actor_stopping_event E I stopped_id stopped_type endpoint_uri_opt error_opt n =
    (case cleanup_stopped_child_resources E I stopped_id endpoint_uri_opt error_opt False n of
       (n, should_consider_reconnect) \<Rightarrow>
         (case phase_of n of
            Running \<Rightarrow>
              (case endpoint_uri_opt of
                 Some target_uri \<Rightarrow>
                   if should_consider_reconnect then with_state (schedule_reconnect (clock E) target_uri) n else n
               | None \<Rightarrow> n)
          | StoppingChildren \<Rightarrow>
              (case (case stopped_type of
                       ListenerActor \<Rightarrow> record_child_actor_stopped stopped_id (coordinator_of n)
                     | SessionActor \<Rightarrow> record_connection_closed stopped_id (coordinator_of n)
                     | _ \<Rightarrow> (coordinator_of n, False)) of
                 (c, was_last_pending) \<Rightarrow>
                   let n = with_coordinator (\<lambda>_. c) n
                   in if was_last_pending then
                        with_coordinator (start_linger_if_needed (clock E) (linger (options (state_of n))))
                          (with_coordinator (\<lambda>c. c\<lparr>shutdown_state := Lingering\<rparr>) n)
                      else n)
          | _ \<Rightarrow> n))"

definition check_and_advance_linger :: "core_env \<Rightarrow> 'l ISocket \<Rightarrow> 'l node \<Rightarrow> 'l node \<times> unit res" where
  "check_and_advance_linger E I n =
    (if phase_of n \<noteq> Lingering then (n, Inr ())
     else
       (let linger_opt = linger (options (state_of n));
            n = (if linger_deadline (coordinator_of n) = None \<and> linger_opt \<noteq> Some 0
                 then with_coordinator (start_linger_if_needed (clock E) linger_opt) n else n)
        in (finish_linger E I n, Inr ())))"

end
