(* ===== verification/Core_Events.thy ===== *)
theory Core_Events
  imports Core_Shutdown
begin

text \<open>
  What a socket core does with system events (\<^verbatim>\<open>core/src/socket/core/event_processor.rs\<close>) and with the
  commands of the application (\<^verbatim>\<open>core/src/socket/core/command_processor.rs\<close>), and the in-process transport
  (\<^verbatim>\<open>core/src/transport/inproc.rs\<close>), for a build without io_uring.

  A reply to the application is an effect of the node.  Listeners and connecters are tasks outside the
  node: opening a listener gives the result that the environment has for it, spawning a connecter is an
  effect.
\<close>

section \<open>The in-process transport\<close>

definition bind_inproc :: "string \<Rightarrow> 'l node \<Rightarrow> 'l node \<times> unit res" where
  "bind_inproc name n =
    (case register_inproc name (core_handle (state_of n)) (nd_context n) of
       (c, Inl e) \<Rightarrow> (n\<lparr>nd_context := c\<rparr>, Inl e)
     | (c, Inr _) \<Rightarrow>
         (with_state (\<lambda>cs. cs\<lparr>bound_inproc_names := List.insert name (bound_inproc_names cs)\<rparr>) (n\<lparr>nd_context := c\<rparr>), Inr ()))"

definition unbind_inproc :: "string \<Rightarrow> 'l node \<Rightarrow> 'l node" where
  "unbind_inproc name n = n\<lparr>nd_context := unregister_inproc name (nd_context n)\<rparr>"

text \<open>
  A connect up to the request that it publishes: the pipes get two fresh identifiers, the endpoint another
  one.  A task spawned for it forwards what arrives on the pipe to the pattern.
\<close>

definition inproc_endpoint ::
  "uri \<Rightarrow> uri \<Rightarrow> nat \<Rightarrow> nat \<Rightarrow> nat \<Rightarrow> nat \<Rightarrow> bool \<Rightarrow> CoreState \<Rightarrow> EndpointInfo" where
  "inproc_endpoint u peer write_id read_id entry_id data_tx outbound cs =
    \<lparr>ep_mailbox = core_handle cs, task_handle = None, endpoint_type = Session, endpoint_uri = u,
     pipe_ids = Some (write_id, read_id), handle_id = entry_id, target_endpoint_uri = Some u,
     is_outbound_connection = outbound, peer_socket_type = None,
     connection_iface = Inproc \<lparr>connection_id = entry_id, local_pipe_write_id_to_peer = write_id,
       local_pipe_read_id_from_peer = read_id, peer_inproc_name_or_uri = peer, data_tx_to_peer = data_tx,
       inproc_monitor_tx = monitor_tx cs, inproc_socket_options = options cs\<rparr>\<rparr>"

definition add_endpoint :: "uri \<Rightarrow> EndpointInfo \<Rightarrow> CoreState \<Rightarrow> CoreState" where
  "add_endpoint u ep cs = cs\<lparr>endpoints := alist_put u ep (endpoints cs)\<rparr>"

definition map_read_pipe :: "nat \<Rightarrow> uri \<Rightarrow> CoreState \<Rightarrow> CoreState" where
  "map_read_pipe read_id u cs =
    cs\<lparr>pipe_read_id_to_endpoint_uri := alist_put read_id u (pipe_read_id_to_endpoint_uri cs)\<rparr>"

definition add_pipe_tx :: "nat \<Rightarrow> nat \<Rightarrow> CoreState \<Rightarrow> CoreState" where
  "add_pipe_tx write_id sender cs = cs\<lparr>pipes_tx := alist_put write_id sender (pipes_tx cs)\<rparr>"

definition abandon_inproc :: "string \<Rightarrow> nat \<Rightarrow> nat \<Rightarrow> 'l node \<Rightarrow> 'l node" where
  "abandon_inproc name write_id read_id n =
    drop_pipe_state write_id read_id
      (with_state (\<lambda>cs. cs\<lparr>endpoints := alist_del (inproc_uri name) (endpoints cs)\<rparr>) n)"

definition not_bound_message :: "string \<Rightarrow> string" where
  "not_bound_message name = ''Inproc endpoint '' @ [CHR 0x27] @ name @ [CHR 0x27] @ '' not bound or not found''"

definition connect_inproc :: "core_env \<Rightarrow> string \<Rightarrow> 'l node \<Rightarrow> 'l node" where
  "connect_inproc E name n =
    (case lookup_inproc name (nd_context n) of
       None \<Rightarrow> emit [Replied (Inl (ConnectionRefused (not_bound_message name)))]
         (monitor (ConnectFailed (inproc_uri name)) n)
     | Some _ \<Rightarrow>
         if \<not> logic_alive E then emit [Replied (Inl Internal), PublishedConnectionAttemptFailed (inproc_uri name) Internal] n
         else
         (case fresh_handle n of (n, write_id) \<Rightarrow>
          case fresh_handle n of (n, read_id) \<Rightarrow>
            let n = with_state (add_pipe_tx write_id write_id) n;
                n = emit [ForwarderSpawned read_id read_id] n
            in (case fresh_handle n of (n, entry_id) \<Rightarrow>
                  let u = inproc_uri name;
                      n = with_state (\<lambda>cs. map_read_pipe read_id u
                            (add_endpoint u (inproc_endpoint u u write_id read_id entry_id write_id True cs) cs)) n
                  in if bus_open E then
                       emit [PublishedInprocBindingRequest name u read_id write_id read_id]
                         (n\<lparr>nd_tasks := nd_tasks n @ [AwaitBinder name write_id read_id (monitor_tx (state_of n))]\<rparr>)
                     else emit [Replied (Inl Internal)] (abandon_inproc name write_id read_id n))))"

text \<open>The answer of the binder; \<open>None\<close> when it dropped the request.\<close>

definition connect_inproc_reply ::
  "core_env \<Rightarrow> 'l ISocket \<Rightarrow> string \<Rightarrow> nat \<Rightarrow> nat \<Rightarrow> bool \<Rightarrow> unit res option \<Rightarrow> 'l node \<Rightarrow> 'l node option" where
  "connect_inproc_reply E I name write_id read_id monitored answer n =
    (let failed = (\<lambda>e. emit ((if monitored then [Monitored (ConnectFailed (inproc_uri name))] else []) @ [Replied (Inl e)])
                     (abandon_inproc name write_id read_id n))
     in case answer of
          Some (Inr _) \<Rightarrow>
            (let n = emit (if monitored then [Monitored (Connected (inproc_uri name))] else []) n
             in map_option (emit [Replied (Inr ())])
                  (if logic_alive E then attach_pipe I read_id write_id n else Some n))
        | Some (Inl e) \<Rightarrow> Some (failed e)
        | None \<Rightarrow> Some (failed Internal))"

definition disconnect_inproc :: "core_env \<Rightarrow> 'l ISocket \<Rightarrow> uri \<Rightarrow> 'l node \<Rightarrow> 'l node \<times> unit res" where
  "disconnect_inproc E I u n =
    (let name = (case strip_prefix ''inproc://'' u of Some name \<Rightarrow> name | None \<Rightarrow> [])
     in if name = [] then (n, Inl (InvalidEndpoint u))
        else
          (case map_of (endpoints (state_of n)) u of
             None \<Rightarrow> (n, Inr ())
           | Some info \<Rightarrow>
               (case pipe_ids info of
                  None \<Rightarrow>
                    (with_state (add_endpoint u info) (with_state (\<lambda>cs. cs\<lparr>endpoints := alist_del u (endpoints cs)\<rparr>) n),
                     Inl Internal)
                | Some (write_id, read_id) \<Rightarrow>
                    (let n = with_state (\<lambda>cs. cs\<lparr>endpoints := alist_del u (endpoints cs)\<rparr>) n;
                         n = emit [PublishedInprocPipePeerClosed name read_id] n;
                         pipes_were_removed = snd (snd (remove_pipe_state write_id read_id (state_of n)));
                         n = drop_pipe_state write_id read_id n;
                         n = (case task_handle info of Some h \<Rightarrow> emit [TaskAborted h] n | None \<Rightarrow> n);
                         n = (if pipes_were_removed \<and> logic_alive E then detach_pipe I read_id n else n)
                     in (monitor (Disconnected u) n, Inr ())))))"

text \<open>The binder's side: a request for one of its names, and the end of a connector's pipe.\<close>

definition process_inproc_binding_request_event ::
  "'l ISocket \<Rightarrow> uri \<Rightarrow> nat \<Rightarrow> nat \<Rightarrow> nat \<Rightarrow> 'l node \<Rightarrow> ('l node \<times> unit res) option" where
  "process_inproc_binding_request_event I connector_uri pipe_tx write_id read_id n =
    (let n = emit [ForwarderSpawned read_id read_id] n
     in case fresh_handle n of (n, entry_id) \<Rightarrow>
          let n = with_state (\<lambda>cs. map_read_pipe read_id connector_uri
                    (add_endpoint connector_uri
                      (inproc_endpoint connector_uri connector_uri write_id read_id entry_id pipe_tx False cs)
                      (add_pipe_tx write_id pipe_tx cs))) n;
              n = monitor (Accepted connector_uri) n
          in map_option (\<lambda>n. (emit [InprocReplied (Inr ())] n, Inr ())) (attach_pipe I read_id write_id n))"

definition handle_inproc_pipe_peer_closed_event :: "'l ISocket \<Rightarrow> nat \<Rightarrow> 'l node \<Rightarrow> 'l node" where
  "handle_inproc_pipe_peer_closed_event I closed_connector_read_id n =
    (case find (\<lambda>(_, ep_info). endpoint_type ep_info = Session \<and>
                  map_option fst (pipe_ids ep_info) = Some closed_connector_read_id) (endpoints (state_of n)) of
       Some (_, ep_info) \<Rightarrow>
         (case pipe_ids ep_info of
            Some (_, read_id) \<Rightarrow> fst (cleanup_session_state_by_pipe I read_id n)
          | None \<Rightarrow> n)
     | None \<Rightarrow> n)"


section \<open>System events\<close>

datatype ConnectionInteractionModel = ViaSca nat nat | ViaUringFd

datatype SystemEvent =
    CtxTerminating
  | SockClosing nat
  | ActorStarted nat ActorType "nat option"
  | ActorStopping nat ActorType "uri option" "nat option" "actor_error option"
  | NewConnectionEstablished nat uri uri "ISocketConnection option" ConnectionInteractionModel
  | PeerIdentityKnown nat nat "Blob option" "string option"
  | ConnectionAttemptFailed nat uri actor_error
  | InprocBindingRequest string uri nat nat nat
  | InprocPipePeerClosed string nat

definition handle_connect_failed_event :: "core_env \<Rightarrow> uri \<Rightarrow> actor_error \<Rightarrow> 'l node \<Rightarrow> 'l node" where
  "handle_connect_failed_event E target_uri error n =
    (let n = monitor (ConnectFailed target_uri) n;
         should_reconnect = ((case reconnect_ivl (options (state_of n)) of Some d \<Rightarrow> d \<noteq> 0 | None \<Rightarrow> False) \<and>
           \<not> is_fatal_connect_error error)
     in if should_reconnect then with_state (schedule_reconnect (clock E) target_uri) n else n)"

definition handle_new_connection_established ::
  "core_env \<Rightarrow> 'l ISocket \<Rightarrow> uri \<Rightarrow> uri \<Rightarrow> ConnectionInteractionModel \<Rightarrow> 'l node \<Rightarrow> ('l node \<times> unit res) option" where
  "handle_new_connection_established E I u target_uri model n =
    (let is_outbound = \<not> list_ex (\<lambda>(_, ep). endpoint_type ep = Listener \<and> endpoint_uri ep = target_uri) (endpoints (state_of n))
     in case model of
          ViaUringFd \<Rightarrow> Some (n, Inl Internal)
        | ViaSca sca_mailbox sca_handle \<Rightarrow>
            (case fresh_handle n of (n, core_write_id) \<Rightarrow>
             case fresh_handle n of (n, core_read_id) \<Rightarrow>
               if \<not> open_mailbox E sca_mailbox then Some (n, Inl Internal)
               else
                 (let n = emit [InitializePipesSent sca_mailbox core_write_id core_read_id] n;
                      sca_iface = Sca \<lparr>sca_stop_mailbox = sca_mailbox, sca_handle_id = sca_handle, pipe_sender = core_write_id,
                        pipe_write_id_to_sca = core_write_id, sca_sndtimeo = sndtimeo (options (state_of n))\<rparr>;
                      ep = \<lparr>ep_mailbox = sca_mailbox, task_handle = None, endpoint_type = Session, endpoint_uri = u,
                        pipe_ids = Some (core_write_id, core_read_id), handle_id = sca_handle,
                        target_endpoint_uri = Some target_uri, is_outbound_connection = is_outbound,
                        peer_socket_type = None, connection_iface = sca_iface\<rparr>;
                      old_info = map_of (endpoints (state_of n)) u;
                      n = with_state (\<lambda>cs. add_endpoint u ep (add_pipe_tx core_write_id core_write_id cs)) n;
                      n = (case old_info of
                             Some old \<Rightarrow>
                               (case task_handle old of Some h \<Rightarrow> emit [TaskAborted h] | None \<Rightarrow> id)
                                 (close_iface E (connection_iface old) n)
                           | None \<Rightarrow> n);
                      n = with_state (map_read_pipe core_read_id u) n
                  in map_option (\<lambda>n. (n, Inr ())) (attach_pipe I core_read_id core_write_id n))))"

text \<open>The handshake of a session is complete: its peer's type and identity are known, its back-off starts over.\<close>

definition establish_peer :: "'l ISocket \<Rightarrow> nat \<Rightarrow> Blob option \<Rightarrow> string option \<Rightarrow> 'l node \<Rightarrow> 'l node" where
  "establish_peer I pipe_read_id peer_identity peer_type n =
    (let n = (case map_of (pipe_read_id_to_endpoint_uri (state_of n)) pipe_read_id of
                None \<Rightarrow> n
              | Some u \<Rightarrow>
                  with_state (\<lambda>cs. cs\<lparr>
                    endpoints := map (\<lambda>(k, ep). (k, if k = u then ep\<lparr>peer_socket_type := peer_type\<rparr> else ep)) (endpoints cs),
                    reconnect_states :=
                      map (\<lambda>(k, r). (k, if k = u then on_connection_success r else r)) (reconnect_states cs)\<rparr>) n)
     in n\<lparr>nd_logic := isock_update_peer_identity I (nd_core n) pipe_read_id peer_identity (nd_logic n)\<rparr>)"

fun process_system_event ::
  "core_env \<Rightarrow> 'l ISocket \<Rightarrow> SystemEvent \<Rightarrow> 'l node \<Rightarrow> ('l node \<times> unit res) option" where
  "process_system_event E I CtxTerminating n = Some (initiate_core_shutdown E I n, Inr ())"
| "process_system_event E I (SockClosing socket_id) n =
    Some (if socket_id = core_handle (state_of n) then initiate_core_shutdown E I n else n, Inr ())"
| "process_system_event E I (ActorStopping child actor_type uri_opt parent error_opt) n =
    Some (if parent = Some (core_handle (state_of n))
          then handle_actor_stopping_event E I child actor_type uri_opt error_opt n else n, Inr ())"
| "process_system_event E I (NewConnectionEstablished parent u target_uri iface_opt model) n =
    (if parent \<noteq> core_handle (state_of n) then Some (n, Inr ())
     else if phase_of n = Running then handle_new_connection_established E I u target_uri model n
     else
       (let n = (case iface_opt of Some iface \<Rightarrow> close_iface E iface n | None \<Rightarrow> n)
        in Some (case model of
                   ViaSca sca_mailbox _ \<Rightarrow> if open_mailbox E sca_mailbox then emit [StopSent sca_mailbox] n else n
                 | ViaUringFd \<Rightarrow> n, Inr ())))"
| "process_system_event E I (PeerIdentityKnown parent pipe_read_id peer_identity peer_type) n =
    Some (if parent = core_handle (state_of n) \<and> phase_of n = Running
          then establish_peer I pipe_read_id peer_identity peer_type n else n, Inr ())"
| "process_system_event E I (ConnectionAttemptFailed parent target_uri error) n =
    Some (if parent = core_handle (state_of n) then handle_connect_failed_event E target_uri error n else n, Inr ())"
| "process_system_event E I (InprocBindingRequest name connector_uri pipe_tx connector_write_id connector_read_id) n =
    (if name \<notin> set (bound_inproc_names (state_of n)) then Some (n, Inr ())
     else if phase_of n = Running
     then process_inproc_binding_request_event I connector_uri pipe_tx connector_read_id connector_write_id n
     else Some (emit [InprocReplied (Inl InvalidState)] n, Inr ()))"
| "process_system_event E I (InprocPipePeerClosed name closed_read_id) n =
    Some (if name \<in> set (bound_inproc_names (state_of n))
          then handle_inproc_pipe_peer_closed_event I closed_read_id n else n, Inr ())"
| "process_system_event E I (ActorStarted h actor_type parent) n = Some (n, Inr ())"


section \<open>Commands\<close>

datatype Command =
    UserBind uri
  | UserConnect uri
  | UserDisconnect uri
  | UserUnbind uri
  | UserSend Msg
  | UserRecv
  | UserSetOpt int bytes
  | UserGetOpt int
  | UserMonitor
  | UserClose
  | StopCore
  | UnexpectedCommand

definition reply_to :: "unit res \<Rightarrow> 'l node \<Rightarrow> 'l node" where
  "reply_to r n = emit [Replied r] n"

text \<open>Opening a listener is the same for TCP and IPC addresses.\<close>

definition bind_listener :: "core_env \<Rightarrow> uri \<Rightarrow> 'l node \<Rightarrow> 'l node \<times> uri res" where
  "bind_listener E u n =
    (if map_of (endpoints (state_of n)) u \<noteq> None then (n, Inl (AddrInUse u))
     else
       (case fresh_handle n of (n, child) \<Rightarrow>
          (case open_listener E u of
             Inl e \<Rightarrow> (n, Inl e)
           | Inr (mb, task, resolved_uri) \<Rightarrow>
               (let n = emit [ListenerSpawned resolved_uri child] n
                in if map_of (endpoints (state_of n)) resolved_uri \<noteq> None
                   then (emit [TaskAborted task] n, Inl (AddrInUse resolved_uri))
                   else
                     (with_state (add_endpoint resolved_uri
                        \<lparr>ep_mailbox = mb, task_handle = Some task, endpoint_type = Listener, endpoint_uri = resolved_uri,
                         pipe_ids = None, handle_id = child, target_endpoint_uri = None, is_outbound_connection = False,
                         peer_socket_type = None, connection_iface = Dummy\<rparr>) n, Inr resolved_uri)))))"

definition handle_user_bind :: "core_env \<Rightarrow> uri \<Rightarrow> 'l node \<Rightarrow> 'l node" where
  "handle_user_bind E u n =
    (case (case parse_endpoint u of
             Inr (Tcp _ u') \<Rightarrow> bind_listener E u' n
           | Inr (Ipc _ u') \<Rightarrow> bind_listener E u' n
           | Inr (InprocName name) \<Rightarrow>
               if name \<in> set (bound_inproc_names (state_of n)) then (n, Inl (AddrInUse (inproc_uri name)))
               else if lookup_inproc name (nd_context n) \<noteq> None
               then (n, Inl (AddrInUse (inproc_uri name @ '' (globally)'')))
               else (case bind_inproc name n of (n, r) \<Rightarrow> (n, case r of Inr _ \<Rightarrow> Inr (inproc_uri name) | Inl e \<Rightarrow> Inl e))
           | Inl e \<Rightarrow> (n, Inl e)) of
       (n, Inr actual_uri) \<Rightarrow>
         reply_to (Inr ()) (monitor (Listening actual_uri)
           (with_state (\<lambda>cs. cs\<lparr>last_bound_endpoint := Some actual_uri\<rparr>) n))
     | (n, Inl e) \<Rightarrow> reply_to (Inl e) (monitor (BindFailed u) n))"

definition respawn_connecter_actor :: "uri \<Rightarrow> 'l node \<Rightarrow> 'l node" where
  "respawn_connecter_actor target_uri n =
    (case parse_endpoint target_uri of
       Inr (Tcp _ _) \<Rightarrow>
         (let attempts = (case map_of (reconnect_states (state_of n)) target_uri of Some s \<Rightarrow> current_attempts s | None \<Rightarrow> 0)
          in case fresh_handle n of (n, _) \<Rightarrow> emit [ConnecterSpawned target_uri attempts] n)
     | Inr (Ipc _ _) \<Rightarrow> (case fresh_handle n of (n, _) \<Rightarrow> emit [ConnecterSpawned target_uri 0] n)
     | Inr (InprocName _) \<Rightarrow> n
     | Inl err \<Rightarrow> emit [PublishedConnectionAttemptFailed target_uri err] n)"

definition handle_user_connect :: "uri \<Rightarrow> 'l node \<Rightarrow> 'l node" where
  "handle_user_connect u n =
    (case parse_endpoint u of
       Inr (Tcp _ u') \<Rightarrow> reply_to (Inr ()) (respawn_connecter_actor u' n)
     | Inr (Ipc _ u') \<Rightarrow> reply_to (Inr ()) (respawn_connecter_actor u' n)
     | Inr (InprocName name) \<Rightarrow> n\<lparr>nd_tasks := nd_tasks n @ [ConnectInproc name]\<rparr>
     | Inl e \<Rightarrow> reply_to (Inl e) n)"

definition session_to_close :: "uri \<Rightarrow> CoreState \<Rightarrow> ISocketConnection option" where
  "session_to_close u cs =
    (case map_of (endpoints cs) u of
       Some ep \<Rightarrow> if endpoint_type ep = Session then Some (connection_iface ep) else None
     | None \<Rightarrow>
         map_option (\<lambda>(_, ep). connection_iface ep)
           (find (\<lambda>(_, ep). endpoint_type ep = Session \<and> target_endpoint_uri ep = Some u) (endpoints cs)))"

definition handle_user_disconnect :: "core_env \<Rightarrow> 'l ISocket \<Rightarrow> uri \<Rightarrow> 'l node \<Rightarrow> 'l node" where
  "handle_user_disconnect E I u n =
    (case session_to_close u (state_of n) of
       Some iface \<Rightarrow> reply_to (snd (close_connection (open_mailbox E) iface)) (close_iface E iface n)
     | None \<Rightarrow>
         if strip_prefix ''inproc://'' u \<noteq> None
         then (case disconnect_inproc E I u n of (n, r) \<Rightarrow> reply_to r n)
         else reply_to (Inl InvalidArgument) n)"

definition handle_user_unbind :: "core_env \<Rightarrow> uri \<Rightarrow> 'l node \<Rightarrow> 'l node" where
  "handle_user_unbind E u n =
    (case Option.bind (map_of (endpoints (state_of n)) u) (\<lambda>ep. if endpoint_type ep = Listener then Some (ep_mailbox ep) else None) of
       Some listener_mailbox \<Rightarrow>
         reply_to (Inr ()) (if open_mailbox E listener_mailbox then emit [StopSent listener_mailbox] n else n)
     | None \<Rightarrow>
         (case strip_prefix ''inproc://'' u of
            Some name_part \<Rightarrow>
              if name_part = [] then reply_to (Inl (InvalidEndpoint u)) n
              else if name_part \<in> set (bound_inproc_names (state_of n)) then
                (let n = with_state (\<lambda>cs. cs\<lparr>bound_inproc_names := removeAll name_part (bound_inproc_names cs)\<rparr>) n;
                     n = unbind_inproc name_part n
                 in reply_to (Inr ()) (monitor (EndpointClosed u) n))
              else reply_to (Inl InvalidArgument) n
          | None \<Rightarrow> reply_to (Inl InvalidArgument) n))"

definition update_core_option :: "(SocketOptions \<Rightarrow> SocketOptions res) \<Rightarrow> 'l node \<Rightarrow> 'l node \<times> unit res" where
  "update_core_option applier n =
    (case applier (options (state_of n)) of
       Inr opts \<Rightarrow> (with_state (\<lambda>cs. cs\<lparr>options := opts\<rparr>) n, Inr ())
     | Inl e \<Rightarrow> (n, Inl e))"

definition handle_set_option :: "'l ISocket \<Rightarrow> int \<Rightarrow> bytes \<Rightarrow> 'l node \<Rightarrow> ('l node \<times> unit res) option" where
  "handle_set_option I opt v n =
    (case isock_set_pattern_option I (nd_core n) opt v (nd_logic n) of
       None \<Rightarrow> None
     | Some (opts, l, r) \<Rightarrow>
         (let n = (with_state (\<lambda>cs. cs\<lparr>options := opts\<rparr>) n)\<lparr>nd_logic := l\<rparr>
          in case r of
               Inr _ \<Rightarrow> Some (n, Inr ())
             | Inl (UnsupportedOption _) \<Rightarrow> Some (update_core_option (\<lambda>opts. apply_core_option_value opts opt v) n)
             | Inl e \<Rightarrow> Some (n, Inl e)))"

definition handle_get_option :: "'l ISocket \<Rightarrow> int \<Rightarrow> 'l node \<Rightarrow> bytes res" where
  "handle_get_option I opt n =
    (case isock_get_pattern_option I (nd_core n) opt (nd_logic n) of
       Inr v \<Rightarrow> Inr v
     | Inl (UnsupportedOption _) \<Rightarrow> retrieve_core_option_value (options (state_of n)) (last_bound_endpoint (state_of n))
         (core_socket_type (state_of n)) opt
     | Inl e \<Rightarrow> Inl e)"

definition handle_user_monitor :: "'l node \<Rightarrow> 'l node" where
  "handle_user_monitor n = reply_to (Inr ()) (with_state (\<lambda>cs. cs\<lparr>monitor_tx := True\<rparr>) n)"

fun process_command_during_shutdown :: "core_env \<Rightarrow> 'l ISocket \<Rightarrow> Command \<Rightarrow> 'l node \<Rightarrow> 'l node" where
  "process_command_during_shutdown E I UserClose n = reply_to (Inr ()) (initiate_core_shutdown E I n)"
| "process_command_during_shutdown E I StopCore n = initiate_core_shutdown E I n"
| "process_command_during_shutdown E I UserRecv n = emit [RepliedMsg (Inl InvalidState)] n"
| "process_command_during_shutdown E I (UserGetOpt opt) n = emit [RepliedValue (Inl InvalidState)] n"
| "process_command_during_shutdown E I (UserSend msg) n = n"
| "process_command_during_shutdown E I UnexpectedCommand n = n"
| "process_command_during_shutdown E I _ n = reply_to (Inl InvalidState) n"

fun process_running_command :: "core_env \<Rightarrow> 'l ISocket \<Rightarrow> Command \<Rightarrow> 'l node \<Rightarrow> 'l node option" where
  "process_running_command E I (UserBind u) n = Some (handle_user_bind E u n)"
| "process_running_command E I (UserConnect u) n = Some (handle_user_connect u n)"
| "process_running_command E I (UserDisconnect u) n = Some (handle_user_disconnect E I u n)"
| "process_running_command E I (UserUnbind u) n = Some (handle_user_unbind E u n)"
| "process_running_command E I (UserSend msg) n =
    map_option (\<lambda>(l, _). n\<lparr>nd_logic := l\<rparr>) (isock_send I (nd_core n) msg (nd_logic n))"
| "process_running_command E I UserRecv n =
    map_option (\<lambda>(l, r). emit [RepliedMsg r] (n\<lparr>nd_logic := l\<rparr>)) (isock_recv I (nd_core n) (nd_logic n))"
| "process_running_command E I (UserSetOpt opt v) n = map_option (\<lambda>(n, r). reply_to r n) (handle_set_option I opt v n)"
| "process_running_command E I (UserGetOpt opt) n = Some (emit [RepliedValue (handle_get_option I opt n)] n)"
| "process_running_command E I UserMonitor n = Some (handle_user_monitor n)"
| "process_running_command E I UserClose n =
    Some (reply_to (Inr ()) (initiate_core_shutdown E I (publish_socket_closing_event n)))"
| "process_running_command E I StopCore n = Some (initiate_core_shutdown E I (publish_socket_closing_event n))"
| "process_running_command E I UnexpectedCommand n = Some n"

definition process_socket_command :: "core_env \<Rightarrow> 'l ISocket \<Rightarrow> Command \<Rightarrow> 'l node \<Rightarrow> ('l node \<times> unit res) option" where
  "process_socket_command E I cmd n =
    (if phase_of n \<noteq> Running then Some (process_command_during_shutdown E I cmd n, Inr ())
     else map_option (\<lambda>n. (n, Inr ())) (process_running_command E I cmd n))"

end
