(* ===== verification/Core_Loop.thy ===== *)
theory Core_Loop
  imports Core_Events
begin

text \<open>
  The command loop of a socket core (\<^verbatim>\<open>core/src/socket/core/command_loop.rs\<close>) as a relation between nodes, the
  invariant of the core's tables and how a socket ends.
\<close>

section \<open>The loop\<close>

text \<open>What an iteration takes: an event, a command, or a tick of the maintenance interval.\<close>

datatype core_input =
    Event SystemEvent
  | BusLagged
  | BusClosed
  | Cmd Command
  | MailboxClosed
  | Tick

definition fail_core :: "core_env \<Rightarrow> 'l ISocket \<Rightarrow> ZmqError \<Rightarrow> 'l node \<Rightarrow> 'l node" where
  "fail_core E I e n =
    (let n = n\<lparr>nd_error := Some e\<rparr> in if phase_of n = Running then initiate_core_shutdown E I n else n)"

text \<open>The reconnects that are due are taken off the table and started.\<close>

definition retry_due :: "core_env \<Rightarrow> 'l node \<Rightarrow> 'l node" where
  "retry_due E n =
    (let uris_to_retry = map fst (filter (\<lambda>(_, r). is_due (clock E) r) (reconnect_states (state_of n)));
         n = with_state (\<lambda>cs. cs\<lparr>reconnect_states :=
               map (\<lambda>(u, r). (u, if is_due (clock E) r then r\<lparr>next_attempt_at := None\<rparr> else r)) (reconnect_states cs)\<rparr>) n
     in fold respawn_connecter_actor uris_to_retry n)"

definition linger_tick :: "core_env \<Rightarrow> 'l ISocket \<Rightarrow> 'l node \<Rightarrow> 'l node" where
  "linger_tick E I n =
    (case check_and_advance_linger E I n of
       (n, Inr _) \<Rightarrow> n
     | (n, Inl e) \<Rightarrow>
         (let n = (if nd_error n = None then n\<lparr>nd_error := Some e\<rparr> else n)
          in if phase_of n = Lingering then
               (let n = with_coordinator advance_to_cleaning_phase n
                in perform_final_pipe_cleanup E I (inproc_connections_to_cleanup (coordinator_of n)) n)
             else n))"

fun reap :: "core_env \<Rightarrow> 'l ISocket \<Rightarrow> (uri \<times> nat) list \<Rightarrow> 'l node \<Rightarrow> 'l node" where
  "reap E I [] n = n"
| "reap E I ((u, expected) # dead) n =
    reap E I dead
      (if map_option handle_id (map_of (endpoints (state_of n)) u) \<noteq> Some expected then n
       else
         (case cleanup_stopped_child_resources E I expected (Some u) None False n of
            (n, should_reconnect) \<Rightarrow>
              if should_reconnect \<and> map_of (endpoints (state_of n)) u = None \<and> reconnect_ivl (options (state_of n)) \<noteq> None
              then with_state (schedule_reconnect (clock E) u) n else n))"

definition dead_endpoints :: "core_env \<Rightarrow> CoreState \<Rightarrow> (uri \<times> nat) list" where
  "dead_endpoints E cs =
    map (\<lambda>(u, info). (u, handle_id info))
      (filter (\<lambda>(_, info). case task_handle info of Some h \<Rightarrow> task_finished E h | None \<Rightarrow> False) (endpoints cs))"

definition maintenance :: "core_env \<Rightarrow> 'l ISocket \<Rightarrow> 'l node \<Rightarrow> 'l node" where
  "maintenance E I n =
    (let current_shutdown_phase = phase_of n;
         n = (if current_shutdown_phase = Running then retry_due E n else n);
         n = (if current_shutdown_phase = Lingering then linger_tick E I n else n)
     in reap E I (dead_endpoints E (state_of n)) n)"

fun loop_iteration :: "core_env \<Rightarrow> 'l ISocket \<Rightarrow> core_input \<Rightarrow> 'l node \<Rightarrow> 'l node option" where
  "loop_iteration E I (Event event) n =
    map_option (\<lambda>(n, r). case r of Inr _ \<Rightarrow> n | Inl e \<Rightarrow> fail_core E I e n) (process_system_event E I event n)"
| "loop_iteration E I BusLagged n = Some (if phase_of n = Running then fail_core E I Internal n else n)"
| "loop_iteration E I BusClosed n = Some (fail_core E I Internal n)"
| "loop_iteration E I (Cmd command) n =
    map_option (\<lambda>(n, r). case r of Inr _ \<Rightarrow> n | Inl e \<Rightarrow> fail_core E I e n) (process_socket_command E I command n)"
| "loop_iteration E I MailboxClosed n = Some (fail_core E I Internal n)"
| "loop_iteration E I Tick n = Some (maintenance E I n)"

text \<open>The loop breaks when the shutdown is finished; what follows then.\<close>

fun run_command_loop :: "'l ISocket \<Rightarrow> (core_env \<times> core_input) list \<Rightarrow> 'l node \<Rightarrow> 'l node option" where
  "run_command_loop I [] n = Some n"
| "run_command_loop I ((E, i) # is) n =
    (if phase_of n = Finished then Some n else Option.bind (loop_iteration E I i n) (run_command_loop I is))"

definition after_loop :: "'l ISocket \<Rightarrow> 'l node \<Rightarrow> 'l node" where
  "after_loop I n =
    (let n = (case isock_stop I (nd_core n) (nd_logic n) of
                (l, r) \<Rightarrow> n\<lparr>nd_logic := l, nd_error := (case r of Inl e \<Rightarrow> if nd_error n = None then Some e else nd_error n | Inr _ \<Rightarrow> nd_error n)\<rparr>);
         n = with_coordinator (\<lambda>c. if shutdown_state c \<noteq> Finished then c\<lparr>shutdown_state := Finished\<rparr> else c) n;
         n = n\<lparr>nd_context := unregister_socket (core_handle (state_of n)) (nd_context n)\<rparr>;
         names = bound_inproc_names (state_of n);
         n = with_state (\<lambda>cs. cs\<lparr>bound_inproc_names := []\<rparr>) n;
         n = n\<lparr>nd_context := fold unregister_inproc names (nd_context n)\<rparr>
     in emit [PublishedActorStopping (core_handle (state_of n)) (nd_error n)] n)"

end
