(* ===== verification/Core_Life.thy ===== *)
theory Core_Life
  imports Core_Loop
begin

text \<open>
  The life of a socket core: what holds of its tables in every state it reaches, that a shutdown only winds
  down and comes to its end, and what becomes of a lost connection.
\<close>

section \<open>What the operations leave alone\<close>

text \<open>The part of a node that the shutdown sequence goes by.\<close>

definition standing :: "'l node \<Rightarrow> ShutdownCoordinator \<times> SocketOptions \<times> nat" where
  "standing n = (coordinator_of n, options (state_of n), core_handle (state_of n))"

lemma remove_pipe_state_simps [simp]:
  "endpoints (fst (remove_pipe_state w r cs)) = endpoints cs"
  "options (fst (remove_pipe_state w r cs)) = options cs"
  "core_handle (fst (remove_pipe_state w r cs)) = core_handle cs"
  "reconnect_states (fst (remove_pipe_state w r cs)) = reconnect_states cs"
  "bound_inproc_names (fst (remove_pipe_state w r cs)) = bound_inproc_names cs"
  "pipes_tx (fst (remove_pipe_state w r cs)) = alist_del w (pipes_tx cs)"
  "pipe_read_id_to_endpoint_uri (fst (remove_pipe_state w r cs)) = alist_del r (pipe_read_id_to_endpoint_uri cs)"
  "pipe_reader_task_handles (fst (remove_pipe_state w r cs)) = alist_del r (pipe_reader_task_handles cs)"
  "monitor_tx (fst (remove_pipe_state w r cs)) = monitor_tx cs"
  by (simp_all add: remove_pipe_state_def Let_def)

lemma schedule_reconnect_simps [simp]:
  "endpoints (schedule_reconnect t u cs) = endpoints cs"
  "options (schedule_reconnect t u cs) = options cs"
  "core_handle (schedule_reconnect t u cs) = core_handle cs"
  "pipes_tx (schedule_reconnect t u cs) = pipes_tx cs"
  "pipe_read_id_to_endpoint_uri (schedule_reconnect t u cs) = pipe_read_id_to_endpoint_uri cs"
  "pipe_reader_task_handles (schedule_reconnect t u cs) = pipe_reader_task_handles cs"
  by (simp_all add: schedule_reconnect_def Let_def)

lemma fold_keeps:
  assumes "\<And>x n. f (g x n) = f n"
  shows "f (fold g xs n) = f n"
  by (induction xs arbitrary: n) (simp_all add: assms)

lemma cleanup_standing [simp]: "standing (fst (cleanup_stopped_child_resources E I c u e b n)) = standing n"
  by (auto simp: cleanup_stopped_child_resources_def standing_def node_simps Let_def split: option.split)

lemma cleanup_by_pipe_standing [simp]: "standing (fst (cleanup_session_state_by_pipe I r n)) = standing n"
  by (auto simp: cleanup_session_state_by_pipe_def standing_def node_simps Let_def split: option.split)

lemma handle_inproc_closed_standing [simp]: "standing (handle_inproc_pipe_peer_closed_event I r n) = standing n"
  by (simp add: handle_inproc_pipe_peer_closed_event_def split: option.split prod.split)

lemma connect_failed_standing [simp]: "standing (handle_connect_failed_event E u e n) = standing n"
  by (simp add: handle_connect_failed_event_def standing_def node_simps Let_def)

lemma emit_standing [simp]: "standing (emit es n) = standing n"
  and monitor_standing [simp]: "standing (monitor e n) = standing n"
  and close_iface_standing [simp]: "standing (close_iface E c n) = standing n"
  and detach_standing [simp]: "standing (detach_pipe I r n) = standing n"
  by (simp_all add: standing_def node_simps)

lemma schedule_standing [simp]: "standing (with_state (schedule_reconnect t u) n) = standing n"
  by (simp add: standing_def node_simps)

lemma reap_standing [simp]: "standing (reap E I dead n) = standing n"
proof (induction dead arbitrary: n)
  case Nil
  then show ?case by simp
next
  case (Cons d dead)
  obtain u x where d: "d = (u, x)" by fastforce
  obtain n' b where n': "cleanup_stopped_child_resources E I x (Some u) None False n = (n', b)" by fastforce
  have "standing n' = standing n" using cleanup_standing [of E I x "Some u" None False n] n' by simp
  then show ?case using Cons by (simp add: d n')
qed

lemma respawn_standing [simp]: "standing (respawn_connecter_actor u n) = standing n"
  by (auto simp: respawn_connecter_actor_def standing_def node_simps Let_def split: sum.split Endpoint.split)

lemma retry_due_standing [simp]: "standing (retry_due E n) = standing n"
proof -
  have "standing (with_state (\<lambda>cs. cs\<lparr>reconnect_states := f cs\<rparr>) n) = standing n" for f
    by (simp add: standing_def node_simps)
  then show ?thesis by (simp add: retry_due_def fold_keeps Let_def)
qed

lemma standingD:
  assumes "standing n' = standing n"
  shows "coordinator_of n' = coordinator_of n" "options (state_of n') = options (state_of n)"
    "core_handle (state_of n') = core_handle (state_of n)"
  using assms by (simp_all add: standing_def)


section \<open>A shutdown takes its course\<close>

text \<open>What the coordinator makes of a report that a child has stopped.\<close>

definition note_stopped :: "core_env \<Rightarrow> 'l node \<Rightarrow> nat \<Rightarrow> ActorType \<Rightarrow> ShutdownCoordinator" where
  "note_stopped E n child actor_type =
    (if phase_of n \<noteq> StoppingChildren then coordinator_of n
     else
       (case (case actor_type of
                ListenerActor \<Rightarrow> record_child_actor_stopped child (coordinator_of n)
              | SessionActor \<Rightarrow> record_connection_closed child (coordinator_of n)
              | _ \<Rightarrow> (coordinator_of n, False)) of
          (c, True) \<Rightarrow> start_linger_if_needed (clock E) (linger (options (state_of n))) (c\<lparr>shutdown_state := Lingering\<rparr>)
        | (c, False) \<Rightarrow> c))"

lemma actor_stopping_standing:
  assumes "phase_of n \<noteq> Running"
  shows "standing (handle_actor_stopping_event E I child ty u e n) =
    (note_stopped E n child ty, options (state_of n), core_handle (state_of n))"
proof -
  obtain n' b where n': "cleanup_stopped_child_resources E I child u e False n = (n', b)" by fastforce
  then have st: "standing n' = standing n" using cleanup_standing [of E I child u e False n] by simp
  note st' = standingD [OF st]
  show ?thesis using assms st
    by (cases "phase_of n"; cases ty)
      (simp_all add: handle_actor_stopping_event_def n' note_stopped_def st' standing_def node_simps Let_def
        split: prod.split bool.split)
qed

lemma shutdown_iteration_kept:
  assumes "phase_of n \<noteq> Running" "phase_of n \<noteq> Lingering \<or> i \<noteq> Tick"
    and "\<And>c ty u e. i \<noteq> Event (ActorStopping c ty u (Some (core_handle (state_of n))) e)"
  shows "\<exists>n'. loop_iteration E I i n = Some n' \<and> standing n' = standing (n :: 'l node)"
proof (cases i)
  case (Event ev)
  have fc: "initiate_core_shutdown E I m = m" if "phase_of m \<noteq> Running" for m :: "'l node"
    using that by (simp add: initiate_core_shutdown_def)
  show ?thesis using assms fc by (cases ev) (auto simp: Event split: option.split ConnectionInteractionModel.split)
next
  case (Cmd c)
  have fc: "initiate_core_shutdown E I m = m" if "phase_of m \<noteq> Running" for m :: "'l node"
    using that by (simp add: initiate_core_shutdown_def)
  show ?thesis using assms fc by (cases c) (simp_all add: Cmd process_socket_command_def reply_to_def)
next
  case Tick
  then show ?thesis using assms by (simp add: maintenance_def)
qed (use assms in \<open>simp_all add: fail_core_def standing_def\<close>)


definition tables_empty :: "CoreState \<Rightarrow> bool" where
  "tables_empty cs \<longleftrightarrow> endpoints cs = [] \<and> pipes_tx cs = [] \<and> pipe_read_id_to_endpoint_uri cs = [] \<and>
    pipe_reader_task_handles cs = []"

definition cleared :: "CoreState \<Rightarrow> CoreState" where
  "cleared cs = cs\<lparr>endpoints := [], pipes_tx := [], pipe_read_id_to_endpoint_uri := [], pipe_reader_task_handles := []\<rparr>"

lemma cleared_simps [simp]: "tables_empty (cleared cs)" "options (cleared cs) = options cs"
  "core_handle (cleared cs) = core_handle cs"
  by (simp_all add: cleared_def tables_empty_def)

lemma final_cleanup:
  "phase_of (perform_final_pipe_cleanup E I ps n) = Finished"
  "state_of (perform_final_pipe_cleanup E I ps n) = cleared (state_of n)"
  "nd_context (perform_final_pipe_cleanup E I ps n) = nd_context n"
  "nd_tasks (perform_final_pipe_cleanup E I ps n) = nd_tasks n"
proof -
  define m where "m = fold (\<lambda>(_, read_id, _). detach_pipe I read_id) ps
    (emit (map (\<lambda>(_, h). TaskAborted h) (pipe_reader_task_handles (state_of n)))
      (with_state (\<lambda>cs. cs\<lparr>pipes_tx := [], pipe_reader_task_handles := []\<rparr>) n))"
  have m: "state_of m = (state_of n)\<lparr>pipes_tx := [], pipe_reader_task_handles := []\<rparr>"
    "nd_context m = nd_context n" "nd_tasks m = nd_tasks n"
    unfolding m_def by (subst fold_keeps; auto simp: node_simps split: prod.split)+
  have f: "nd_core (fold (\<lambda>(_, ei). close_iface E (connection_iface ei)) xs k) = nd_core k"
    "nd_context (fold (\<lambda>(_, ei). close_iface E (connection_iface ei)) xs k) = nd_context k"
    "nd_tasks (fold (\<lambda>(_, ei). close_iface E (connection_iface ei)) xs k) = nd_tasks k"
    for xs :: "(uri \<times> EndpointInfo) list" and k :: "'a node"
    by (subst fold_keeps; auto simp: node_simps split: prod.split)+
  have p: "perform_final_pipe_cleanup E I ps n =
    (let k = with_state (\<lambda>cs. cs\<lparr>pipe_read_id_to_endpoint_uri := []\<rparr>) m
     in with_coordinator (\<lambda>c. c\<lparr>shutdown_state := Finished\<rparr>)
         (if endpoints (state_of k) \<noteq> [] then
            with_state (\<lambda>cs. cs\<lparr>endpoints := []\<rparr>)
              (fold (\<lambda>(_, ei). close_iface E (connection_iface ei)) (endpoints (state_of k)) k)
          else k))"
    by (simp add: perform_final_pipe_cleanup_def m_def Let_def)
  show "phase_of (perform_final_pipe_cleanup E I ps n) = Finished"
    "state_of (perform_final_pipe_cleanup E I ps n) = cleared (state_of n)"
    "nd_context (perform_final_pipe_cleanup E I ps n) = nd_context n"
    "nd_tasks (perform_final_pipe_cleanup E I ps n) = nd_tasks n"
    unfolding p by (simp_all add: m f cleared_def node_simps Let_def)
qed

text \<open>How far a shutdown has come by the time \<open>t\<close>.\<close>

definition deadline_by :: "nat \<Rightarrow> 'l node \<Rightarrow> bool" where
  "deadline_by t n \<longleftrightarrow>
    (case linger (options (state_of n)) of
       None \<Rightarrow> True
     | Some d \<Rightarrow> (case linger_deadline (coordinator_of n) of Some s \<Rightarrow> s \<le> t + d | None \<Rightarrow> False))"

definition winding_down :: "nat \<Rightarrow> 'l node \<Rightarrow> bool" where
  "winding_down t n \<longleftrightarrow>
    (case phase_of n of
       Running \<Rightarrow> False
     | StoppingChildren \<Rightarrow> \<not> none_pending (coordinator_of n) \<and> linger_deadline (coordinator_of n) = None
     | Lingering \<Rightarrow> deadline_by t n
     | CleaningPipes \<Rightarrow> False
     | Finished \<Rightarrow> True)"

lemma started_linger:
  assumes "shutdown_state c = Lingering" "linger_deadline c = None"
  shows "shutdown_state (start_linger_if_needed t l c) = Lingering"
    "linger_deadline (start_linger_if_needed t l c) = map_option (\<lambda>d. t + d) l"
  using assms by (simp_all add: start_linger_if_needed_def split: option.split)

lemma finish_linger_result:
  assumes "phase_of n = Lingering"
  shows "finish_linger E I n = n \<and> \<not> is_linger_expired_or_queues_empty E (state_of n) (coordinator_of n) \<or>
    phase_of (finish_linger E I n) = Finished \<and> state_of (finish_linger E I n) = cleared (state_of n) \<and>
    is_linger_expired_or_queues_empty E (state_of n) (coordinator_of n)"
  by (simp add: finish_linger_def final_cleanup node_simps Let_def)

lemma finish_linger_kept [simp]:
  "options (state_of (finish_linger E I n)) = options (state_of n)"
  "core_handle (state_of (finish_linger E I n)) = core_handle (state_of n)"
  "nd_context (finish_linger E I n) = nd_context n" "nd_tasks (finish_linger E I n) = nd_tasks n"
  by (simp_all add: finish_linger_def final_cleanup node_simps Let_def)

lemma register_kept:
  "shutdown_state (fold register_endpoint es c) = shutdown_state c \<and>
   linger_deadline (fold register_endpoint es c) = linger_deadline c"
proof (induction es arbitrary: c)
  case (Cons e es)
  have "shutdown_state (register_endpoint e c) = shutdown_state c \<and> linger_deadline (register_endpoint e c) = linger_deadline c"
    by (cases e) (auto simp: Let_def split: EndpointType.split option.split)
  then show ?case using Cons by simp
qed simp

lemma record_closed_all_kept:
  "shutdown_state (fst (record_closed_all is c)) = shutdown_state c \<and>
   linger_deadline (fst (record_closed_all is c)) = linger_deadline c"
proof (induction "is" arbitrary: c)
  case (Cons i "is")
  have "shutdown_state (fst (record_connection_closed i c)) = shutdown_state c \<and>
    linger_deadline (fst (record_connection_closed i c)) = linger_deadline c"
    by (simp add: record_connection_closed_def Let_def)
  then show ?case using Cons [of "fst (record_connection_closed i c)"]
    by (cases "record_connection_closed i c"; cases "record_closed_all is (fst (record_connection_closed i c))") simp
qed simp

lemma stop_listeners_kept [simp]: "nd_core (stop_child_listener_actors E cs n) = nd_core n"
  "nd_context (stop_child_listener_actors E cs n) = nd_context n" "nd_tasks (stop_child_listener_actors E cs n) = nd_tasks n"
  by (induction E cs n rule: stop_child_listener_actors.induct) (auto simp: node_simps split: option.split)

lemma close_active_kept:
  assumes "phase_of n \<noteq> Lingering"
  shows "phase_of (close_active_connections E cs n) = phase_of n"
    "linger_deadline (coordinator_of (close_active_connections E cs n)) = linger_deadline (coordinator_of n)"
    "state_of (close_active_connections E cs n) = state_of n"
    "nd_context (close_active_connections E cs n) = nd_context n"
    "nd_tasks (close_active_connections E cs n) = nd_tasks n"
proof -
  have f: "nd_core (fold (\<lambda>(_, _, iface). close_iface E iface) cs n) = nd_core n"
    "nd_context (fold (\<lambda>(_, _, iface). close_iface E iface) cs n) = nd_context n"
    "nd_tasks (fold (\<lambda>(_, _, iface). close_iface E iface) cs n) = nd_tasks n"
    by (subst fold_keeps; auto simp: node_simps split: prod.split)+
  obtain c b where c: "record_closed_all (map fst (filter (\<lambda>(_, u, _). strip_prefix ''inproc://'' u \<noteq> None) cs)) (coordinator_of n) = (c, b)"
    by fastforce
  then have "shutdown_state c = phase_of n" "linger_deadline c = linger_deadline (coordinator_of n)"
    using record_closed_all_kept [of "map fst (filter (\<lambda>(_, u, _). strip_prefix ''inproc://'' u \<noteq> None) cs)" "coordinator_of n"] by simp_all
  then show "phase_of (close_active_connections E cs n) = phase_of n"
    "linger_deadline (coordinator_of (close_active_connections E cs n)) = linger_deadline (coordinator_of n)"
    "state_of (close_active_connections E cs n) = state_of n"
    "nd_context (close_active_connections E cs n) = nd_context n"
    "nd_tasks (close_active_connections E cs n) = nd_tasks n"
    using assms by (simp_all add: close_active_connections_def f c Let_def node_simps del: not_None_eq)
qed

lemma initiate_result:
  assumes "phase_of n = Running" "linger_deadline (coordinator_of n) = None"
  shows "winding_down (clock E) (initiate_core_shutdown E I n)"
    "options (state_of (initiate_core_shutdown E I n)) = options (state_of n)"
    "core_handle (state_of (initiate_core_shutdown E I n)) = core_handle (state_of n)"
    "nd_context (initiate_core_shutdown E I n) = nd_context n" "nd_tasks (initiate_core_shutdown E I n) = nd_tasks n"
    "state_of (initiate_core_shutdown E I n) = state_of n \<or>
      phase_of (initiate_core_shutdown E I n) = Finished \<and> state_of (initiate_core_shutdown E I n) = cleared (state_of n)"
proof -
  define n1 where "n1 = with_coordinator (\<lambda>c. fst (begin_shutdown_sequence (state_of n) c)) n"
  have n1: "phase_of n1 = Running" "linger_deadline (coordinator_of n1) = None" "state_of n1 = state_of n"
    "nd_context n1 = nd_context n" "nd_tasks n1 = nd_tasks n"
    using assms by (simp_all add: n1_def begin_shutdown_sequence_def register_kept node_simps)
  define n2 where "n2 = close_active_connections E (pending_connections_to_close (coordinator_of n1))
    (stop_child_listener_actors E (pending_child_actors (coordinator_of n1)) n1)"
  have n2: "phase_of n2 = Running" "linger_deadline (coordinator_of n2) = None" "state_of n2 = state_of n"
    "nd_context n2 = nd_context n" "nd_tasks n2 = nd_tasks n"
    using n1 by (simp_all add: n2_def close_active_kept)
  have eq: "initiate_core_shutdown E I n =
    (if none_pending (coordinator_of n2) then
       finish_linger E I (with_coordinator (start_linger_if_needed (clock E) (linger (options (state_of n2))))
         (with_coordinator (\<lambda>c. c\<lparr>shutdown_state := Lingering\<rparr>) n2))
     else with_coordinator (\<lambda>c. c\<lparr>shutdown_state := StoppingChildren\<rparr>) n2)"
    using assms(1) by (simp add: initiate_core_shutdown_def n1_def n2_def node_simps Let_def)
  define k where "k = with_coordinator (start_linger_if_needed (clock E) (linger (options (state_of n2))))
         (with_coordinator (\<lambda>c. c\<lparr>shutdown_state := Lingering\<rparr>) n2)"
  have k: "phase_of k = Lingering" "linger_deadline (coordinator_of k) = map_option (\<lambda>d. clock E + d) (linger (options (state_of k)))"
    "state_of k = state_of n" "nd_context k = nd_context n" "nd_tasks k = nd_tasks n"
    using n2 by (simp_all add: k_def started_linger node_simps)
  have "winding_down (clock E) (finish_linger E I k)"
    using finish_linger_result [OF k(1), of E I] k(1,2)
    by (auto simp: winding_down_def deadline_by_def split: option.split)
  then show "winding_down (clock E) (initiate_core_shutdown E I n)"
    unfolding eq k_def [symmetric] using n2 by (simp add: winding_down_def none_pending_def node_simps)
  show "options (state_of (initiate_core_shutdown E I n)) = options (state_of n)"
    "core_handle (state_of (initiate_core_shutdown E I n)) = core_handle (state_of n)"
    "nd_context (initiate_core_shutdown E I n) = nd_context n" "nd_tasks (initiate_core_shutdown E I n) = nd_tasks n"
    "state_of (initiate_core_shutdown E I n) = state_of n \<or>
      phase_of (initiate_core_shutdown E I n) = Finished \<and> state_of (initiate_core_shutdown E I n) = cleared (state_of n)"
    unfolding eq k_def [symmetric] using n2 k finish_linger_result [OF k(1), of E I] by (auto simp: node_simps)
qed

lemma winding_down_later: "winding_down s n \<Longrightarrow> s \<le> t \<Longrightarrow> winding_down t n"
  by (auto simp: winding_down_def deadline_by_def split: ShutdownPhase.splits option.splits)

lemma winding_down_standing: "standing n' = standing n \<Longrightarrow> winding_down t n' = winding_down t n"
  by (cases "phase_of n"; cases "linger (options (state_of n))") (simp_all add: winding_down_def deadline_by_def standing_def)

text \<open>A report of a child: it leaves the pending ones, and the last one ends the wait.\<close>

definition pending :: "'l node \<Rightarrow> (ActorType \<times> nat) set" where
  "pending n = Pair ListenerActor ` fst ` set (pending_child_actors (coordinator_of n)) \<union>
    Pair SessionActor ` fst ` set (pending_connections_to_close (coordinator_of n))"

lemma none_pending_iff: "none_pending (coordinator_of n) \<longleftrightarrow> pending n = {}"
  by (auto simp: none_pending_def pending_def)

lemma alist_del_absent: "map_of m k = None \<Longrightarrow> alist_del k m = m"
  by (auto simp: alist_del_def filter_id_conv map_of_eq_None_iff)

lemma recorded:
  assumes "shutdown_state c \<noteq> Finished" "\<not> none_pending c"
  shows "record_child_actor_stopped x c =
      (c\<lparr>pending_child_actors := alist_del x (pending_child_actors c)\<rparr>,
       none_pending (c\<lparr>pending_child_actors := alist_del x (pending_child_actors c)\<rparr>))"
    "record_connection_closed x c =
      (c\<lparr>pending_connections_to_close := alist_del x (pending_connections_to_close c)\<rparr>,
       none_pending (c\<lparr>pending_connections_to_close := alist_del x (pending_connections_to_close c)\<rparr>))"
  subgoal using assms
    by (cases "map_of (pending_child_actors c) x") (simp_all add: record_child_actor_stopped_def alist_del_absent Let_def)
  subgoal using assms
    by (cases "map_of (pending_connections_to_close c) x")
      (simp_all add: record_connection_closed_def alist_del_absent Let_def)
  done

definition without :: "ActorType \<Rightarrow> nat \<Rightarrow> ShutdownCoordinator \<Rightarrow> ShutdownCoordinator" where
  "without ty child c =
    (case ty of
       ListenerActor \<Rightarrow> c\<lparr>pending_child_actors := alist_del child (pending_child_actors c)\<rparr>
     | SessionActor \<Rightarrow> c\<lparr>pending_connections_to_close := alist_del child (pending_connections_to_close c)\<rparr>
     | _ \<Rightarrow> c)"

lemma without_kept [simp]: "shutdown_state (without ty x c) = shutdown_state c"
  "linger_deadline (without ty x c) = linger_deadline c"
  by (simp_all add: without_def split: ActorType.split)

lemma note_stopped_result:
  assumes n: "phase_of n = StoppingChildren" "\<not> none_pending (coordinator_of n)" "linger_deadline (coordinator_of n) = None"
    and n': "coordinator_of n' = note_stopped E n child ty" "options (state_of n') = options (state_of n)"
  shows "phase_of n' = Lingering \<and> deadline_by (clock E) n' \<or>
    phase_of n' = StoppingChildren \<and> pending n' = pending n - {(ty, child)} \<and> pending n' \<noteq> {} \<and>
      linger_deadline (coordinator_of n') = None"
proof -
  define c where "c = without ty child (coordinator_of n)"
  have noted: "note_stopped E n child ty = (if none_pending c
    then start_linger_if_needed (clock E) (linger (options (state_of n))) (c\<lparr>shutdown_state := Lingering\<rparr>) else c)"
    using n(1,2) by (cases ty) (simp_all add: note_stopped_def recorded c_def without_def split: bool.split)
  have pend: "Pair ListenerActor ` fst ` set (pending_child_actors c) \<union> Pair SessionActor ` fst ` set (pending_connections_to_close c) =
    pending n - {(ty, child)}"
    by (cases ty) (auto simp: c_def without_def pending_def alist_del_def)
  show ?thesis
  proof (cases "none_pending c")
    case True
    then show ?thesis using n n'
      by (simp add: noted started_linger deadline_by_def c_def split: option.split)
  next
    case False
    then have "coordinator_of n' = c" using n'(1) noted by simp
    then show ?thesis using n pend False none_pending_iff [of n'] by (simp add: pending_def c_def)
  qed
qed

lemma with_coordinator_same: "g (coordinator_of n) = coordinator_of n \<Longrightarrow> with_coordinator g n = n"
  by (simp add: with_coordinator_def)

lemma lingering_tick:
  assumes "phase_of n = Lingering" "deadline_by t n"
  shows "standing (maintenance E I n) = standing n \<and> \<not> is_linger_expired_or_queues_empty E (state_of n) (coordinator_of n) \<or>
    phase_of (maintenance E I n) = Finished \<and> state_of (maintenance E I n) = cleared (state_of n)"
proof -
  have "(if linger_deadline (coordinator_of n) = None \<and> linger (options (state_of n)) \<noteq> Some 0
      then with_coordinator (start_linger_if_needed (clock E) (linger (options (state_of n)))) n else n) = n"
    using assms by (auto simp: deadline_by_def start_linger_if_needed_def intro!: with_coordinator_same split: option.splits)
  then have "check_and_advance_linger E I n = (finish_linger E I n, Inr ())"
    using assms(1) by (simp add: check_and_advance_linger_def Let_def)
  then have eq: "maintenance E I n = reap E I (dead_endpoints E (state_of (finish_linger E I n))) (finish_linger E I n)"
    using assms(1) by (simp add: maintenance_def linger_tick_def Let_def)
  show ?thesis
  proof (cases "is_linger_expired_or_queues_empty E (state_of n) (coordinator_of n)")
    case True
    then have "phase_of (finish_linger E I n) = Finished" "state_of (finish_linger E I n) = cleared (state_of n)"
      using finish_linger_result [OF assms(1), of E I] by auto
    then show ?thesis by (simp add: eq dead_endpoints_def cleared_def)
  next
    case False
    then have "finish_linger E I n = n" using finish_linger_result [OF assms(1), of E I] by auto
    then show ?thesis using False by (simp add: eq)
  qed
qed

fun reported :: "nat \<Rightarrow> core_input \<Rightarrow> (ActorType \<times> nat) set" where
  "reported h (Event (ActorStopping child ty u parent e)) = (if parent = Some h then {(ty, child)} else {})"
| "reported h _ = {}"

lemma shutdown_iteration:
  assumes "winding_down t n" "phase_of n \<noteq> Finished" "clock E \<le> t"
  shows "\<exists>n'. loop_iteration E I i n = Some n' \<and> winding_down t n' \<and>
    options (state_of n') = options (state_of n) \<and> core_handle (state_of n') = core_handle (state_of n) \<and>
    (phase_of n' = Finished \<longrightarrow> tables_empty (state_of n')) \<and>
    (phase_of n' = StoppingChildren \<longrightarrow>
      phase_of n = StoppingChildren \<and> pending n' = pending n - reported (core_handle (state_of n)) i)"
proof -
  have running: "phase_of n \<noteq> Running" using assms(1) by (auto simp: winding_down_def)
  consider (tick) "phase_of n = Lingering" "i = Tick"
    | (stop) child ty u e where "i = Event (ActorStopping child ty u (Some (core_handle (state_of n))) e)"
    | (other) "phase_of n \<noteq> Lingering \<or> i \<noteq> Tick" "\<nexists>c ty u e. i = Event (ActorStopping c ty u (Some (core_handle (state_of n))) e)"
    by blast
  then show ?thesis
  proof cases
    case tick
    then have "deadline_by t n" using assms(1) by (simp add: winding_down_def)
    from lingering_tick [OF tick(1) this, of E I] consider
      (same) "standing (maintenance E I n) = standing n"
      | (ended) "phase_of (maintenance E I n) = Finished" "state_of (maintenance E I n) = cleared (state_of n)" by blast
    then show ?thesis
    proof cases
      case same
      note st = standingD [OF same]
      have "winding_down t (maintenance E I n)" using winding_down_standing [OF same] assms(1) by simp
      then show ?thesis using tick(1) st by (simp add: tick(2))
    next
      case ended
      then show ?thesis by (simp add: tick(2) winding_down_def)
    qed
  next
    case stop
    define n' where "n' = handle_actor_stopping_event E I child ty u e n"
    have n': "coordinator_of n' = note_stopped E n child ty" "options (state_of n') = options (state_of n)"
      "core_handle (state_of n') = core_handle (state_of n)"
      using actor_stopping_standing [OF running, of E I child ty u e] by (simp_all add: standing_def n'_def)
    have it: "loop_iteration E I i n = Some n'" by (simp add: stop n'_def)
    show ?thesis
    proof (cases "phase_of n = StoppingChildren")
      case True
      then have "\<not> none_pending (coordinator_of n)" "linger_deadline (coordinator_of n) = None"
        using assms(1) by (simp_all add: winding_down_def)
      from note_stopped_result [OF True this n'(1,2)] show ?thesis
      proof
        assume linger: "phase_of n' = Lingering \<and> deadline_by (clock E) n'"
        then have "winding_down (clock E) n'" by (simp add: winding_down_def)
        from winding_down_later [OF this assms(3)] show ?thesis using it n'(2,3) linger by simp
      next
        assume wait: "phase_of n' = StoppingChildren \<and> pending n' = pending n - {(ty, child)} \<and> pending n' \<noteq> {} \<and>
          linger_deadline (coordinator_of n') = None"
        then have "\<not> none_pending (coordinator_of n')" using none_pending_iff [of n'] by blast
        then have "winding_down t n'" using wait by (simp add: winding_down_def)
        then show ?thesis using it n'(2,3) wait True by (simp add: stop)
      qed
    next
      case False
      then have "standing n' = standing n" using n' by (simp add: note_stopped_def standing_def)
      then show ?thesis using it assms(1,2) False winding_down_standing [of n' n t] n'(2,3) standingD(1) [of n' n] by simp
    qed
  next
    case other
    from shutdown_iteration_kept [OF running other(1), of E I] other(2)
    obtain n' where n': "loop_iteration E I i n = Some n'" "standing n' = standing n" by blast
    have "reported (core_handle (state_of n)) i = {}"
      using other(2) by (cases "(core_handle (state_of n), i)" rule: reported.cases) auto
    then show ?thesis using n'(1) assms(1,2) winding_down_standing [OF n'(2), of t] standingD [OF n'(2)]
      by (simp add: pending_def)
  qed
qed

lemma shutdown_run:
  assumes "winding_down t n" "phase_of n = Finished \<longrightarrow> tables_empty (state_of n)"
    and "\<forall>(E, i)\<in>set ins. clock E \<le> t"
    and "phase_of n = StoppingChildren \<longrightarrow> pending n \<subseteq> (\<Union>(E, i)\<in>set ins. reported (core_handle (state_of n)) i)"
  shows "\<exists>n'. run_command_loop I ins n = Some n' \<and> options (state_of n') = options (state_of n) \<and>
    core_handle (state_of n') = core_handle (state_of n) \<and>
    (phase_of n' = Lingering \<and> deadline_by t n' \<or> phase_of n' = Finished \<and> tables_empty (state_of n'))"
  using assms
proof (induction ins arbitrary: n)
  case Nil
  then show ?case by (cases "phase_of n") (auto simp: winding_down_def none_pending_iff)
next
  case (Cons x ins)
  obtain E i where x: "x = (E, i)" by fastforce
  show ?case
  proof (cases "phase_of n = Finished")
    case True
    then show ?thesis using Cons.prems by (simp add: x)
  next
    case False
    have "clock E \<le> t" using Cons.prems(3) by (simp add: x)
    from shutdown_iteration [OF Cons.prems(1) False this, of I i] obtain n' where n':
      "loop_iteration E I i n = Some n'" "winding_down t n'" "options (state_of n') = options (state_of n)"
      "core_handle (state_of n') = core_handle (state_of n)" "phase_of n' = Finished \<longrightarrow> tables_empty (state_of n')"
      "phase_of n' = StoppingChildren \<longrightarrow> phase_of n = StoppingChildren \<and> pending n' = pending n - reported (core_handle (state_of n)) i"
      by blast
    have "phase_of n' = StoppingChildren \<longrightarrow> pending n' \<subseteq> (\<Union>(E, i)\<in>set ins. reported (core_handle (state_of n')) i)"
      using n'(4,6) Cons.prems(4) by (auto simp: x)
    from Cons.IH [OF n'(2,5) _ this] obtain m where
      "run_command_loop I ins n' = Some m" "options (state_of m) = options (state_of n')"
      "core_handle (state_of m) = core_handle (state_of n')"
      "phase_of m = Lingering \<and> deadline_by t m \<or> phase_of m = Finished \<and> tables_empty (state_of m)"
      using Cons.prems(3) by auto
    then show ?thesis using n' False by (simp add: x)
  qed
qed

end
