(* ===== verification/Core_Tables.thy ===== *)
theory Core_Tables
  imports Core_Life
begin

text \<open>
  The tables of a socket core in every state it reaches: endpoints, pipes and pipe identifiers fit together,
  whatever events, commands and tasks the core takes and in whatever order.
\<close>

section \<open>Well-formed tables\<close>

text \<open>
  A listener has a task and no pipe; a session has a pipe, whose two identifiers lead to the channel of its
  connection and back to its URI.
\<close>

definition endpoint_wf :: "CoreState \<Rightarrow> uri \<Rightarrow> EndpointInfo \<Rightarrow> bool" where
  "endpoint_wf cs u ep \<longleftrightarrow> endpoint_uri ep = u \<and>
    (case endpoint_type ep of
       Listener \<Rightarrow>
         pipe_ids ep = None \<and> task_handle ep \<noteq> None \<and> connection_iface ep = Dummy \<and> \<not> is_outbound_connection ep
     | Session \<Rightarrow>
         task_handle ep = None \<and>
         (case (pipe_ids ep, conn_channel (connection_iface ep)) of
            (Some (w, r), Some c) \<Rightarrow>
              map_of (pipes_tx cs) w = Some c \<and> map_of (pipe_read_id_to_endpoint_uri cs) r = Some u
          | _ \<Rightarrow> False))"

text \<open>The pipe identifiers in use: by endpoints, and by connects that wait for their binder.\<close>

definition endpoint_claims :: "CoreState \<Rightarrow> (uri \<times> nat \<times> nat) set" where
  "endpoint_claims cs = {(u, w, r). \<exists>ep. (u, ep) \<in> set (endpoints cs) \<and> pipe_ids ep = Some (w, r)}"

definition task_claims :: "core_task list \<Rightarrow> (uri \<times> nat \<times> nat) set" where
  "task_claims ts = {(inproc_uri name, w, r) | name w r m. AwaitBinder name w r m \<in> set ts}"

definition apart :: "(uri \<times> nat \<times> nat) set \<Rightarrow> uri \<Rightarrow> nat \<Rightarrow> nat \<Rightarrow> bool" where
  "apart C u w r \<longleftrightarrow> (\<forall>u' w' r'. (u', w', r') \<in> C \<and> u' \<noteq> u \<longrightarrow> w' \<noteq> w \<and> r' \<noteq> r)"

definition claims_ok :: "(uri \<times> nat \<times> nat) set \<Rightarrow> nat \<Rightarrow> bool" where
  "claims_ok C k \<longleftrightarrow> (\<forall>u w r. (u, w, r) \<in> C \<longrightarrow> w < k \<and> r < k \<and> apart C u w r)"

definition tables_wf :: "CoreState \<Rightarrow> (uri \<times> nat \<times> nat) set \<Rightarrow> nat \<Rightarrow> bool" where
  "tables_wf cs T k \<longleftrightarrow>
    distinct (map fst (endpoints cs)) \<and> distinct (map fst (pipes_tx cs)) \<and>
    distinct (map fst (pipe_read_id_to_endpoint_uri cs)) \<and> distinct (map fst (reconnect_states cs)) \<and>
    (\<forall>u ep. (u, ep) \<in> set (endpoints cs) \<longrightarrow> endpoint_wf cs u ep) \<and> claims_ok (endpoint_claims cs \<union> T) k"

definition core_wf :: "'l node \<Rightarrow> bool" where
  "core_wf n \<longleftrightarrow> tables_wf (state_of n) (task_claims (nd_tasks n)) (next_handle_value (nd_context n))"

lemma set_alist_put: "set (alist_put k v m) \<subseteq> insert (k, v) (set m - {p. fst p = k \<and> p \<in> set m \<and> distinct (map fst m)})"
proof (induction k v m rule: alist_put.induct)
  case (2 k v k' v' m)
  then show ?case by (auto simp: image_iff split: if_splits)
qed simp

lemma alist_put_entry: "(a, b) \<in> set (alist_put k v m) \<Longrightarrow> distinct (map fst m) \<Longrightarrow> a = k \<and> b = v \<or> a \<noteq> k \<and> (a, b) \<in> set m"
  using set_alist_put [of k v m] by auto

lemma claims_ok_mono: "claims_ok C k \<Longrightarrow> C' \<subseteq> C \<Longrightarrow> k \<le> k' \<Longrightarrow> claims_ok C' k'"
  by (fastforce simp: claims_ok_def apart_def)

lemma claims_ok_insert:
  assumes "claims_ok C k" "apart C u w r" "w < k" "r < k"
  shows "claims_ok (insert (u, w, r) C) k"
  using assms unfolding claims_ok_def apart_def by blast

lemma fresh_apart:
  assumes "claims_ok C k" "k \<le> w" "k \<le> r"
  shows "apart C u w r"
  unfolding apart_def
proof (intro allI impI)
  fix u' w' r' assume "(u', w', r') \<in> C \<and> u' \<noteq> u"
  then have "w' < k" "r' < k" using assms(1) unfolding claims_ok_def by blast+
  then show "w' \<noteq> w \<and> r' \<noteq> r" using assms(2,3) by simp
qed

lemma endpoint_wf_cong:
  assumes "endpoint_wf cs u ep"
    and "\<And>w r. pipe_ids ep = Some (w, r) \<Longrightarrow> map_of (pipes_tx cs') w = map_of (pipes_tx cs) w \<and>
      map_of (pipe_read_id_to_endpoint_uri cs') r = map_of (pipe_read_id_to_endpoint_uri cs) r"
  shows "endpoint_wf cs' u ep"
  using assms by (auto simp: endpoint_wf_def split: EndpointType.splits option.splits)

lemma tables_wf_cong:
  assumes "tables_wf cs T k" "T' \<subseteq> T" "k \<le> k'"
    and "endpoints cs' = endpoints cs" "pipes_tx cs' = pipes_tx cs"
    "pipe_read_id_to_endpoint_uri cs' = pipe_read_id_to_endpoint_uri cs" "distinct (map fst (reconnect_states cs'))"
  shows "tables_wf cs' T' k'"
proof -
  have "endpoint_claims cs' \<union> T' \<subseteq> endpoint_claims cs \<union> T" using assms(2) by (auto simp: endpoint_claims_def assms(4))
  then have "claims_ok (endpoint_claims cs' \<union> T') k'"
    using assms(1,3) claims_ok_mono by (auto simp: tables_wf_def)
  moreover have "endpoint_wf cs' u ep" if "endpoint_wf cs u ep" for u ep
    using that by (rule endpoint_wf_cong) (simp add: assms(5,6))
  ultimately show ?thesis using assms(1,4-7) by (simp add: tables_wf_def)
qed

text \<open>An endpoint leaves, with its pipe or without.\<close>

lemma tables_wf_drop:
  assumes "tables_wf cs T k" "endpoints cs' = alist_del u (endpoints cs)" "apart (endpoint_claims cs) u w r"
    and "\<And>x. x \<noteq> w \<Longrightarrow> map_of (pipes_tx cs') x = map_of (pipes_tx cs) x"
    "\<And>x. x \<noteq> r \<Longrightarrow> map_of (pipe_read_id_to_endpoint_uri cs') x = map_of (pipe_read_id_to_endpoint_uri cs) x"
    and "distinct (map fst (pipes_tx cs'))" "distinct (map fst (pipe_read_id_to_endpoint_uri cs'))"
    "reconnect_states cs' = reconnect_states cs"
  shows "tables_wf cs' T k"
proof -
  have sub: "endpoint_claims cs' \<subseteq> endpoint_claims cs" by (auto simp: endpoint_claims_def assms(2) alist_del_def)
  then have "claims_ok (endpoint_claims cs' \<union> T) k"
    using assms(1) claims_ok_mono [of "endpoint_claims cs \<union> T" k "endpoint_claims cs' \<union> T" k] by (auto simp: tables_wf_def)
  moreover have "endpoint_wf cs' v ep" if "(v, ep) \<in> set (endpoints cs')" for v ep
  proof (rule endpoint_wf_cong)
    have v: "(v, ep) \<in> set (endpoints cs)" "v \<noteq> u" using that by (auto simp: assms(2) alist_del_def)
    then show "endpoint_wf cs v ep" using assms(1) by (simp add: tables_wf_def)
    show "map_of (pipes_tx cs') w' = map_of (pipes_tx cs) w' \<and>
      map_of (pipe_read_id_to_endpoint_uri cs') r' = map_of (pipe_read_id_to_endpoint_uri cs) r'"
      if "pipe_ids ep = Some (w', r')" for w' r'
    proof -
      have "(v, w', r') \<in> endpoint_claims cs" using v(1) that by (auto simp: endpoint_claims_def)
      then have "w' \<noteq> w" "r' \<noteq> r" using assms(3) v(2) by (auto simp: apart_def)
      then show ?thesis using assms(4,5) by simp
    qed
  qed
  ultimately show ?thesis using assms(1,2,6-8) by (simp add: tables_wf_def)
qed

text \<open>A session comes.\<close>

lemma tables_wf_add_session:
  assumes "tables_wf cs T k" "apart (endpoint_claims cs \<union> T) u w r" "w < k" "r < k"
    and "endpoint_uri ep = u" "endpoint_type ep = Session" "task_handle ep = None" "pipe_ids ep = Some (w, r)"
    "conn_channel (connection_iface ep) = Some c"
  shows "tables_wf (map_read_pipe r u (add_endpoint u ep (add_pipe_tx w c cs))) T k"
proof -
  let ?cs = "map_read_pipe r u (add_endpoint u ep (add_pipe_tx w c cs))"
  note defs = map_read_pipe_def add_endpoint_def add_pipe_tx_def
  have d: "distinct (map fst (endpoints cs))" using assms(1) by (simp add: tables_wf_def)
  have "endpoint_claims ?cs \<subseteq> insert (u, w, r) (endpoint_claims cs)"
    using assms(8) alist_put_entry [OF _ d] by (fastforce simp: endpoint_claims_def defs)
  then have "endpoint_claims ?cs \<union> T \<subseteq> insert (u, w, r) (endpoint_claims cs \<union> T)" by auto
  moreover have "claims_ok (insert (u, w, r) (endpoint_claims cs \<union> T)) k"
    using assms(1) claims_ok_insert [OF _ assms(2-4)] by (simp add: tables_wf_def)
  ultimately have "claims_ok (endpoint_claims ?cs \<union> T) k" using claims_ok_mono by blast
  moreover have "endpoint_wf ?cs v e" if "(v, e) \<in> set (endpoints ?cs)" for v e
  proof (cases "v = u")
    case True
    then have "e = ep" using alist_put_entry [OF _ d, of v e u ep] that by (simp add: defs)
    then show ?thesis using True assms(5-) by (simp add: endpoint_wf_def defs)
  next
    case False
    then have v: "(v, e) \<in> set (endpoints cs)" using alist_put_entry [OF _ d, of v e u ep] that by (simp add: defs)
    then have "endpoint_wf cs v e" using assms(1) by (simp add: tables_wf_def)
    then show ?thesis
    proof (rule endpoint_wf_cong)
      fix w' r' assume "pipe_ids e = Some (w', r')"
      then have "(v, w', r') \<in> endpoint_claims cs" using v by (auto simp: endpoint_claims_def)
      then have "w' \<noteq> w" "r' \<noteq> r" using assms(2) False by (auto simp: apart_def)
      then show "map_of (pipes_tx ?cs) w' = map_of (pipes_tx cs) w' \<and>
        map_of (pipe_read_id_to_endpoint_uri ?cs) r' = map_of (pipe_read_id_to_endpoint_uri cs) r'" by (simp add: defs)
    qed
  qed
  ultimately show ?thesis using assms(1) by (simp add: tables_wf_def defs)
qed

lemma tables_wf_add_listener:
  assumes "tables_wf cs T k" "map_of (endpoints cs) u = None"
    and "endpoint_uri ep = u" "endpoint_type ep = Listener" "task_handle ep = Some h" "pipe_ids ep = None"
    "connection_iface ep = Dummy" "\<not> is_outbound_connection ep"
  shows "tables_wf (add_endpoint u ep cs) T k"
proof -
  have d: "distinct (map fst (endpoints cs))" using assms(1) by (simp add: tables_wf_def)
  note entry = alist_put_entry [OF _ d]
  have "endpoint_claims (add_endpoint u ep cs) \<subseteq> endpoint_claims cs"
    using assms(6) entry by (fastforce simp: endpoint_claims_def add_endpoint_def)
  then have "claims_ok (endpoint_claims (add_endpoint u ep cs) \<union> T) k"
    using assms(1) claims_ok_mono [of "endpoint_claims cs \<union> T" k "endpoint_claims (add_endpoint u ep cs) \<union> T" k]
    by (auto simp: tables_wf_def)
  moreover have "endpoint_wf (add_endpoint u ep cs) v e" if "(v, e) \<in> set (endpoints (add_endpoint u ep cs))" for v e
  proof (cases "v = u")
    case True
    then have "e = ep" using entry [of v e u ep] that by (simp add: add_endpoint_def)
    then show ?thesis using True assms(3-) by (simp add: endpoint_wf_def)
  next
    case False
    then have "(v, e) \<in> set (endpoints cs)" using entry [of v e u ep] that by (simp add: add_endpoint_def)
    then have "endpoint_wf cs v e" using assms(1) by (simp add: tables_wf_def)
    then show ?thesis by (rule endpoint_wf_cong) (simp add: add_endpoint_def)
  qed
  ultimately show ?thesis using assms(1) by (simp add: tables_wf_def add_endpoint_def)
qed

lemma tables_wf_cleared:
  assumes "tables_wf cs T k"
  shows "tables_wf (cleared cs) T k"
proof -
  have "endpoint_claims (cleared cs) = {}" by (simp add: endpoint_claims_def cleared_def)
  then show ?thesis using assms claims_ok_mono [of "endpoint_claims cs \<union> T" k T k] by (simp add: tables_wf_def cleared_def)
qed


section \<open>Every operation keeps the tables well-formed\<close>

lemma core_wf_irrelevant [simp]:
  "core_wf (emit es n) = core_wf n" "core_wf (monitor e n) = core_wf n" "core_wf (detach_pipe I r n) = core_wf n"
  "core_wf (close_iface E c n) = core_wf n" "core_wf (abort_task E h n) = core_wf n"
  "core_wf (with_coordinator g n) = core_wf n" "core_wf (n\<lparr>nd_logic := l\<rparr>) = core_wf n"
  "core_wf (n\<lparr>nd_error := er\<rparr>) = core_wf n" "core_wf (reply_to q n) = core_wf n"
  by (simp_all add: core_wf_def node_simps reply_to_def)

lemma core_wf_cong:
  assumes "core_wf n" "nd_tasks n' = nd_tasks n" "next_handle_value (nd_context n) \<le> next_handle_value (nd_context n')"
    and "endpoints (state_of n') = endpoints (state_of n)" "pipes_tx (state_of n') = pipes_tx (state_of n)"
    "pipe_read_id_to_endpoint_uri (state_of n') = pipe_read_id_to_endpoint_uri (state_of n)"
    "distinct (map fst (reconnect_states (state_of n')))"
  shows "core_wf n'"
  using assms(1) tables_wf_cong [OF _ subset_refl assms(3-)] by (simp add: core_wf_def assms(2))

lemma core_wf_reconnect: "core_wf n \<Longrightarrow> distinct (map fst (reconnect_states (state_of n)))"
  by (simp add: core_wf_def tables_wf_def)

lemma core_wf_with_state:
  assumes "core_wf n" "endpoints (f (state_of n)) = endpoints (state_of n)" "pipes_tx (f (state_of n)) = pipes_tx (state_of n)"
    "pipe_read_id_to_endpoint_uri (f (state_of n)) = pipe_read_id_to_endpoint_uri (state_of n)"
    "distinct (map fst (reconnect_states (f (state_of n))))"
  shows "core_wf (with_state f n)"
  by (rule core_wf_cong [OF assms(1)]) (simp_all add: node_simps assms)

lemma core_wf_handles:
  "core_wf n \<Longrightarrow> next_handle_value (nd_context n) \<le> next_handle_value c \<Longrightarrow> core_wf (n\<lparr>nd_context := c\<rparr>)"
  by (rule core_wf_cong) (simp_all add: core_wf_reconnect)

lemma claim_apart:
  assumes "core_wf n" "map_of (endpoints (state_of n)) u = Some ep" "pipe_ids ep = Some (w, r)"
  shows "apart (endpoint_claims (state_of n)) u w r"
proof -
  have "(u, w, r) \<in> endpoint_claims (state_of n)" using assms(2,3) map_of_SomeD by (fastforce simp: endpoint_claims_def)
  then show ?thesis using assms(1) unfolding core_wf_def tables_wf_def claims_ok_def apart_def by blast
qed

lemma core_wf_drop:
  assumes "core_wf n" "apart (endpoint_claims (state_of n)) u w r"
  shows "core_wf (drop_pipe_state w r (with_state (\<lambda>cs. cs\<lparr>endpoints := alist_del u (endpoints cs)\<rparr>) n))"
  unfolding core_wf_def node_simps
  by (rule tables_wf_drop [where u = u and w = w and r = r, OF assms(1) [unfolded core_wf_def] _ assms(2)])
    (use assms(1) in \<open>simp_all add: core_wf_def tables_wf_def\<close>)

lemma core_wf_drop_endpoint:
  assumes "core_wf n"
  shows "core_wf (with_state (\<lambda>cs. cs\<lparr>endpoints := alist_del u (endpoints cs)\<rparr>) n)"
proof -
  define k where "k = next_handle_value (nd_context n)"
  have "claims_ok (endpoint_claims (state_of n)) k"
    using assms claims_ok_mono [of _ k _ k] by (fastforce simp: core_wf_def tables_wf_def k_def)
  then have ap: "apart (endpoint_claims (state_of n)) u k k" by (rule fresh_apart) simp_all
  show ?thesis unfolding core_wf_def node_simps
    by (rule tables_wf_drop [where u = u and w = k and r = k, OF assms [unfolded core_wf_def] _ ap])
      (use assms in \<open>simp_all add: core_wf_def tables_wf_def\<close>)
qed

lemma cleanup_wf [simp]:
  assumes "core_wf n"
  shows "core_wf (fst (cleanup_stopped_child_resources E I c u e b n))"
proof (cases "Option.bind (endpoint_key c u (state_of n)) (\<lambda>key. map_option (Pair key) (map_of (endpoints (state_of n)) key))")
  case None
  then show ?thesis using assms by (simp add: cleanup_stopped_child_resources_def)
next
  case (Some x)
  then obtain key ep where x: "x = (key, ep)" "map_of (endpoints (state_of n)) key = Some ep"
    by (auto simp: Option.bind_eq_Some_conv)
  show ?thesis
  proof (cases "pipe_ids ep")
    case None
    then show ?thesis using Some x core_wf_drop_endpoint [OF assms, of key]
      by (simp add: cleanup_stopped_child_resources_def Let_def)
  next
    case (Some wr)
    obtain w r where wr: "wr = (w, r)" by fastforce
    have "core_wf (drop_pipe_state w r (with_state (\<lambda>cs. cs\<lparr>endpoints := alist_del key (endpoints cs)\<rparr>) n))"
      using core_wf_drop [OF assms claim_apart [OF assms x(2)]] Some wr by simp
    then have "core_wf (drop_pipe_state w r (abort_task E (task_handle ep) (with_state (\<lambda>cs. cs\<lparr>endpoints := alist_del key (endpoints cs)\<rparr>) n)))"
      by (simp add: core_wf_def node_simps)
    then show ?thesis using \<open>_ = Some x\<close> x Some wr by (simp add: cleanup_stopped_child_resources_def Let_def)
  qed
qed

lemma cleanup_by_pipe_wf [simp]:
  assumes "core_wf n"
  shows "core_wf (fst (cleanup_session_state_by_pipe I r n))"
proof (cases "map_of (pipe_read_id_to_endpoint_uri (state_of n)) r")
  case None
  have "core_wf (with_state (\<lambda>cs. cs\<lparr>pipe_reader_task_handles := alist_del r (pipe_reader_task_handles cs)\<rparr>) n)"
    by (rule core_wf_with_state [OF assms]) (simp_all add: core_wf_reconnect [OF assms])
  then show ?thesis using None by (simp add: cleanup_session_state_by_pipe_def Let_def split: option.split)
next
  case (Some u)
  show ?thesis
  proof (cases "map_of (endpoints (state_of n)) u")
    case None
    then show ?thesis using Some assms by (simp add: cleanup_session_state_by_pipe_def)
  next
    case ep: (Some ep)
    show ?thesis
    proof (cases "pipe_ids ep")
      case None
      then show ?thesis using Some ep core_wf_drop_endpoint [OF assms, of u]
        by (simp add: cleanup_session_state_by_pipe_def Let_def split: option.split)
    next
      case wr: (Some wr)
      obtain w r' where wr': "wr = (w, r')" by fastforce
      have "apart (endpoint_claims (state_of n)) u w r" unfolding apart_def
      proof (intro allI impI)
        fix u1 w1 r1 assume c: "(u1, w1, r1) \<in> endpoint_claims (state_of n) \<and> u1 \<noteq> u"
        then obtain ep1 where "(u1, ep1) \<in> set (endpoints (state_of n))" "pipe_ids ep1 = Some (w1, r1)"
          by (auto simp: endpoint_claims_def)
        then have "endpoint_wf (state_of n) u1 ep1" "pipe_ids ep1 = Some (w1, r1)"
          using assms by (auto simp: core_wf_def tables_wf_def)
        then have "map_of (pipe_read_id_to_endpoint_uri (state_of n)) r1 = Some u1"
          by (auto simp: endpoint_wf_def split: EndpointType.splits option.splits)
        moreover have "w1 \<noteq> w" using claim_apart [OF assms ep] c wr wr' unfolding apart_def by blast
        ultimately show "w1 \<noteq> w \<and> r1 \<noteq> r" using Some c by auto
      qed
      then show ?thesis using Some ep wr wr' core_wf_drop [OF assms, of u w r]
        by (simp add: cleanup_session_state_by_pipe_def Let_def split: option.split)
    qed
  qed
qed

lemma handle_inproc_closed_wf [simp]: "core_wf n \<Longrightarrow> core_wf (handle_inproc_pipe_peer_closed_event I r n)"
  by (simp add: handle_inproc_pipe_peer_closed_event_def split: option.split prod.split)

lemma schedule_reconnect_wf [simp]: "core_wf n \<Longrightarrow> core_wf (with_state (schedule_reconnect t u) n)"
  by (rule core_wf_with_state) (simp_all add: schedule_reconnect_def core_wf_reconnect Let_def)

lemma connect_failed_wf [simp]: "core_wf n \<Longrightarrow> core_wf (handle_connect_failed_event E u e n)"
  by (simp add: handle_connect_failed_event_def Let_def)

lemma actor_stopping_wf [simp]:
  assumes "core_wf n"
  shows "core_wf (handle_actor_stopping_event E I c ty u e n)"
proof -
  obtain m b where m: "cleanup_stopped_child_resources E I c u e False n = (m, b)" by fastforce
  then have "core_wf m" using cleanup_wf [OF assms, of E I c u e False] by simp
  then show ?thesis
    by (simp add: handle_actor_stopping_event_def m Let_def split: ShutdownPhase.split option.split prod.split)
qed

lemma reap_wf [simp]: "core_wf n \<Longrightarrow> core_wf (reap E I dead n)"
proof (induction dead arbitrary: n)
  case (Cons d dead)
  obtain u x where d: "d = (u, x)" by fastforce
  obtain m b where m: "cleanup_stopped_child_resources E I x (Some u) None False n = (m, b)" by fastforce
  then have "core_wf m" using cleanup_wf [OF Cons.prems, of E I x "Some u" None False] by simp
  then show ?case using Cons by (simp add: d m)
qed simp

lemma respawn_wf [simp]: "core_wf n \<Longrightarrow> core_wf (respawn_connecter_actor u n)"
  by (auto simp: respawn_connecter_actor_def node_simps Let_def intro!: core_wf_handles split: sum.split Endpoint.split)

lemma fold_wf: "(\<And>x n. core_wf n \<Longrightarrow> core_wf (f x n)) \<Longrightarrow> core_wf n \<Longrightarrow> core_wf (fold f xs n)"
  by (induction xs arbitrary: n) simp_all

lemma retry_due_wf [simp]:
  assumes "core_wf n"
  shows "core_wf (retry_due E n)"
proof -
  have "core_wf (with_state (\<lambda>cs. cs\<lparr>reconnect_states :=
      map (\<lambda>(u, r). (u, if is_due (clock E) r then r\<lparr>next_attempt_at := None\<rparr> else r)) (reconnect_states cs)\<rparr>) n)"
    by (rule core_wf_with_state [OF assms]) (use core_wf_reconnect [OF assms] in \<open>simp_all add: comp_def split_def\<close>)
  then show ?thesis by (simp add: retry_due_def fold_wf Let_def)
qed

lemma final_cleanup_wf [simp]: "core_wf n \<Longrightarrow> core_wf (perform_final_pipe_cleanup E I ps n)"
  by (simp add: core_wf_def final_cleanup tables_wf_cleared)

lemma finish_linger_wf [simp]: "core_wf n \<Longrightarrow> core_wf (finish_linger E I n)"
  by (simp add: finish_linger_def Let_def)

lemma initiate_wf [simp]:
  assumes "core_wf n"
  shows "core_wf (initiate_core_shutdown E I n)"
proof -
  have stop: "core_wf (stop_child_listener_actors E cs m) = core_wf m" for cs and m :: "'a node"
    by (simp add: core_wf_def)
  have close: "core_wf (close_active_connections E cs m)" if "core_wf m" for cs and m :: "'a node"
    using that by (auto simp: close_active_connections_def Let_def intro!: fold_wf split: prod.split)
  show ?thesis using assms by (simp add: initiate_core_shutdown_def stop close Let_def)
qed

lemma maintenance_wf [simp]: "core_wf n \<Longrightarrow> core_wf (maintenance E I n)"
  by (simp add: maintenance_def linger_tick_def check_and_advance_linger_def Let_def)

lemma fail_core_wf [simp]: "core_wf n \<Longrightarrow> core_wf (fail_core E I e n)"
  by (simp add: fail_core_def Let_def)

lemma attach_pipe_wf: "attach_pipe I r w n = Some n' \<Longrightarrow> core_wf n' = core_wf n"
  by (auto simp: attach_pipe_def)

lemma core_wf_add_session:
  assumes "core_wf n" "apart (endpoint_claims (state_of n) \<union> task_claims (nd_tasks n)) u w r"
    "w < next_handle_value (nd_context n)" "r < next_handle_value (nd_context n)"
    and "state_of n' = map_read_pipe r u (add_endpoint u ep (add_pipe_tx w c (state_of n)))"
    "nd_tasks n' = nd_tasks n" "next_handle_value (nd_context n') = next_handle_value (nd_context n)"
    and "endpoint_uri ep = u" "endpoint_type ep = Session" "task_handle ep = None" "pipe_ids ep = Some (w, r)"
    "conn_channel (connection_iface ep) = Some c"
  shows "core_wf n'"
  unfolding core_wf_def assms(5-7)
  by (rule tables_wf_add_session [OF assms(1) [unfolded core_wf_def] assms(2-4,8-)])

lemma core_wf_two_handles:
  assumes "core_wf n" "nd_tasks n' = nd_tasks n" "state_of n' = state_of n"
    and k: "k = next_handle_value (nd_context n)" "k + 2 \<le> next_handle_value (nd_context n')"
  shows "core_wf n' \<and> apart (endpoint_claims (state_of n') \<union> task_claims (nd_tasks n')) u k (Suc k) \<and>
    k < next_handle_value (nd_context n') \<and> Suc k < next_handle_value (nd_context n')"
proof -
  have "claims_ok (endpoint_claims (state_of n) \<union> task_claims (nd_tasks n)) k"
    using assms(1) by (simp add: core_wf_def tables_wf_def k(1))
  then have "apart (endpoint_claims (state_of n) \<union> task_claims (nd_tasks n)) u k (Suc k)" by (rule fresh_apart) simp_all
  moreover have "core_wf n'"
    by (rule core_wf_cong [OF assms(1)]) (use assms core_wf_reconnect [OF assms(1)] in simp_all)
  ultimately show ?thesis using assms by simp
qed

lemma new_connection_wf:
  assumes "core_wf n" "handle_new_connection_established E I u tu model n = Some (n', q)"
  shows "core_wf n'"
proof (cases model)
  case ViaUringFd
  then show ?thesis using assms by (simp add: handle_new_connection_established_def Let_def)
next
  case (ViaSca mb sh)
  define k where "k = next_handle_value (nd_context n)"
  define m where "m = n\<lparr>nd_context := (nd_context n)\<lparr>next_handle_value := k + 2\<rparr>\<rparr>"
  have m: "core_wf m" "apart (endpoint_claims (state_of m) \<union> task_claims (nd_tasks m)) u k (Suc k)"
    "k < next_handle_value (nd_context m)" "Suc k < next_handle_value (nd_context m)"
    using core_wf_two_handles [OF assms(1), of m k u] by (simp_all add: m_def k_def)
  show ?thesis
  proof (cases "open_mailbox E mb")
    case False
    then have "n' = m" using assms(2) ViaSca
      by (simp add: handle_new_connection_established_def node_simps m_def k_def Let_def)
    then show ?thesis using m(1) by simp
  next
    case True
    obtain x where x: "attach_pipe I (Suc k) k x = Some n'" "nd_tasks x = nd_tasks m"
      "next_handle_value (nd_context x) = next_handle_value (nd_context m)"
      "state_of x = map_read_pipe (Suc k) u (add_endpoint u
        \<lparr>ep_mailbox = mb, task_handle = None, endpoint_type = Session, endpoint_uri = u,
         pipe_ids = Some (k, Suc k), handle_id = sh, target_endpoint_uri = Some tu,
         is_outbound_connection = \<not> list_ex (\<lambda>(_, ep). endpoint_type ep = Listener \<and> endpoint_uri ep = tu) (endpoints (state_of n)),
         peer_socket_type = None,
         connection_iface = Sca \<lparr>sca_stop_mailbox = mb, sca_handle_id = sh, pipe_sender = k,
           pipe_write_id_to_sca = k, sca_sndtimeo = sndtimeo (options (state_of n))\<rparr>\<rparr> (add_pipe_tx k k (state_of m)))"
      using assms(2) ViaSca True
      by (auto simp: handle_new_connection_established_def node_simps m_def k_def Let_def split: option.splits)
    have "core_wf x" by (rule core_wf_add_session [OF m x(4,2,3)]) simp_all
    then show ?thesis using attach_pipe_wf [OF x(1)] by simp
  qed
qed

lemma establish_wf [simp]:
  assumes "core_wf n"
  shows "core_wf (establish_peer I r p ty n)"
proof -
  have *: "core_wf (with_state (\<lambda>cs. cs\<lparr>
      endpoints := map (\<lambda>(k, ep). (k, if k = u then ep\<lparr>peer_socket_type := ty\<rparr> else ep)) (endpoints cs),
      reconnect_states := map (\<lambda>(k, r). (k, if k = u then on_connection_success r else r)) (reconnect_states cs)\<rparr>) n)" for u
  proof -
    let ?f = "\<lambda>(k, ep). (k, if k = u then ep\<lparr>peer_socket_type := ty\<rparr> else ep)"
    let ?cs = "(state_of n)\<lparr>endpoints := map ?f (endpoints (state_of n)),
      reconnect_states := map (\<lambda>(k, r). (k, if k = u then on_connection_success r else r)) (reconnect_states (state_of n))\<rparr>"
    have c: "endpoint_claims ?cs = endpoint_claims (state_of n)"
      by (auto simp: endpoint_claims_def split: if_splits)
    have "endpoint_wf ?cs v ep" if v: "(v, ep) \<in> set (endpoints ?cs)" for v ep
    proof -
      obtain e where e: "(v, e) \<in> set (endpoints (state_of n))" "ep = (if v = u then e\<lparr>peer_socket_type := ty\<rparr> else e)"
        using v by auto
      then have "endpoint_wf (state_of n) v e" using assms by (simp add: core_wf_def tables_wf_def)
      then show ?thesis using e(2) by (auto simp: endpoint_wf_def split: EndpointType.splits option.splits)
    qed
    then show ?thesis using assms c by (simp add: core_wf_def tables_wf_def node_simps comp_def split_def)
  qed
  show ?thesis using assms * by (simp add: establish_peer_def Let_def split: option.split)
qed

lemma inproc_endpoint_simps [simp]:
  "endpoint_uri (inproc_endpoint u p w r e c b cs) = u" "endpoint_type (inproc_endpoint u p w r e c b cs) = Session"
  "task_handle (inproc_endpoint u p w r e c b cs) = None" "pipe_ids (inproc_endpoint u p w r e c b cs) = Some (w, r)"
  "conn_channel (connection_iface (inproc_endpoint u p w r e c b cs)) = Some c"
  by (simp_all add: inproc_endpoint_def)

lemma binding_request_wf:
  assumes "core_wf n" "process_inproc_binding_request_event I u c w r n = Some (n', q)"
    and "apart (endpoint_claims (state_of n) \<union> task_claims (nd_tasks n)) u w r"
    "w < next_handle_value (nd_context n)" "r < next_handle_value (nd_context n)"
  shows "core_wf n'"
proof -
  define k where "k = next_handle_value (nd_context n)"
  define m where "m = n\<lparr>nd_context := (nd_context n)\<lparr>next_handle_value := Suc k\<rparr>\<rparr>"
  have m: "core_wf m" unfolding m_def by (rule core_wf_handles [OF assms(1)]) (simp add: k_def)
  obtain x y ep where x: "attach_pipe I r w x = Some y" "core_wf n' = core_wf y" "nd_tasks x = nd_tasks m"
    "next_handle_value (nd_context x) = next_handle_value (nd_context m)"
    "state_of x = map_read_pipe r u (add_endpoint u ep (add_pipe_tx w c (state_of m)))"
    "ep = inproc_endpoint u u w r k c False (state_of n)"
    using assms(2)
    by (auto simp: process_inproc_binding_request_event_def node_simps m_def k_def Let_def)
  have "core_wf x" by (rule core_wf_add_session [OF m _ _ _ x(5,3,4)]) (use assms in \<open>simp_all add: x(6) m_def k_def\<close>)
  then show ?thesis using attach_pipe_wf [OF x(1)] x(2) by simp
qed

lemma bind_listener_wf:
  assumes "core_wf n"
  shows "core_wf (fst (bind_listener E u n))"
proof -
  define m where "m = fst (fresh_handle n)"
  have m: "core_wf m" "state_of m = state_of n" "fresh_handle n = (m, next_handle_value (nd_context n))"
    using assms by (simp_all add: m_def node_simps core_wf_handles)
  have "core_wf (with_state (add_endpoint v
      \<lparr>ep_mailbox = mb, task_handle = Some task, endpoint_type = Listener, endpoint_uri = v,
       pipe_ids = None, handle_id = child, target_endpoint_uri = None, is_outbound_connection = False,
       peer_socket_type = None, connection_iface = Dummy\<rparr>) (emit es m))"
    if "map_of (endpoints (state_of m)) v = None" for v mb task child es
    using tables_wf_add_listener [OF m(1) [unfolded core_wf_def] that] by (simp add: core_wf_def node_simps)
  then show ?thesis using assms m(1,2)
    by (simp add: bind_listener_def m(3) emit_simps Let_def split: sum.split prod.split)
qed

lemma bind_inproc_wf: "core_wf n \<Longrightarrow> core_wf (fst (bind_inproc name n))"
  by (auto simp: bind_inproc_def register_inproc_def intro!: core_wf_with_state core_wf_handles core_wf_reconnect)

lemma user_bind_wf [simp]:
  assumes "core_wf n"
  shows "core_wf (handle_user_bind E u n)"
proof -
  have last: "core_wf (with_state (\<lambda>cs. cs\<lparr>last_bound_endpoint := v\<rparr>) m)" if "core_wf m" for v and m :: "'a node"
    by (rule core_wf_with_state [OF that]) (simp_all add: core_wf_reconnect [OF that])
  have finish: "core_wf (case p of
       (n, Inr actual_uri) \<Rightarrow>
         reply_to (Inr ()) (monitor (Listening actual_uri)
           (with_state (\<lambda>cs. cs\<lparr>last_bound_endpoint := Some actual_uri\<rparr>) n))
     | (n, Inl e) \<Rightarrow> reply_to (Inl e) (monitor (BindFailed u) n))" if "core_wf (fst p)" for p :: "'a node \<times> uri res"
    using that last by (auto split: prod.split sum.split)
  show ?thesis unfolding handle_user_bind_def
    by (rule finish) (use assms bind_listener_wf [OF assms, of E] bind_inproc_wf [OF assms] in
      \<open>simp split: sum.split Endpoint.split\<close>, simp add: split_def)
qed

lemma user_connect_wf [simp]:
  assumes "core_wf n"
  shows "core_wf (handle_user_connect u n)"
proof -
  have "core_wf (n\<lparr>nd_tasks := nd_tasks n @ [ConnectInproc name]\<rparr>)" for name
    using assms by (simp add: core_wf_def task_claims_def)
  then show ?thesis using assms by (simp add: handle_user_connect_def split: sum.split Endpoint.split)
qed

lemma disconnect_inproc_wf:
  assumes "core_wf n"
  shows "core_wf (fst (disconnect_inproc E I u n))"
proof (cases "map_of (endpoints (state_of n)) u")
  case None
  then show ?thesis using assms by (simp add: disconnect_inproc_def Let_def)
next
  case (Some info)
  show ?thesis
  proof (cases "pipe_ids info")
    case None
    have "(u, info) \<in> set (endpoints (state_of n))" using Some by (rule map_of_SomeD)
    then have wf: "endpoint_wf (state_of n) u info" using assms by (simp add: core_wf_def tables_wf_def)
    define m where "m = with_state (\<lambda>cs. cs\<lparr>endpoints := alist_del u (endpoints cs)\<rparr>) n"
    have m: "core_wf m" unfolding m_def using assms by (rule core_wf_drop_endpoint)
    obtain h where "endpoint_type info = Listener" "task_handle info = Some h" "connection_iface info = Dummy"
      "\<not> is_outbound_connection info" "endpoint_uri info = u"
      using wf None by (auto simp: endpoint_wf_def split: EndpointType.splits)
    moreover have "map_of (endpoints (state_of m)) u = None" by (simp add: m_def node_simps)
    ultimately have "core_wf (with_state (add_endpoint u info) m)"
      using tables_wf_add_listener [OF m [unfolded core_wf_def], of u info h] None by (simp add: core_wf_def node_simps)
    then show ?thesis using assms Some None by (simp add: disconnect_inproc_def m_def Let_def)
  next
    case wr: (Some wr)
    obtain w r where wr': "wr = (w, r)" by fastforce
    have "core_wf (drop_pipe_state w r (with_state (\<lambda>cs. cs\<lparr>endpoints := alist_del u (endpoints cs)\<rparr>) n))"
      using core_wf_drop [OF assms claim_apart [OF assms Some]] wr wr' by simp
    then have "core_wf (drop_pipe_state w r (emit es (with_state (\<lambda>cs. cs\<lparr>endpoints := alist_del u (endpoints cs)\<rparr>) n)))" for es
      by (simp add: core_wf_def node_simps)
    then show ?thesis using assms Some wr wr' by (simp add: disconnect_inproc_def Let_def split: option.split)
  qed
qed

lemma user_disconnect_wf [simp]:
  assumes "core_wf n"
  shows "core_wf (handle_user_disconnect E I u n)"
  using assms disconnect_inproc_wf [OF assms, of E I u]
  by (auto simp: handle_user_disconnect_def split: option.split prod.split)

lemma user_unbind_wf [simp]:
  assumes "core_wf n"
  shows "core_wf (handle_user_unbind E u n)"
proof -
  have "core_wf (unbind_inproc name (with_state (\<lambda>cs. cs\<lparr>bound_inproc_names := xs cs\<rparr>) n))" for name xs
    by (rule core_wf_cong [OF assms])
      (use core_wf_reconnect [OF assms] in \<open>simp_all add: unbind_inproc_def unregister_inproc_def node_simps\<close>)
  then show ?thesis using assms by (simp add: handle_user_unbind_def Let_def split: option.split)
qed

lemma with_options_wf: "core_wf n \<Longrightarrow> core_wf (with_state (\<lambda>cs. cs\<lparr>options := x\<rparr>) n)"
  by (rule core_wf_with_state) (simp_all add: core_wf_reconnect)

lemma set_option_wf:
  "core_wf n \<Longrightarrow> handle_set_option I opt v n = Some (n', q) \<Longrightarrow> core_wf n'"
  by (auto simp: handle_set_option_def update_core_option_def with_options_wf Let_def
    split: option.splits prod.splits sum.splits ZmqError.splits)

lemma command_wf:
  assumes "core_wf n" "process_socket_command E I cmd n = Some (n', q)"
  shows "core_wf n'"
proof (cases "phase_of n = Running")
  case False
  have "core_wf (process_command_during_shutdown E I cmd n)" using assms(1) by (cases cmd) simp_all
  then show ?thesis using False assms(2) by (auto simp: process_socket_command_def)
next
  case True
  have "core_wf (with_state (\<lambda>cs. cs\<lparr>monitor_tx := True\<rparr>) n)"
    by (rule core_wf_with_state [OF assms(1)]) (simp_all add: core_wf_reconnect [OF assms(1)])
  then have mon: "core_wf (handle_user_monitor n)" by (simp add: handle_user_monitor_def)
  have pub: "core_wf (publish_socket_closing_event n)" using assms(1) by (simp add: publish_socket_closing_event_def)
  obtain m where m: "process_running_command E I cmd n = Some m" "n' = m"
    using assms(2) True by (auto simp: process_socket_command_def)
  then show ?thesis using assms(1) mon pub by (cases cmd) (auto dest: set_option_wf)
qed

lemma abandon_wf:
  "core_wf n \<Longrightarrow> apart (endpoint_claims (state_of n)) (inproc_uri name) w r \<Longrightarrow> core_wf (abandon_inproc name w r n)"
  by (simp add: abandon_inproc_def core_wf_drop)

lemma core_wf_await:
  assumes "core_wf n" "map_of (endpoints (state_of n)) (inproc_uri name) = Some ep" "pipe_ids ep = Some (w, r)"
  shows "core_wf (n\<lparr>nd_tasks := nd_tasks n @ [AwaitBinder name w r m]\<rparr>)"
proof -
  have "(inproc_uri name, w, r) \<in> endpoint_claims (state_of n)"
    using assms(2,3) map_of_SomeD by (fastforce simp: endpoint_claims_def)
  then have "endpoint_claims (state_of n) \<union> task_claims (nd_tasks n @ [AwaitBinder name w r m]) =
    endpoint_claims (state_of n) \<union> task_claims (nd_tasks n)"
    by (auto simp: task_claims_def)
  then show ?thesis using assms(1) by (simp add: core_wf_def tables_wf_def)
qed

lemma connect_inproc_wf [simp]:
  assumes "core_wf n"
  shows "core_wf (connect_inproc E name n)"
proof (cases "lookup_inproc name (nd_context n) = None \<or> \<not> logic_alive E")
  case True
  then show ?thesis using assms by (auto simp: connect_inproc_def split: option.split)
next
  case False
  define k where "k = next_handle_value (nd_context n)"
  define m where "m = n\<lparr>nd_context := (nd_context n)\<lparr>next_handle_value := Suc (k + 2)\<rparr>\<rparr>"
  let ?u = "inproc_uri name"
  have m: "core_wf m" "apart (endpoint_claims (state_of m) \<union> task_claims (nd_tasks m)) ?u k (Suc k)"
    "k < next_handle_value (nd_context m)" "Suc k < next_handle_value (nd_context m)"
    using core_wf_two_handles [OF assms, of m k ?u] by (simp_all add: m_def k_def)
  define ep where "ep = inproc_endpoint ?u ?u k (Suc k) (Suc (Suc k)) k True (add_pipe_tx k k (state_of n))"
  define x where "x = (with_state (\<lambda>cs. map_read_pipe (Suc k) ?u (add_endpoint ?u
      (inproc_endpoint ?u ?u k (Suc k) (Suc (Suc k)) k True cs) cs))
    ((emit [ForwarderSpawned (Suc k) (Suc k)] (with_state (add_pipe_tx k k)
      (n\<lparr>nd_context := (nd_context n)\<lparr>next_handle_value := Suc (Suc k)\<rparr>\<rparr>)))
        \<lparr>nd_context := (nd_context n)\<lparr>next_handle_value := Suc (k + 2)\<rparr>\<rparr>))"
  have x: "state_of x = map_read_pipe (Suc k) ?u (add_endpoint ?u ep (add_pipe_tx k k (state_of m)))"
    "nd_tasks x = nd_tasks m" "next_handle_value (nd_context x) = next_handle_value (nd_context m)"
    by (simp_all add: x_def ep_def m_def node_simps)
  have wf: "core_wf x" by (rule core_wf_add_session [OF m x]) (simp_all add: ep_def)
  have e: "map_of (endpoints (state_of x)) ?u = Some ep" "pipe_ids ep = Some (k, Suc k)"
    by (simp_all add: x map_read_pipe_def add_endpoint_def ep_def)
  have "connect_inproc E name n = (if bus_open E
      then emit [PublishedInprocBindingRequest name ?u (Suc k) k (Suc k)]
        (x\<lparr>nd_tasks := nd_tasks x @ [AwaitBinder name k (Suc k) (monitor_tx (state_of x))]\<rparr>)
      else emit [Replied (Inl Internal)] (abandon_inproc name k (Suc k) x))"
    using False by (auto simp: connect_inproc_def node_simps x_def k_def Let_def)
  then show ?thesis using core_wf_await [OF wf e] abandon_wf [OF wf claim_apart [OF wf e]] by simp
qed

lemma connect_inproc_reply_wf:
  assumes "core_wf n" "apart (endpoint_claims (state_of n)) (inproc_uri name) w r"
    and "connect_inproc_reply E I name w r m answer n = Some n'"
  shows "core_wf n'"
  using assms(3) assms(1) abandon_wf [OF assms(1,2)]
  by (auto simp: connect_inproc_reply_def Let_def split: option.splits sum.splits if_splits dest!: attach_pipe_wf)


section \<open>Reachable states\<close>

text \<open>
  The pipe identifiers in a request of a connector come from its \<open>connect_inproc\<close>, hence from the context:
  they have been given out, and no other connection of this core has them.
\<close>

fun input_ok :: "core_input \<Rightarrow> 'l node \<Rightarrow> bool" where
  "input_ok (Event (InprocBindingRequest name u tx connector_write_id connector_read_id)) n \<longleftrightarrow>
    connector_write_id < next_handle_value (nd_context n) \<and> connector_read_id < next_handle_value (nd_context n) \<and>
    apart (endpoint_claims (state_of n) \<union> task_claims (nd_tasks n)) u connector_read_id connector_write_id"
| "input_ok _ n \<longleftrightarrow> True"

text \<open>
  A step is an iteration of the loop, a step of a task that the core has spawned, handles that others take
  from the context, or a call of the application, which works on the pattern's state.
\<close>

inductive core_step :: "'l ISocket \<Rightarrow> 'l node \<Rightarrow> 'l node \<Rightarrow> bool" for I where
  iteration: "phase_of n \<noteq> Finished \<Longrightarrow> input_ok i n \<Longrightarrow> loop_iteration E I i n = Some n' \<Longrightarrow> core_step I n n'"
| connect_task: "ConnectInproc name \<in> set (nd_tasks n) \<Longrightarrow>
    core_step I n (connect_inproc E name (n\<lparr>nd_tasks := remove1 (ConnectInproc name) (nd_tasks n)\<rparr>))"
| connect_reply: "AwaitBinder name w r m \<in> set (nd_tasks n) \<Longrightarrow>
    connect_inproc_reply E I name w r m answer (n\<lparr>nd_tasks := remove1 (AwaitBinder name w r m) (nd_tasks n)\<rparr>) = Some n' \<Longrightarrow>
    core_step I n n'"
| handles: "next_handle_value (nd_context n) \<le> next_handle_value c \<Longrightarrow> core_step I n (n\<lparr>nd_context := c\<rparr>)"
| application: "core_step I n (n\<lparr>nd_logic := l\<rparr>)"

inductive_cases core_stepE: "core_step I n n'"

lemma event_wf:
  assumes "core_wf n" "input_ok (Event ev) n" "process_system_event E I ev n = Some (n', q)"
  shows "core_wf n'"
proof (cases ev)
  case (NewConnectionEstablished parent u tu iface model)
  have "core_wf (case iface of Some c \<Rightarrow> close_iface E c n | None \<Rightarrow> n)" using assms(1) by (simp split: option.split)
  then show ?thesis using assms(1,3) new_connection_wf [OF assms(1), of E I u tu model n' q]
    by (auto simp: NewConnectionEstablished Let_def split: if_splits ConnectionInteractionModel.splits)
next
  case (InprocBindingRequest name u tx cw cr)
  then show ?thesis using assms binding_request_wf [OF assms(1), of I u tx cr cw n' q] by (auto split: if_splits)
qed (use assms in \<open>auto split: if_splits\<close>)

lemma iteration_wf:
  assumes "core_wf n" "input_ok i n" "loop_iteration E I i n = Some n'"
  shows "core_wf n'"
proof (cases i)
  case (Event ev)
  then obtain m q where m: "process_system_event E I ev n = Some (m, q)" "n' = (case q of Inr _ \<Rightarrow> m | Inl e \<Rightarrow> fail_core E I e m)"
    using assms(3) by auto
  then have "core_wf m" using event_wf assms(1,2) Event by blast
  then show ?thesis by (simp add: m(2) split: sum.split)
next
  case (Cmd cmd)
  then obtain m q where m: "process_socket_command E I cmd n = Some (m, q)" "n' = (case q of Inr _ \<Rightarrow> m | Inl e \<Rightarrow> fail_core E I e m)"
    using assms(3) by auto
  then have "core_wf m" using command_wf assms(1) by blast
  then show ?thesis by (simp add: m(2) split: sum.split)
qed (use assms in \<open>auto split: if_splits\<close>)

lemma core_wf_fewer_tasks:
  assumes "core_wf n" "set ts \<subseteq> set (nd_tasks n)"
  shows "core_wf (n\<lparr>nd_tasks := ts\<rparr>)"
proof -
  have "task_claims ts \<subseteq> task_claims (nd_tasks n)" using assms(2) unfolding task_claims_def by blast
  then show ?thesis using assms(1) tables_wf_cong [OF _ _ le_refl refl refl refl] core_wf_reconnect [OF assms(1)]
    by (simp add: core_wf_def)
qed

lemma step_wf:
  assumes "core_step I n n'" "core_wf n"
  shows "core_wf n'"
  using assms(1)
proof cases
  case (iteration i E)
  then show ?thesis using iteration_wf assms(2) by blast
next
  case (connect_task name E)
  then show ?thesis using core_wf_fewer_tasks [OF assms(2), of "remove1 (ConnectInproc name) (nd_tasks n)"]
    by (simp add: set_remove1_subset)
next
  case (connect_reply name w r m E answer)
  let ?n = "n\<lparr>nd_tasks := remove1 (AwaitBinder name w r m) (nd_tasks n)\<rparr>"
  have "(inproc_uri name, w, r) \<in> task_claims (nd_tasks n)" using connect_reply(1) by (auto simp: task_claims_def)
  then have "apart (endpoint_claims (state_of ?n)) (inproc_uri name) w r"
    using assms(2) unfolding core_wf_def tables_wf_def claims_ok_def apart_def by fastforce
  moreover have "core_wf ?n" using assms(2) by (rule core_wf_fewer_tasks) (rule set_remove1_subset)
  ultimately show ?thesis using connect_inproc_reply_wf connect_reply(2) by blast
next
  case (handles c)
  then show ?thesis using core_wf_handles [OF assms(2)] by simp
next
  case (application l)
  then show ?thesis using assms(2) by simp
qed

lemma reachable_wf:
  assumes "(core_step I)\<^sup>*\<^sup>* (node_new h ty opts l c) n"
  shows "core_wf n"
  using assms
proof (induction rule: rtranclp_induct)
  case base
  show ?case by (simp add: node_new_def socket_core_new_def core_state_new_def core_wf_def tables_wf_def
    endpoint_claims_def task_claims_def claims_ok_def)
next
  case (step x y)
  then show ?case using step_wf by blast
qed

end
